(* ===== verification/Prelude.thy ===== *)
theory Prelude
  imports Main "HOL-Library.Word" "HOL-Library.Signed_Division"
begin

text \<open>
  The shared vocabulary of the development: the Go machine integers, byte slices, error
  values and panics that every component of usbd uses, the byte orders of the standard
  library package \<^verbatim>\<open>encoding/binary\<close>, and the generic lemmas about overwriting and reading
  ranges of byte lists on which the device proofs rest.
  Nothing in this theory belongs to one component.
\<close>

unbundle bit_operations_syntax

section \<open>Types\<close>

type_synonym byte = "8 word"
type_synonym bytes = "byte list"
type_synonym u8 = "8 word"
type_synonym u16 = "16 word"
type_synonym u32 = "32 word"
type_synonym u64 = "64 word"

text \<open>
  Go's \<^verbatim>\<open>int\<close> and \<^verbatim>\<open>int64\<close> are 64 bit signed on every platform the program builds for (a
  constant of \<^verbatim>\<open>util/zeros.go\<close> does not fit a 32 bit \<^verbatim>\<open>int\<close>).
  They are HOL integers here, and every addition or subtraction of the source that may leave
  the range is wrapped by \<open>wrap64\<close>.
\<close>

type_synonym i64 = int

definition wrap64 :: "int \<Rightarrow> i64" where
  "wrap64 x = signed_take_bit 63 x"

definition in64 :: "int \<Rightarrow> bool" where
  "in64 x \<longleftrightarrow> - (2 ^ 63) \<le> x \<and> x < 2 ^ 63"

text \<open>A Go computation returns a value or panics (index or slice bounds, nil dereference,
  misuse of a lock): the panic is a value of the model.\<close>

datatype 'a go = Ret 'a | Panic

fun go_bind :: "'a go \<Rightarrow> ('a \<Rightarrow> 'b go) \<Rightarrow> 'b go" where
  "go_bind (Ret x) f = f x"
| "go_bind Panic f = Panic"

text \<open>
  Error values. \<open>Wrap\<close> is \<^verbatim>\<open>fmt.Errorf("...: %w", err)\<close>, with the text up to the verb;
  \<open>Msg\<close> is an error with a text only. The other constructors are the sentinel values the
  code compares against or that the standard library returns.
\<close>

datatype goerr =
    EOF | UnexpectedEOF
  | ErrClosed | ErrShutdown | ErrCanceled
  | ErrNotPresent | ErrNotFound | ErrCapacityClaim | ErrNotImplemented
  | ErrNotExist | OsInvalid | OsNegOffset | OsClosed | OsFault string
  | Msg string | Wrap string goerr

fun errIs :: "goerr \<Rightarrow> goerr \<Rightarrow> bool" where
  "errIs (Wrap s e) t = (Wrap s e = t \<or> errIs e t)"
| "errIs e t = (e = t)"

section \<open>Slices\<close>

text \<open>Slicing \<^verbatim>\<open>xs[lo:hi]\<close> and indexing \<^verbatim>\<open>xs[i]\<close>, with the run-time bounds checks, of slices
  whose capacity is their length.\<close>

definition go_slice :: "'a list \<Rightarrow> int \<Rightarrow> int \<Rightarrow> 'a list go" where
  "go_slice xs lo hi =
     (if 0 \<le> lo \<and> lo \<le> hi \<and> hi \<le> int (length xs)
      then Ret (take (nat (hi - lo)) (drop (nat lo) xs)) else Panic)"

definition go_index :: "'a list \<Rightarrow> int \<Rightarrow> 'a go" where
  "go_index xs i = (if 0 \<le> i \<and> i < int (length xs) then Ret (xs ! nat i) else Panic)"

text \<open>\<^verbatim>\<open>copy(dst, src)\<close>: the new contents of \<open>dst\<close>.\<close>

definition go_copy :: "'a list \<Rightarrow> 'a list \<Rightarrow> 'a list" where
  "go_copy dst src = take (length dst) src @ drop (length src) dst"

text \<open>The range of \<open>n\<close> elements from \<open>i\<close> on, and the list with \<open>ys\<close> written at \<open>i\<close>.\<close>

definition chunk :: "'a list \<Rightarrow> nat \<Rightarrow> nat \<Rightarrow> 'a list" where
  "chunk xs i n = take n (drop i xs)"

definition blit :: "'a list \<Rightarrow> nat \<Rightarrow> 'a list \<Rightarrow> 'a list" where
  "blit xs i ys = take i xs @ ys @ drop (i + length ys) xs"

abbreviation zeros :: "nat \<Rightarrow> bytes" where
  "zeros n \<equiv> replicate n 0"

section \<open>Byte orders\<close>

fun put_le :: "nat \<Rightarrow> 'a::len word \<Rightarrow> bytes" where
  "put_le 0 w = []"
| "put_le (Suc n) w = ucast w # put_le n (drop_bit 8 w)"

fun get_le :: "bytes \<Rightarrow> 'a::len word" where
  "get_le [] = 0"
| "get_le (b # bs) = ucast b OR push_bit 8 (get_le bs)"

definition put_be :: "nat \<Rightarrow> 'a::len word \<Rightarrow> bytes" where
  "put_be n w = rev (put_le n w)"

definition get_be :: "bytes \<Rightarrow> 'a::len word" where
  "get_be bs = get_le (rev bs)"

section \<open>Sequencing\<close>

lemma go_bind_Ret_iff: "go_bind m f = Ret y \<longleftrightarrow> (\<exists>x. m = Ret x \<and> f x = Ret y)"
  by (cases m) auto

section \<open>Integers\<close>

lemma wrap64_id [simp]: "in64 x \<Longrightarrow> wrap64 x = x"
  by (simp add: in64_def wrap64_def signed_take_bit_int_eq_self)

lemma in64_wrap64 [simp]: "in64 (wrap64 x)"
  using signed_take_bit_int_greater_eq_minus_exp [of 63 x] signed_take_bit_int_less_exp [of 63 x]
  by (simp add: in64_def wrap64_def)

lemma wrap64_numeral_overflow: "2 ^ 63 \<le> x \<Longrightarrow> x < 2 ^ 64 \<Longrightarrow> wrap64 x = x - 2 ^ 64"
proof -
  assume a: "2 ^ 63 \<le> x" "x < 2 ^ 64"
  have "wrap64 x = (x + 2 ^ 63) mod 2 ^ 64 - 2 ^ 63"
    by (simp add: wrap64_def signed_take_bit_eq_take_bit_shift take_bit_eq_mod)
  also have "(x + 2 ^ 63) mod 2 ^ 64 = (x + 2 ^ 63 - 2 ^ 64) mod 2 ^ 64"
    using a by (subst mod_pos_geq) auto
  also have "\<dots> = x + 2 ^ 63 - 2 ^ 64"
    using a by (subst mod_pos_pos_trivial) auto
  finally show ?thesis by simp
qed

lemma sdiv_nonneg [simp]: "0 \<le> (a::int) \<Longrightarrow> 0 \<le> b \<Longrightarrow> a sdiv b = a div b"
  by (cases "b = 0"; cases "a = 0") (auto simp: signed_divide_int_def sgn_if)

lemma smod_nonneg [simp]: "0 \<le> (a::int) \<Longrightarrow> 0 \<le> b \<Longrightarrow> a smod b = a mod b"
  by (cases "a = 0") (auto simp: signed_modulo_int_def sgn_if minus_mult_div_eq_mod mult.commute)

section \<open>Ranges of lists\<close>

named_theorems range_simps \<open>reading and overwriting ranges of lists\<close>

lemma length_chunk [simp]: "length (chunk xs i n) = min n (length xs - i)"
  by (simp add: chunk_def min.commute)

lemma length_blit [simp]: "i + length ys \<le> length xs \<Longrightarrow> length (blit xs i ys) = length xs"
  by (simp add: blit_def)

lemma blit_nil [simp]: "blit xs i [] = xs"
  by (simp add: blit_def)

lemma chunk_zero [simp]: "chunk xs i 0 = []"
  by (simp add: chunk_def)

lemma chunk_all [simp]: "chunk xs 0 (length xs) = xs"
  by (simp add: chunk_def)

lemma nth_chunk [simp]: "k < n \<Longrightarrow> i + k < length xs \<Longrightarrow> chunk xs i n ! k = xs ! (i + k)"
  by (simp add: chunk_def)

lemma nth_blit:
  "i + length ys \<le> length xs \<Longrightarrow> k < length xs \<Longrightarrow>
   blit xs i ys ! k = (if i \<le> k \<and> k < i + length ys then ys ! (k - i) else xs ! k)"
  by (auto simp: blit_def nth_append min_def)

lemma chunk_blit_same [range_simps]:
  "i + length ys \<le> length xs \<Longrightarrow> chunk (blit xs i ys) i (length ys) = ys"
  by (simp add: chunk_def blit_def)

lemma chunk_blit_disjoint [range_simps]:
  assumes "i + length ys \<le> length xs" "j + n \<le> i \<or> i + length ys \<le> j"
  shows "chunk (blit xs i ys) j n = chunk xs j n"
  by (rule nth_equalityI) (use assms in \<open>auto simp: nth_blit\<close>)

lemma chunk_blit_inside [range_simps]:
  assumes "i + length ys \<le> length xs" "i \<le> j" "j + n \<le> i + length ys"
  shows "chunk (blit xs i ys) j n = chunk ys (j - i) n"
  by (rule nth_equalityI) (use assms in \<open>auto simp: nth_blit\<close>)

lemma blit_commute:
  assumes "i + length ys \<le> length xs" "j + length zs \<le> length xs"
    "i + length ys \<le> j \<or> j + length zs \<le> i"
  shows "blit (blit xs i ys) j zs = blit (blit xs j zs) i ys"
  by (rule nth_equalityI) (use assms in \<open>auto simp: nth_blit\<close>)

lemma blit_overwrite:
  assumes "length ys = length zs" "i + length zs \<le> length xs"
  shows "blit (blit xs i ys) i zs = blit xs i zs"
  by (rule nth_equalityI) (use assms in \<open>auto simp: nth_blit\<close>)

lemma blit_append:
  assumes "i + length ys + length zs \<le> length xs"
  shows "blit xs i (ys @ zs) = blit (blit xs i ys) (i + length ys) zs"
  by (rule nth_equalityI) (use assms in \<open>auto simp: nth_blit nth_append\<close>)

lemma blit_chunk_id: "i + n \<le> length xs \<Longrightarrow> blit xs i (chunk xs i n) = xs"
  by (rule nth_equalityI) (auto simp: nth_blit)

lemma chunk_append_chunk: "chunk xs i m @ chunk xs (i + m) n = chunk xs i (m + n)"
  by (simp add: chunk_def take_add add.commute)

lemma chunk_chunk: "j + n \<le> m \<Longrightarrow> chunk (chunk xs i m) j n = chunk xs (i + j) n"
  by (simp add: chunk_def drop_take add.commute min_def take_take)

lemma chunk_zeros: "i + n \<le> m \<Longrightarrow> chunk (replicate m x) i n = replicate n x"
  by (simp add: chunk_def min_def)

lemma go_slice_ok [simp]:
  "0 \<le> lo \<Longrightarrow> lo \<le> hi \<Longrightarrow> hi \<le> int (length xs) \<Longrightarrow>
   go_slice xs lo hi = Ret (chunk xs (nat lo) (nat (hi - lo)))"
  by (simp add: go_slice_def chunk_def)

lemma go_slice_panic_iff: "go_slice xs lo hi = Panic \<longleftrightarrow> \<not> (0 \<le> lo \<and> lo \<le> hi \<and> hi \<le> int (length xs))"
  by (simp add: go_slice_def)

lemma length_go_copy [simp]: "length (go_copy dst src) = length dst"
  by (simp add: go_copy_def)

lemma go_copy_same: "length src = length dst \<Longrightarrow> go_copy dst src = src"
  by (simp add: go_copy_def)

text \<open>A byte array made of blocks of equal size: ranges of whole blocks are ranges of the list of
  blocks.\<close>

lemma length_concat_blocks: "\<forall>x \<in> set xs. length x = n \<Longrightarrow> length (concat xs) = n * length xs"
  by (induction xs) auto

lemma drop_concat_blocks: "\<forall>x \<in> set xs. length x = n \<Longrightarrow> drop (n * i) (concat xs) = concat (drop i xs)"
proof (induction i arbitrary: xs)
  case (Suc i)
  then show ?case by (cases xs) auto
qed simp

lemma take_concat_blocks: "\<forall>x \<in> set xs. length x = n \<Longrightarrow> take (n * i) (concat xs) = concat (take i xs)"
proof (induction i arbitrary: xs)
  case (Suc i)
  then show ?case by (cases xs) auto
qed simp

lemma chunk_concat_blocks:
  "\<forall>x \<in> set xs. length x = n \<Longrightarrow> chunk (concat xs) (n * i) (n * k) = concat (chunk xs i k)"
  by (simp add: chunk_def drop_concat_blocks take_concat_blocks in_set_dropD)

lemma blit_concat_blocks:
  assumes "\<forall>x \<in> set xs. length x = n" "i < length xs" "length b = n"
  shows "blit (concat xs) (n * i) b = concat (xs[i := b])"
proof -
  have "n * i + length b = n * Suc i" using assms(3) by simp
  then show ?thesis
    by (simp add: blit_def drop_concat_blocks [OF assms(1)] take_concat_blocks [OF assms(1)]
        upd_conv_take_nth_drop [OF assms(2)] del: mult_Suc_right)
qed

text \<open>Ranges inside one block.\<close>

lemma block_of_concat:
  assumes "\<forall>x \<in> set xs. length x = n" "i < length xs"
  shows "chunk (concat xs) (n * i) n = xs ! i"
proof -
  have "chunk xs i 1 = [xs ! i]" using assms(2) by (simp add: chunk_def take_Suc_conv_app_nth)
  then show ?thesis using chunk_concat_blocks [OF assms(1), of i 1] by simp
qed

lemma chunk_in_block:
  assumes "\<forall>x \<in> set xs. length x = n" "i < length xs" "off + k \<le> n"
  shows "chunk (concat xs) (n * i + off) k = chunk (xs ! i) off k"
  using block_of_concat [OF assms(1,2)] chunk_chunk [OF assms(3), of "concat xs" "n * i"] by simp

lemma blit_of_chunk:
  assumes "i + n \<le> length xs" "off + length ys \<le> n"
  shows "blit xs i (blit (chunk xs i n) off ys) = blit xs (i + off) ys"
  by (rule nth_equalityI) (use assms in \<open>auto simp: nth_blit\<close>)

lemma blit_in_block:
  assumes "\<forall>x \<in> set xs. length x = n" "i < length xs" "off + length ys \<le> n"
  shows "concat (xs[i := blit (xs ! i) off ys]) = blit (concat xs) (n * i + off) ys"
proof -
  have "n * i + n \<le> length (concat xs)"
    using mult_le_mono2 [of "Suc i" "length xs" n] assms(2) length_concat_blocks [OF assms(1)] by simp
  from blit_of_chunk [OF this assms(3)] show ?thesis
    using blit_concat_blocks [OF assms(1,2), of "blit (xs ! i) off ys"] block_of_concat [OF assms(1,2)]
      assms by (simp add: blit_def)
qed

section \<open>Byte orders: round trips\<close>

lemma length_put_le [simp]: "length (put_le n w) = n"
  by (induction n arbitrary: w) auto

lemma length_put_be [simp]: "length (put_be n w) = n"
  by (simp add: put_be_def)

lemma get_le_put_le: "get_le (put_le n (w :: 'a::len word)) = take_bit (8 * n) w"
proof (induction n arbitrary: w)
  case 0
  then show ?case by simp
next
  case (Suc n)
  show ?case
    by (rule bit_word_eqI) (auto simp: Suc.IH bit_simps not_less)
qed

lemma put_le_get_le:
  "8 * length bs \<le> LENGTH('a) \<Longrightarrow> put_le (length bs) (get_le bs :: 'a::len word) = bs"
proof (induction bs)
  case Nil
  then show ?case by simp
next
  case (Cons b bs)
  have lo: "ucast (ucast b OR push_bit 8 (get_le bs :: 'a word)) = b"
    using Cons.prems by (intro bit_word_eqI) (auto simp: bit_simps)
  have len: "8 * length bs \<le> LENGTH('a)"
    using Cons.prems by simp
  have tb: "take_bit (8 * length bs) (get_le bs :: 'a word) = get_le bs"
    using get_le_put_le [of "length bs" "get_le bs :: 'a word"] Cons.IH [OF len] by simp
  have nb: "\<not> bit (get_le bs :: 'a word) n" if "8 * length bs \<le> n" for n
    using tb that by (metis bit_take_bit_iff not_le)
  have hi: "drop_bit 8 (ucast b OR push_bit 8 (get_le bs :: 'a word)) = get_le bs"
    using Cons.prems nb by (intro bit_word_eqI) (auto simp: bit_simps dest: bit_imp_le_length)
  show ?case
    by (simp only: list.size add_0_right add_Suc_right put_le.simps get_le.simps lo hi Cons.IH [OF len])
qed

lemma get_be_put_be: "get_be (put_be n (w :: 'a::len word)) = take_bit (8 * n) w"
  by (simp add: get_be_def put_be_def get_le_put_le)

lemma put_be_get_be:
  "8 * length bs \<le> LENGTH('a) \<Longrightarrow> put_be (length bs) (get_be bs :: 'a::len word) = bs"
  using put_le_get_le [of "rev bs", where 'a = 'a] by (simp add: get_be_def put_be_def)

lemma get_le_put_le_u64 [simp]: "get_le (put_le 8 (w :: u64)) = w"
  by (simp add: get_le_put_le take_bit_word_eq_self)

lemma uint_less_int_iff: "uint w < int n \<longleftrightarrow> unat w < n"
  by (simp flip: of_nat_less_iff [where 'a = int])

end
