(* ===== verification/Zeros.thy ===== *)
theory Zeros
  imports Prelude "HOL-Library.While_Combinator"
begin

text \<open>
  The zero-block helpers of \<^verbatim>\<open>src/pkg/util/zeros.go\<close>: \<open>IsZeros\<close>, which reads the slice eight
  bytes at a time through an unsafe cast, and \<open>ZeroFill\<close>, which doubles a zeroed prefix.
  Both are shown to agree with their one-line meaning.
\<close>

section \<open>Definitions\<close>

definition maxAlignedMagic :: int where
  "maxAlignedMagic = 0xFFFFFFF8"

text \<open>The first \<open>n\<close> eight-byte words of a slice, as the cast to \<^verbatim>\<open>[]uint64\<close> sees them on a
  little-endian machine.\<close>

fun longs :: "nat \<Rightarrow> bytes \<Rightarrow> u64 list" where
  "longs 0 bs = []"
| "longs (Suc n) bs = get_le (take 8 bs) # longs n (drop 8 bs)"

text \<open>A range loop that returns as soon as it meets a non-zero element.\<close>

fun scan_zero :: "'a::zero list \<Rightarrow> bool" where
  "scan_zero [] = True"
| "scan_zero (x # xs) = (if x \<noteq> 0 then False else scan_zero xs)"

definition IsZeros :: "bytes \<Rightarrow> bool" where
  "IsZeros block =
     (let alignedCount = nat ((int (length block) AND maxAlignedMagic) div 8) in
      if 0 < alignedCount
      then (if \<not> scan_zero (longs alignedCount block) then False
            else scan_zero (drop (alignedCount * 8) block))
      else scan_zero block)"

text \<open>
  \<open>ZeroFill\<close> returns the new contents of the slice; \<^const>\<open>None\<close> would be a loop that does not
  end. The shift \<^verbatim>\<open>i <<= 1\<close> is a doubling: a Go slice is shorter than \<open>2 ^ 48\<close> bytes, so the
  counter does not wrap.
\<close>

definition ZeroFill :: "bytes \<Rightarrow> bytes option" where
  "ZeroFill block =
     (if length block < 1 then Some block
      else map_option snd
        (while_option (\<lambda>(i, b). i < length b)
           (\<lambda>(i, b). (2 * i, take i b @ go_copy (drop i b) (take i b)))
           (1, block[0 := 0])))"

section \<open>Correctness\<close>

lemma scan_zero_iff: "scan_zero xs \<longleftrightarrow> (\<forall>x \<in> set xs. x = 0)"
  by (induction xs) auto

lemma get_le_eq_0_iff:
  assumes "8 * length bs \<le> LENGTH('a)"
  shows "(get_le bs :: 'a::len word) = 0 \<longleftrightarrow> (\<forall>b \<in> set bs. b = 0)"
proof
  assume "(get_le bs :: 'a word) = 0"
  then have "bs = put_le (length bs) (0 :: 'a word)"
    using put_le_get_le [OF assms] by simp
  moreover have "put_le n (0 :: 'a word) = replicate n 0" for n
    by (induction n) auto
  ultimately have "bs = replicate (length bs) 0" by simp
  then show "\<forall>b \<in> set bs. b = 0"
    by (metis in_set_replicate)
next
  assume "\<forall>b \<in> set bs. b = 0"
  then show "(get_le bs :: 'a word) = 0" by (induction bs) auto
qed

lemma scan_longs: "8 * n \<le> length bs \<Longrightarrow> scan_zero (longs n bs) \<longleftrightarrow> (\<forall>b \<in> set (take (8 * n) bs). b = 0)"
proof (induction n arbitrary: bs)
  case 0
  then show ?case by simp
next
  case (Suc n)
  have "take (8 * Suc n) bs = take 8 bs @ take (8 * n) (drop 8 bs)"
    by (simp add: take_add)
  moreover have "(get_le (take 8 bs) :: u64) = 0 \<longleftrightarrow> (\<forall>b \<in> set (take 8 bs). b = 0)"
    by (rule get_le_eq_0_iff) simp
  ultimately show ?case
    using Suc.IH [of "drop 8 bs"] Suc.prems by (auto simp del: set_take_subset)
qed

lemma aligned_le: "8 * nat ((int n AND maxAlignedMagic) div 8) \<le> n"
proof -
  have "int n AND maxAlignedMagic \<le> int n"
    by (rule AND_upper1) simp
  then show ?thesis by linarith
qed

lemma IsZeros_iff: "IsZeros block \<longleftrightarrow> (\<forall>b \<in> set block. b = 0)"
proof -
  define n where "n = nat ((int (length block) AND maxAlignedMagic) div 8)"
  have le: "8 * n \<le> length block"
    using aligned_le by (simp add: n_def)
  have "IsZeros block \<longleftrightarrow> (if 0 < n then scan_zero (longs n block) \<and> scan_zero (drop (8 * n) block)
      else scan_zero block)"
    by (simp add: IsZeros_def n_def [symmetric] Let_def mult.commute)
  also have "\<dots> \<longleftrightarrow> (\<forall>b \<in> set (take (8 * n) block) \<union> set (drop (8 * n) block). b = 0)"
    using scan_longs [OF le] by (auto simp: scan_zero_iff)
  also have "set (take (8 * n) block) \<union> set (drop (8 * n) block) = set block"
    by (metis append_take_drop_id set_append)
  finally show ?thesis .
qed

lemma IsZeros_zeros: "IsZeros block \<longleftrightarrow> block = zeros (length block)"
  by (metis IsZeros_iff in_set_replicate replicate_length_same)

text \<open>One round of the doubling loop extends the zeroed prefix.\<close>

lemma zero_prefix_step:
  assumes "take i b = zeros i" "i < length b"
  shows "take (2 * i) (take i b @ go_copy (drop i b) (take i b)) = zeros (min (2 * i) (length b))"
    and "length (take i b @ go_copy (drop i b) (take i b)) = length b"
  using assms by (auto simp: go_copy_def min_def simp flip: replicate_add)

lemma ZeroFill_total: "ZeroFill block = Some (zeros (length block))"
proof (cases block)
  case Nil
  then show ?thesis by (simp add: ZeroFill_def)
next
  case (Cons x xs)
  define inv where "inv = (\<lambda>(i, b). 0 < i \<and> length b = length block \<and>
    take i b = zeros (min i (length block)))"
  define body where "body = (\<lambda>(i, b :: bytes). (2 * i, take i b @ go_copy (drop i b) (take i b)))"
  have step: "inv (body s)" if "inv s" "(\<lambda>(i, b). i < length b) s" for s
    using that zero_prefix_step [of "fst s" "snd s"]
    by (auto simp: inv_def body_def split: prod.splits)
  have init: "inv (1, block[0 := 0])"
    by (simp add: inv_def Cons)
  have dec: "(\<lambda>(i, b). length b - i) (body s) < (\<lambda>(i, b). length b - i) s"
    if "inv s" "(\<lambda>(i, b). i < length b) s" for s
    using that by (auto simp: inv_def body_def split: prod.splits)
  obtain s where s: "while_option (\<lambda>(i, b). i < length b) body (1, block[0 := 0]) = Some s"
    using measure_while_option_Some [where P = inv and c = body and s = "(1, block[0 := 0])" and
        b = "\<lambda>(i, b). i < length b" and f = "\<lambda>(i, b). length b - i"] step dec init by blast
  have "inv s"
    using while_option_rule [where P = inv, OF step s init] by simp
  moreover have "\<not> (\<lambda>(i, b). i < length b) s"
    using while_option_stop [OF s] .
  ultimately have "snd s = zeros (length block)"
    by (auto simp: inv_def min_def split: prod.splits)
  then show ?thesis
    using s by (simp add: ZeroFill_def body_def Cons)
qed

section \<open>The eight-byte view\<close>

lemma length_longs [simp]: "length (longs n xs) = n"
  by (induction n arbitrary: xs) auto

lemma nth_longs: "k < n \<Longrightarrow> longs n xs ! k = get_le (chunk xs (8 * k) 8)"
proof (induction n arbitrary: xs k)
  case (Suc n)
  then show ?case by (cases k) (auto simp: chunk_def add.commute)
qed simp

text \<open>Storing through the view changes one element.\<close>

lemma longs_store:
  assumes "k < n" "8 * n \<le> length xs"
  shows "longs n (blit xs (8 * k) (put_le 8 w)) = (longs n xs)[k := w]"
proof (rule nth_equalityI)
  fix i
  assume "i < length (longs n (blit xs (8 * k) (put_le 8 w)))"
  then have i: "i < n" by simp
  have "chunk (blit xs (8 * k) (put_le 8 w)) (8 * k) 8 = put_le 8 w"
    using chunk_blit_same [of "8 * k" "put_le 8 w" xs] assms by simp
  moreover have "chunk (blit xs (8 * k) (put_le 8 w)) (8 * i) 8 = chunk xs (8 * i) 8" if "i \<noteq> k"
    by (rule chunk_blit_disjoint) (use assms i that in auto)
  ultimately show "longs n (blit xs (8 * k) (put_le 8 w)) ! i = (longs n xs)[k := w] ! i"
    using i assms(1) by (cases "i = k") (auto simp: nth_longs)
qed simp

lemma longs_concat: "longs (length ws) (concat (map (put_le 8) ws)) = ws"
  by (induction ws) auto

section \<open>Properties\<close>

text \<open>
  C36: the optimised helpers agree with the obvious definitions on every slice: the word-wise scan answers
  whether all bytes are zero, and the doubling copy ends and zeroes the whole slice.
\<close>

theorem zero_helpers_correct:
  "(IsZeros block \<longleftrightarrow> list_all (\<lambda>b. b = 0) block) \<and> ZeroFill block = Some (map (\<lambda>_. 0) block)"
  by (simp add: IsZeros_iff ZeroFill_total list_all_iff map_replicate_const)

end
