(* ===== verification/OsFile.thy ===== *)
theory OsFile
  imports Prelude
begin

text \<open>
  What usbd uses of the Go standard library's files: \<^verbatim>\<open>os.File\<close> (\<open>ReadAt\<close>, \<open>WriteAt\<close>,
  \<open>Write\<close>, \<open>Seek\<close>, \<open>Sync\<close>, \<open>Close\<close>) and \<^verbatim>\<open>bufio.Writer\<close>.
  The operating system can refuse a call: reads and syncs are refused when their flag is set,
  and writes when the number of bytes the system still accepts, \<open>fbudget\<close>, is used up.
  A file that is open and whose calls are never refused is \<open>healthy\<close>.
\<close>

section \<open>Files\<close>

record osfile =
  fdata :: bytes
  fpos :: nat
  fclosed :: bool
  frderr :: bool
  fsyncerr :: bool
  fcloseerr :: bool
  fbudget :: "nat option"

definition new_file :: "bytes \<Rightarrow> osfile" where
  "new_file bs = \<lparr>fdata = bs, fpos = 0, fclosed = False, frderr = False, fsyncerr = False,
     fcloseerr = False, fbudget = None\<rparr>"

definition healthy :: "osfile \<Rightarrow> bool" where
  "healthy f \<longleftrightarrow> \<not> fclosed f \<and> \<not> frderr f \<and> \<not> fsyncerr f \<and> \<not> fcloseerr f \<and> fbudget f = None"

text \<open>Storing past the end leaves a hole of zeros.\<close>

definition store :: "bytes \<Rightarrow> nat \<Rightarrow> bytes \<Rightarrow> bytes" where
  "store xs off ys =
     (if ys = [] then xs
      else take off (xs @ zeros (off - length xs)) @ ys @ drop (off + length ys) xs)"

text \<open>
  \<^verbatim>\<open>ReadAt\<close>: the number of bytes read, the error, the new contents of the buffer. A read that
  the end of the file cuts short is an \<open>EOF\<close>.
\<close>

definition file_ReadAt :: "osfile \<Rightarrow> bytes \<Rightarrow> i64 \<Rightarrow> int \<times> goerr option \<times> bytes" where
  "file_ReadAt f buf off =
     (if off < 0 then (0, Some OsNegOffset, buf)
      else if buf = [] then (0, None, buf)
      else if fclosed f then (0, Some OsClosed, buf)
      else if frderr f then (0, Some (OsFault ''read''), buf)
      else let got = chunk (fdata f) (nat off) (length buf) in
        (int (length got),
         if length got < length buf then Some EOF else None,
         blit buf 0 got))"

text \<open>The part of a write that the system accepts, and the budget that is left.\<close>

definition accept :: "osfile \<Rightarrow> bytes \<Rightarrow> bytes \<times> nat option" where
  "accept f buf =
     (case fbudget f of None \<Rightarrow> (buf, None)
      | Some k \<Rightarrow> (take k buf, Some (k - length buf)))"

definition file_WriteAt :: "osfile \<Rightarrow> bytes \<Rightarrow> i64 \<Rightarrow> int \<times> goerr option \<times> osfile" where
  "file_WriteAt f buf off =
     (if off < 0 then (0, Some OsNegOffset, f)
      else if buf = [] then (0, None, f)
      else if fclosed f then (0, Some OsClosed, f)
      else let (acc, b') = accept f buf in
        (int (length acc),
         if length acc < length buf then Some (OsFault ''write'') else None,
         f\<lparr>fdata := store (fdata f) (nat off) acc, fbudget := b'\<rparr>))"

definition file_Write :: "osfile \<Rightarrow> bytes \<Rightarrow> int \<times> goerr option \<times> osfile" where
  "file_Write f buf =
     (let (n, err, f') = file_WriteAt f buf (int (fpos f)) in
      (n, err, f'\<lparr>fpos := fpos f' + nat n\<rparr>))"

text \<open>\<^verbatim>\<open>Seek(off, os.SEEK_CUR)\<close> forwards.\<close>

definition file_SeekCur :: "osfile \<Rightarrow> nat \<Rightarrow> goerr option \<times> osfile" where
  "file_SeekCur f off =
     (if fclosed f then (Some OsClosed, f) else (None, f\<lparr>fpos := fpos f + off\<rparr>))"

definition file_Sync :: "osfile \<Rightarrow> goerr option" where
  "file_Sync f =
     (if fclosed f then Some OsClosed
      else if fsyncerr f then Some (OsFault ''sync'') else None)"

definition file_Close :: "osfile \<Rightarrow> goerr option \<times> osfile" where
  "file_Close f =
     (if fclosed f then (Some OsClosed, f)
      else (if fcloseerr f then Some (OsFault ''close'') else None, f\<lparr>fclosed := True\<rparr>))"

section \<open>Buffered writers\<close>

text \<open>\<^verbatim>\<open>bufio.NewWriter\<close>: a buffer of 4096 bytes over a file, with a sticky error.\<close>

record bufw =
  bw_file :: osfile
  bw_buf :: bytes
  bw_err :: "goerr option"

definition bufioSize :: nat where
  "bufioSize = 4096"

definition bw_new :: "osfile \<Rightarrow> bufw" where
  "bw_new f = \<lparr>bw_file = f, bw_buf = [], bw_err = None\<rparr>"

definition bw_Flush :: "bufw \<Rightarrow> goerr option \<times> bufw" where
  "bw_Flush w =
     (if bw_err w \<noteq> None then (bw_err w, w)
      else if bw_buf w = [] then (None, w)
      else let (n, err, f') = file_Write (bw_file w) (bw_buf w) in
        (err, w\<lparr>bw_file := f', bw_buf := drop (nat n) (bw_buf w), bw_err := err\<rparr>))"

definition bw_WriteByte :: "bufw \<Rightarrow> byte \<Rightarrow> goerr option \<times> bufw" where
  "bw_WriteByte w c =
     (if bw_err w \<noteq> None then (bw_err w, w)
      else if bufioSize \<le> length (bw_buf w)
      then (case bw_Flush w of
              (Some e, w') \<Rightarrow> (Some e, w')
            | (None, w') \<Rightarrow> (None, w'\<lparr>bw_buf := bw_buf w' @ [c]\<rparr>))
      else (None, w\<lparr>bw_buf := bw_buf w @ [c]\<rparr>))"

text \<open>A loop of single-byte writes that stops at the first error.\<close>

fun bw_WriteBytes :: "bufw \<Rightarrow> bytes \<Rightarrow> goerr option \<times> bufw" where
  "bw_WriteBytes w [] = (None, w)"
| "bw_WriteBytes w (c # cs) =
     (case bw_WriteByte w c of
        (Some e, w') \<Rightarrow> (Some e, w')
      | (None, w') \<Rightarrow> bw_WriteBytes w' cs)"

section \<open>Facts about files\<close>

named_theorems file_simps \<open>behaviour of healthy files\<close>

lemma healthy_new [simp]: "healthy (new_file bs)"
  by (simp add: healthy_def new_file_def)

lemma fdata_new [simp]: "fdata (new_file bs) = bs" "fpos (new_file bs) = 0"
  by (simp_all add: new_file_def)

lemma healthy_update [simp]:
  "healthy (f\<lparr>fdata := d\<rparr>) = healthy f"
  "healthy (f\<lparr>fpos := p\<rparr>) = healthy f"
  by (simp_all add: healthy_def)

lemma store_nil [simp]: "store xs off [] = xs"
  by (simp add: store_def)

lemma store_blit: "off + length ys \<le> length xs \<Longrightarrow> store xs off ys = blit xs off ys"
  by (cases "ys = []") (auto simp: store_def blit_def)

lemma length_store: "ys \<noteq> [] \<Longrightarrow> length (store xs off ys) = max (length xs) (off + length ys)"
  by (auto simp: store_def)

lemma store_append: "store xs (length xs) ys = xs @ ys"
  by (simp add: store_def)

lemma store_hole:
  "length xs \<le> off \<Longrightarrow> ys \<noteq> [] \<Longrightarrow> store xs off ys = xs @ zeros (off - length xs) @ ys"
  by (simp add: store_def)

lemma nth_store:
  "ys \<noteq> [] \<Longrightarrow> k < max (length xs) (off + length ys) \<Longrightarrow>
   store xs off ys ! k =
     (if off \<le> k \<and> k < off + length ys then ys ! (k - off)
      else if k < length xs then xs ! k else 0)"
  by (auto simp: store_def nth_append min_def max_def split: if_splits)

lemma chunk_store_same: "chunk (store xs off ys) off (length ys) = ys"
  by (cases "ys = []") (auto simp: store_def chunk_def)

lemma chunk_store_disjoint:
  assumes "off' + n \<le> length xs" "off' + n \<le> off \<or> off + length ys \<le> off'"
  shows "chunk (store xs off ys) off' n = chunk xs off' n"
proof (cases "ys = []")
  case False
  show ?thesis
    by (rule nth_equalityI) (use assms False in \<open>auto simp: length_store nth_store\<close>)
qed simp

lemma file_ReadAt_in [file_simps]:
  assumes "healthy f" "0 \<le> off" "off + int (length buf) \<le> int (length (fdata f))"
  shows "file_ReadAt f buf off =
    (int (length buf), None, chunk (fdata f) (nat off) (length buf))"
  using assms by (auto simp: file_ReadAt_def healthy_def Let_def blit_def min_def chunk_def)

lemma file_ReadAt_past_end [file_simps]:
  assumes "healthy f" "int (length (fdata f)) \<le> off" "buf \<noteq> []"
  shows "file_ReadAt f buf off = (0, Some EOF, buf)"
  using assms by (auto simp: file_ReadAt_def healthy_def Let_def chunk_def)

lemma file_WriteAt_healthy [file_simps]:
  assumes "healthy f" "0 \<le> off"
  shows "file_WriteAt f buf off =
    (int (length buf), None, f\<lparr>fdata := store (fdata f) (nat off) buf\<rparr>)"
  using assms by (auto simp: file_WriteAt_def healthy_def accept_def)

lemma file_Write_healthy [file_simps]:
  "healthy f \<Longrightarrow> file_Write f buf =
    (int (length buf), None,
     f\<lparr>fdata := store (fdata f) (fpos f) buf, fpos := fpos f + length buf\<rparr>)"
  by (simp add: file_Write_def file_WriteAt_healthy)

lemma file_Sync_healthy [file_simps]: "healthy f \<Longrightarrow> file_Sync f = None"
  by (simp add: file_Sync_def healthy_def)

lemma file_SeekCur_healthy [file_simps]:
  "healthy f \<Longrightarrow> file_SeekCur f off = (None, f\<lparr>fpos := fpos f + off\<rparr>)"
  by (simp add: file_SeekCur_def healthy_def)

lemma file_WriteAt_count: "fst (file_WriteAt f buf off) = int n \<Longrightarrow> n \<le> length buf"
  by (auto simp: file_WriteAt_def accept_def split: if_splits prod.splits option.splits)

section \<open>Facts about buffered writers\<close>

text \<open>
  A writer that has not failed stands for the bytes on disk up to the file position followed by
  the bytes still buffered. Over a healthy file whose position is at the end, every byte
  written is appended to that content.
\<close>

definition bw_content :: "bufw \<Rightarrow> bytes" where
  "bw_content w = fdata (bw_file w) @ bw_buf w"

definition bw_ok :: "bufw \<Rightarrow> bool" where
  "bw_ok w \<longleftrightarrow> bw_err w = None \<and> healthy (bw_file w) \<and> fpos (bw_file w) = length (fdata (bw_file w))"

lemma bw_ok_new: "healthy f \<Longrightarrow> fpos f = length (fdata f) \<Longrightarrow> bw_ok (bw_new f)"
  and bw_content_new: "bw_content (bw_new f) = fdata f"
  by (simp_all add: bw_ok_def bw_new_def bw_content_def)

lemma bw_Flush_ok:
  assumes "bw_ok w"
  obtains w' where "bw_Flush w = (None, w')" "bw_ok w'" "bw_content w' = bw_content w" "bw_buf w' = []"
    "fdata (bw_file w') = bw_content w"
proof (cases "bw_buf w = []")
  case True
  with assms show ?thesis
    by (intro that [of w]) (auto simp: bw_Flush_def bw_ok_def bw_content_def)
next
  case False
  with assms show ?thesis
    by (intro that [of "snd (bw_Flush w)"])
      (simp_all add: bw_Flush_def bw_ok_def bw_content_def file_Write_healthy store_append)
qed

lemma bw_WriteByte_ok:
  assumes "bw_ok w"
  obtains w' where "bw_WriteByte w c = (None, w')" "bw_ok w'" "bw_content w' = bw_content w @ [c]"
proof (cases "bufioSize \<le> length (bw_buf w)")
  case True
  obtain w' where w': "bw_Flush w = (None, w')" "bw_ok w'" "bw_content w' = bw_content w"
    using bw_Flush_ok [OF assms] by metis
  then show ?thesis
    using True assms that [of "w'\<lparr>bw_buf := bw_buf w' @ [c]\<rparr>"]
    by (auto simp: bw_WriteByte_def bw_ok_def bw_content_def)
next
  case False
  then show ?thesis
    using assms that [of "w\<lparr>bw_buf := bw_buf w @ [c]\<rparr>"]
    by (auto simp: bw_WriteByte_def bw_ok_def bw_content_def)
qed

lemma bw_WriteBytes_ok:
  assumes "bw_ok w"
  obtains w' where "bw_WriteBytes w cs = (None, w')" "bw_ok w'" "bw_content w' = bw_content w @ cs"
  using assms
proof (induction cs arbitrary: w thesis)
  case Nil
  then show ?case by simp
next
  case (Cons c cs)
  obtain w1 where w1: "bw_WriteByte w c = (None, w1)" "bw_ok w1" "bw_content w1 = bw_content w @ [c]"
    using bw_WriteByte_ok [OF Cons.prems(2)] by metis
  show ?case
    by (rule Cons.IH [OF _ w1(2)]) (use w1 Cons.prems(1) in \<open>auto\<close>)
qed

end
