(* ===== verification/Device.thy ===== *)
theory Device
  imports Prelude
begin

text \<open>
  The \<^verbatim>\<open>Device\<close> interface of \<^verbatim>\<open>src/pkg/usbdlib/dev.go\<close> and the contract its implementations
  promise the request processor. An implementation is a record of operations on a state type;
  reads change the state too (a caching device loads data).
  The locale \<open>block_device\<close> states the contract: in its invariant states a device is a flat
  byte array of fixed size, \<open>content\<close>, that block-aligned requests read and overwrite. Every
  device of the program interprets it, and its clients (the request processor) are verified
  against it once.
\<close>

section \<open>The interface\<close>

record 'd dev_ops =
  dev_Size :: "'d \<Rightarrow> i64"
  dev_BlockSize :: "'d \<Rightarrow> i64"
  dev_ReadAt :: "'d \<Rightarrow> bytes \<Rightarrow> i64 \<Rightarrow> (int \<times> goerr option \<times> bytes \<times> 'd) go"
  dev_WriteAt :: "'d \<Rightarrow> bytes \<Rightarrow> i64 \<Rightarrow> (int \<times> goerr option \<times> 'd) go"
  dev_Trim :: "'d \<Rightarrow> i64 \<Rightarrow> int \<Rightarrow> (goerr option \<times> 'd) go"
  dev_Flush :: "'d \<Rightarrow> (goerr option \<times> 'd) go"
  dev_Close :: "'d \<Rightarrow> (goerr option \<times> 'd) go"

text \<open>\<^verbatim>\<open>DefaultBlockSizeBytes\<close>, which every device embeds.\<close>

definition DefaultBlockSizeBytes :: i64 where
  "DefaultBlockSizeBytes = 4096"

text \<open>A request of \<open>n\<close> bytes at \<open>pos\<close> that covers whole blocks of the device.\<close>

definition whole_blocks :: "i64 \<Rightarrow> nat \<Rightarrow> i64 \<Rightarrow> nat \<Rightarrow> bool" where
  "whole_blocks bsz sz pos n \<longleftrightarrow>
     0 \<le> pos \<and> 0 < n \<and> bsz dvd pos \<and> bsz dvd int n \<and> pos + int n \<le> int sz"

lemma whole_blocks_nat: "whole_blocks bsz sz pos n \<Longrightarrow> nat pos + n \<le> sz"
  by (simp add: whole_blocks_def) linarith

section \<open>The contract\<close>

text \<open>
  \<open>takes\<close> says which writes the provider stores: every one for most devices, and for the
  object store the writes its zero shortcut does not swallow.
\<close>

locale block_device =
  fixes ops :: "'d dev_ops"
    and inv :: "'d \<Rightarrow> bool"
    and content :: "'d \<Rightarrow> bytes"
    and takes :: "'d \<Rightarrow> bytes \<Rightarrow> i64 \<Rightarrow> bool"
  assumes block_size: "inv d \<Longrightarrow> dev_BlockSize ops d = DefaultBlockSizeBytes"
    and size: "inv d \<Longrightarrow> dev_Size ops d = int (length (content d))"
    and content_bound: "inv d \<Longrightarrow> int (length (content d)) < 2 ^ 63"
    and read_law: "inv d \<Longrightarrow> whole_blocks DefaultBlockSizeBytes (length (content d)) pos (length buf) \<Longrightarrow>
      \<exists>d'. dev_ReadAt ops d buf pos =
             Ret (int (length buf), None, chunk (content d) (nat pos) (length buf), d')
           \<and> inv d' \<and> content d' = content d"
    and write_law: "inv d \<Longrightarrow> whole_blocks DefaultBlockSizeBytes (length (content d)) pos (length buf) \<Longrightarrow>
      takes d buf pos \<Longrightarrow>
      \<exists>d'. dev_WriteAt ops d buf pos = Ret (int (length buf), None, d')
           \<and> inv d' \<and> content d' = blit (content d) (nat pos) buf"
    and trim_law: "inv d \<Longrightarrow> \<exists>d'. dev_Trim ops d pos n = Ret (None, d') \<and> inv d' \<and> content d' = content d"
    and flush_law: "inv d \<Longrightarrow> \<exists>d'. dev_Flush ops d = Ret (None, d') \<and> inv d' \<and> content d' = content d"
begin

lemma length_after_write:
  "whole_blocks DefaultBlockSizeBytes (length (content d)) pos (length buf) \<Longrightarrow>
   length (blit (content d) (nat pos) buf) = length (content d)"
  by (rule length_blit) (rule whole_blocks_nat)

text \<open>What was written is read back, also when the read and the write are different requests
  on different states, and bytes outside the write keep their value.\<close>

lemma read_after_write:
  assumes "inv d" "whole_blocks DefaultBlockSizeBytes (length (content d)) pos (length buf)" "takes d buf pos"
    and "length buf' = length buf"
  obtains d1 d2 where "dev_WriteAt ops d buf pos = Ret (int (length buf), None, d1)"
    "dev_ReadAt ops d1 buf' pos = Ret (int (length buf), None, buf, d2)"
    "inv d2" "content d2 = blit (content d) (nat pos) buf"
proof -
  obtain d1 where d1: "dev_WriteAt ops d buf pos = Ret (int (length buf), None, d1)" "inv d1"
    "content d1 = blit (content d) (nat pos) buf"
    using write_law [OF assms(1,2,3)] by blast
  have "whole_blocks DefaultBlockSizeBytes (length (content d1)) pos (length buf')"
    using assms(2,4) length_after_write [OF assms(2)] by (simp add: whole_blocks_def d1(3))
  then obtain d2 where d2: "dev_ReadAt ops d1 buf' pos =
      Ret (int (length buf'), None, chunk (content d1) (nat pos) (length buf'), d2)"
    "inv d2" "content d2 = content d1"
    using read_law [OF d1(2)] by blast
  have "chunk (content d1) (nat pos) (length buf') = buf"
    using assms(4) whole_blocks_nat [OF assms(2)] by (simp add: d1(3) chunk_blit_same)
  with d1 d2 assms(4) show ?thesis by (intro that [of d1 d2]) auto
qed

lemma read_elsewhere_after_write:
  assumes "inv d" "whole_blocks DefaultBlockSizeBytes (length (content d)) pos (length buf)" "takes d buf pos"
    and "whole_blocks DefaultBlockSizeBytes (length (content d)) pos' (length buf')"
    and "pos' + int (length buf') \<le> pos \<or> pos + int (length buf) \<le> pos'"
  obtains d1 d2 where "dev_WriteAt ops d buf pos = Ret (int (length buf), None, d1)"
    "dev_ReadAt ops d1 buf' pos' =
      Ret (int (length buf'), None, chunk (content d) (nat pos') (length buf'), d2)"
proof -
  obtain d1 where d1: "dev_WriteAt ops d buf pos = Ret (int (length buf), None, d1)" "inv d1"
    "content d1 = blit (content d) (nat pos) buf"
    using write_law [OF assms(1,2,3)] by blast
  have "whole_blocks DefaultBlockSizeBytes (length (content d1)) pos' (length buf')"
    using assms(4) length_after_write [OF assms(2)] by (simp add: whole_blocks_def d1(3))
  then obtain d2 where d2: "dev_ReadAt ops d1 buf' pos' =
      Ret (int (length buf'), None, chunk (content d1) (nat pos') (length buf'), d2)"
    using read_law [OF d1(2)] by blast
  have "chunk (content d1) (nat pos') (length buf') = chunk (content d) (nat pos') (length buf')"
    unfolding d1(3)
    by (rule chunk_blit_disjoint) (use assms(2,4,5) in \<open>auto simp: whole_blocks_def nat_le_iff\<close>)
  with d1 d2 show ?thesis by (intro that) auto
qed

end

text \<open>
  The devices that keep their bytes as they are promise more: every range of bytes can be read and written, a read that
  starts at the end is an \<open>EOF\<close>, closing succeeds, and a closed device refuses reads, writes and flushes.
\<close>

locale byte_device = block_device ops inv content "\<lambda>_ _ _. True"
  for ops :: "'d dev_ops" and inv :: "'d \<Rightarrow> bool" and content :: "'d \<Rightarrow> bytes" +
  fixes closed :: "'d \<Rightarrow> bool"
  assumes read_bytes: "inv d \<Longrightarrow> 0 \<le> pos \<Longrightarrow> buf \<noteq> [] \<Longrightarrow> pos + int (length buf) \<le> int (length (content d)) \<Longrightarrow>
      \<exists>d'. dev_ReadAt ops d buf pos =
             Ret (int (length buf), None, chunk (content d) (nat pos) (length buf), d')
           \<and> inv d' \<and> content d' = content d"
    and read_end: "inv d \<Longrightarrow> buf \<noteq> [] \<Longrightarrow> int (length (content d)) + int (length buf) < 2 ^ 63 \<Longrightarrow>
      \<exists>d'. dev_ReadAt ops d buf (int (length (content d))) = Ret (0, Some EOF, buf, d')
           \<and> inv d' \<and> content d' = content d"
    and write_bytes: "inv d \<Longrightarrow> 0 \<le> pos \<Longrightarrow> buf \<noteq> [] \<Longrightarrow> pos + int (length buf) \<le> int (length (content d)) \<Longrightarrow>
      \<exists>d'. dev_WriteAt ops d buf pos = Ret (int (length buf), None, d')
           \<and> inv d' \<and> content d' = blit (content d) (nat pos) buf"
    and close_law: "inv d \<Longrightarrow> \<exists>d'. dev_Close ops d = Ret (None, d') \<and> closed d'"
    and closed_read: "closed d \<Longrightarrow> buf \<noteq> [] \<Longrightarrow> \<exists>err. dev_ReadAt ops d buf 0 = Ret (0, Some err, buf, d)"
    and closed_write: "closed d \<Longrightarrow> buf \<noteq> [] \<Longrightarrow> \<exists>err. dev_WriteAt ops d buf 0 = Ret (0, Some err, d)"
    and closed_flush: "closed d \<Longrightarrow> \<exists>err. dev_Flush ops d = Ret (Some err, d)"

end
