(* ===== verification/Nbd_Wire.thy ===== *)
theory Nbd_Wire
  imports Prelude
begin

text \<open>
  The NBD wire format of \<^verbatim>\<open>src/pkg/usbdlib/req.go\<close>, \<^verbatim>\<open>resp.go\<close> and \<^verbatim>\<open>nbdutil_linux.go\<close>:
  decoding of requests from the command stream and encoding of replies onto it.
  Requests and replies are pooled by the program and keep their buffers, so both are records
  that an operation updates. The numbers taken from the kernel header \<^verbatim>\<open>linux/nbd.h\<close> are those
  of the protocol description the sources link to.
\<close>

section \<open>Protocol constants\<close>

definition nbdRead :: u32 where "nbdRead = 0"
definition nbdWrite :: u32 where "nbdWrite = 1"
definition nbdDisconnect :: u32 where "nbdDisconnect = 2"
definition nbdFlush :: u32 where "nbdFlush = 3"
definition nbdTrim :: u32 where "nbdTrim = 4"

lemmas nbd_cmd_defs = nbdRead_def nbdWrite_def nbdDisconnect_def nbdFlush_def nbdTrim_def

type_synonym nbdErr = u32

definition nbdRespSuccess :: nbdErr where "nbdRespSuccess = 0"
definition ndbRespErrIO :: nbdErr where "ndbRespErrIO = 5"
definition ndbRespErrInvalid :: nbdErr where "ndbRespErrInvalid = 22"

lemmas nbd_err_defs = nbdRespSuccess_def ndbRespErrIO_def ndbRespErrInvalid_def

definition ndbReqBytes :: nat where "ndbReqBytes = 28"
definition ndbHandleLen :: nat where "ndbHandleLen = 8"

definition NBD_REQUEST_MAGIC :: u32 where "NBD_REQUEST_MAGIC = 0x25609513"
definition NBD_REPLY_MAGIC :: u32 where "NBD_REPLY_MAGIC = 0x67446698"

text \<open>\<^verbatim>\<open>htonl\<close> on a little-endian host; the program compares the magic it reads in
  little-endian order with the swapped number.\<close>

definition htonl :: "u32 \<Rightarrow> u32" where
  "htonl w = get_le (put_be 4 w)"

definition nbdReqMagic :: u32 where "nbdReqMagic = htonl NBD_REQUEST_MAGIC"
definition nbdReplyMagic :: u32 where "nbdReplyMagic = htonl NBD_REPLY_MAGIC"

section \<open>Buffers and streams\<close>

text \<open>A slice that is kept between requests: its backing array and its length.\<close>

record gslice =
  sl_arr :: bytes
  sl_len :: nat

definition sl_get :: "gslice \<Rightarrow> bytes" where
  "sl_get s = take (sl_len s) (sl_arr s)"

definition sl_put :: "gslice \<Rightarrow> bytes \<Rightarrow> gslice" where
  "sl_put s bs = s\<lparr>sl_arr := blit (sl_arr s) 0 bs\<rparr>"

text \<open>\<^verbatim>\<open>io.ReadFull(strm, buf)\<close>: the error, the new contents of \<open>buf\<close>, the rest of the stream.\<close>

definition readFull :: "bytes \<Rightarrow> bytes \<Rightarrow> goerr option \<times> bytes \<times> bytes" where
  "readFull strm buf =
     (if length buf \<le> length strm
      then (None, take (length buf) strm, drop (length buf) strm)
      else (if strm = [] then Some EOF else Some UnexpectedEOF, blit buf 0 strm, []))"

text \<open>The command stream as a writer: the bytes written so far and, if the peer goes away, the
  number of bytes it still takes.\<close>

record ostrm =
  os_out :: bytes
  os_budget :: "nat option"

definition strm_Write :: "ostrm \<Rightarrow> bytes \<Rightarrow> int \<times> goerr option \<times> ostrm" where
  "strm_Write w bs =
     (case os_budget w of
        None \<Rightarrow> (int (length bs), None, w\<lparr>os_out := os_out w @ bs\<rparr>)
      | Some k \<Rightarrow> (int (min k (length bs)),
          if k < length bs then Some (OsFault ''write'') else None,
          w\<lparr>os_out := os_out w @ take k bs, os_budget := Some (k - length bs)\<rparr>))"

section \<open>Requests\<close>

record request =
  rq_rawReq :: bytes
  rq_reqType :: u32
  rq_handle :: bytes
  rq_pos :: i64
  rq_count :: int
  rq_writeBuffer :: gslice

definition newRequest :: request where
  "newRequest = \<lparr>rq_rawReq = zeros ndbReqBytes, rq_reqType = 0, rq_handle = zeros ndbHandleLen,
     rq_pos = 0, rq_count = 0, rq_writeBuffer = \<lparr>sl_arr = [], sl_len = 0\<rparr>\<rparr>"

definition getWriteBuffer :: "request \<Rightarrow> request" where
  "getWriteBuffer req =
     (if int (length (sl_arr (rq_writeBuffer req))) < rq_count req
      then req\<lparr>rq_writeBuffer := \<lparr>sl_arr = zeros (nat (rq_count req)), sl_len = nat (rq_count req)\<rparr>\<rparr>
      else req\<lparr>rq_writeBuffer := (rq_writeBuffer req)\<lparr>sl_len := nat (rq_count req)\<rparr>\<rparr>)"

text \<open>
  \<open>Decode\<close> returns its error, the updated request and the rest of the stream. The fields are
  read, in order, from the raw request by \<^verbatim>\<open>binary.Read\<close> and \<^verbatim>\<open>io.ReadFull\<close>.
\<close>

definition Decode :: "request \<Rightarrow> bytes \<Rightarrow> goerr option \<times> request \<times> bytes" where
  "Decode req strm =
    (case readFull strm (rq_rawReq req) of
       (Some e, raw, rest) \<Rightarrow>
         (Some (Wrap ''Could not read request data'' e), req\<lparr>rq_rawReq := raw\<rparr>, rest)
     | (None, raw, rest) \<Rightarrow>
    (let req = req\<lparr>rq_rawReq := raw\<rparr> in
     case readFull raw (zeros 4) of
       (Some e, _, _) \<Rightarrow> (Some e, req, rest)
     | (None, magic, rdr) \<Rightarrow>
    (if (get_le magic :: u32) \<noteq> nbdReqMagic
     then (Some (Msg ''Request did not have correct magic number''), req, rest)
     else
     case readFull rdr (zeros 4) of
       (Some e, _, _) \<Rightarrow> (Some (Wrap ''Could not decode request type'' e), req, rest)
     | (None, typ, rdr) \<Rightarrow>
    (let req = req\<lparr>rq_reqType := get_be typ\<rparr> in
     case readFull rdr (rq_handle req) of
       (Some e, h, _) \<Rightarrow>
         (Some (Wrap ''Could not read operation handle'' e), req\<lparr>rq_handle := h\<rparr>, rest)
     | (None, h, rdr) \<Rightarrow>
    (let req = req\<lparr>rq_handle := h\<rparr> in
     case readFull rdr (zeros 8) of
       (Some e, _, _) \<Rightarrow> (Some (Wrap ''Could not decode position'' e), req, rest)
     | (None, p, rdr) \<Rightarrow>
    (let req = req\<lparr>rq_pos := sint (get_be p :: u64)\<rparr> in
     case readFull rdr (zeros 4) of
       (Some e, _, _) \<Rightarrow> (Some (Wrap ''Could not decode count'' e), req, rest)
     | (None, c, _) \<Rightarrow>
    (let req = req\<lparr>rq_count := int (unat (get_be c :: u32))\<rparr> in
     if rq_reqType req = nbdWrite
     then (let req = getWriteBuffer req in
           case readFull rest (sl_get (rq_writeBuffer req)) of
             (err, bs, rest) \<Rightarrow>
               (map_option (Wrap ''Could not read data to be written'') err,
                req\<lparr>rq_writeBuffer := sl_put (rq_writeBuffer req) bs\<rparr>, rest))
     else (None, req, rest))))))))"

section \<open>Replies\<close>

text \<open>The reply buffer of a pooled response is \<^const>\<open>Some\<close>; a response made by
  \<^verbatim>\<open>new(response)\<close> has a nil one.\<close>

record response =
  rs_respBuffer :: "bytes option"
  rs_reqType :: u32
  rs_readBuffer :: gslice
  rs_errCode :: nbdErr

definition nilResponse :: response where
  "nilResponse = \<lparr>rs_respBuffer = None, rs_reqType = 0,
     rs_readBuffer = \<lparr>sl_arr = [], sl_len = 0\<rparr>, rs_errCode = 0\<rparr>"

definition newResponse :: response where
  "newResponse = nilResponse\<lparr>rs_respBuffer := Some []\<rparr>"

definition resp_Set :: "response \<Rightarrow> request \<Rightarrow> nbdErr \<Rightarrow> response go" where
  "resp_Set resp req errCode =
     (let resp = resp\<lparr>rs_reqType := rq_reqType req, rs_errCode := errCode\<rparr> in
      case rs_respBuffer resp of
        None \<Rightarrow> Panic
      | Some _ \<Rightarrow> Ret (resp\<lparr>rs_respBuffer :=
          Some (put_le 4 nbdReplyMagic @ put_be 4 errCode @ rq_handle req)\<rparr>))"

definition GetReadBuffer :: "response \<Rightarrow> request \<Rightarrow> response" where
  "GetReadBuffer resp req =
     (if int (length (sl_arr (rs_readBuffer resp))) < rq_count req
      then resp\<lparr>rs_readBuffer := \<lparr>sl_arr = zeros (nat (rq_count req)), sl_len = nat (rq_count req)\<rparr>\<rparr>
      else resp\<lparr>rs_readBuffer := (rs_readBuffer resp)\<lparr>sl_len := nat (rq_count req)\<rparr>\<rparr>)"

definition resp_Write :: "response \<Rightarrow> ostrm \<Rightarrow> (goerr option \<times> response \<times> ostrm) go" where
  "resp_Write resp strm =
     (case rs_respBuffer resp of
        None \<Rightarrow> Panic
      | Some b \<Rightarrow>
        (case strm_Write strm b of
           (n, Some e, strm) \<Rightarrow>
             Ret (Some (Wrap ''Could not write response to response stream'' e),
                  resp\<lparr>rs_respBuffer := Some (drop (nat n) b)\<rparr>, strm)
         | (n, None, strm) \<Rightarrow>
           (let resp = resp\<lparr>rs_respBuffer := Some []\<rparr> in
            if rs_reqType resp = nbdRead
            then (case strm_Write strm (sl_get (rs_readBuffer resp)) of
                    (_, err, strm) \<Rightarrow>
                      Ret (map_option (Wrap ''Could not write data read to response stream'') err,
                           resp, strm))
            else Ret (None, resp, strm))))"

section \<open>The protocol, as the kernel speaks it\<close>

text \<open>The request message and the simple reply message of the NBD protocol.\<close>

definition nbd_request_msg :: "u32 \<Rightarrow> bytes \<Rightarrow> u64 \<Rightarrow> bytes \<Rightarrow> u32 \<Rightarrow> bytes" where
  "nbd_request_msg typ h from data len =
     put_be 4 NBD_REQUEST_MAGIC @ put_be 4 typ @ h @ put_be 8 from @ put_be 4 len @ data"

definition nbd_simple_reply :: "nbdErr \<Rightarrow> bytes \<Rightarrow> bytes \<Rightarrow> bytes" where
  "nbd_simple_reply err h data = put_be 4 NBD_REPLY_MAGIC @ put_be 4 err @ h @ data"

text \<open>Pooled requests have the raw and handle buffers their constructor made.\<close>

definition wf_request :: "request \<Rightarrow> bool" where
  "wf_request req \<longleftrightarrow> length (rq_rawReq req) = ndbReqBytes \<and> length (rq_handle req) = ndbHandleLen"

definition wf_gslice :: "gslice \<Rightarrow> bool" where
  "wf_gslice s \<longleftrightarrow> sl_len s \<le> length (sl_arr s)"

section \<open>Facts\<close>

lemma put_le_htonl: "put_le 4 (htonl w) = put_be 4 w"
  using put_le_get_le [of "put_be 4 w", where 'a = 32] by (simp add: htonl_def)

lemma get_le_eq_htonl: "length bs = 4 \<Longrightarrow> (get_le bs :: u32) = htonl w \<longleftrightarrow> bs = put_be 4 w"
proof
  assume "length bs = 4" "(get_le bs :: u32) = htonl w"
  then show "bs = put_be 4 w"
    using put_le_get_le [of bs, where 'a = 32] by (simp add: put_le_htonl)
qed (simp add: htonl_def)

lemma length_sl_get [simp]: "wf_gslice s \<Longrightarrow> length (sl_get s) = sl_len s"
  by (simp add: sl_get_def wf_gslice_def)

lemma sl_get_put [simp]:
  "wf_gslice s \<Longrightarrow> length bs = sl_len s \<Longrightarrow> sl_get (sl_put s bs) = bs"
  by (simp add: sl_get_def sl_put_def wf_gslice_def blit_def)

lemma wf_sl_put [simp]: "wf_gslice s \<Longrightarrow> length bs \<le> sl_len s \<Longrightarrow> wf_gslice (sl_put s bs)"
  by (simp add: sl_put_def wf_gslice_def)

lemma getWriteBuffer_fields [simp]:
  "rq_rawReq (getWriteBuffer r) = rq_rawReq r" "rq_reqType (getWriteBuffer r) = rq_reqType r"
  "rq_handle (getWriteBuffer r) = rq_handle r" "rq_pos (getWriteBuffer r) = rq_pos r"
  "rq_count (getWriteBuffer r) = rq_count r"
  "sl_len (rq_writeBuffer (getWriteBuffer r)) = nat (rq_count r)"
  "wf_gslice (rq_writeBuffer (getWriteBuffer r))"
  by (auto simp: getWriteBuffer_def wf_gslice_def)

lemma GetReadBuffer_fields [simp]:
  "rs_respBuffer (GetReadBuffer r q) = rs_respBuffer r"
  "rs_reqType (GetReadBuffer r q) = rs_reqType r" "rs_errCode (GetReadBuffer r q) = rs_errCode r"
  "sl_len (rs_readBuffer (GetReadBuffer r q)) = nat (rq_count q)"
  "wf_gslice (rs_readBuffer (GetReadBuffer r q))"
  by (auto simp: GetReadBuffer_def wf_gslice_def)

lemma readFull_ok [simp]:
  "length buf \<le> length strm \<Longrightarrow> readFull strm buf = (None, take (length buf) strm, drop (length buf) strm)"
  by (simp add: readFull_def)

lemma readFull_short:
  "length strm < length buf \<Longrightarrow>
   readFull strm buf = (if strm = [] then Some EOF else Some UnexpectedEOF, blit buf 0 strm, [])"
  by (simp add: readFull_def)

lemma strm_Write_open [simp]:
  "os_budget w = None \<Longrightarrow> strm_Write w bs = (int (length bs), None, w\<lparr>os_out := os_out w @ bs\<rparr>)"
  by (simp add: strm_Write_def)

text \<open>The fields of a request, read off the 28 bytes of its header.\<close>

lemma Decode_header:
  assumes wf: "wf_request req" and len: "ndbReqBytes \<le> length strm"
    and magic: "take 4 strm = put_be 4 NBD_REQUEST_MAGIC"
  shows "Decode req strm =
    (let r = req\<lparr>rq_rawReq := take 28 strm, rq_reqType := get_be (chunk strm 4 4),
           rq_handle := chunk strm 8 8, rq_pos := sint (get_be (chunk strm 16 8) :: u64),
           rq_count := int (unat (get_be (chunk strm 24 4) :: u32))\<rparr>
     in if rq_reqType r = nbdWrite
        then (let r = getWriteBuffer r in
              case readFull (drop 28 strm) (sl_get (rq_writeBuffer r)) of
                (err, bs, rest) \<Rightarrow>
                  (map_option (Wrap ''Could not read data to be written'') err,
                   r\<lparr>rq_writeBuffer := sl_put (rq_writeBuffer r) bs\<rparr>, rest))
        else (None, r, drop 28 strm))"
proof -
  define raw where "raw = take 28 strm"
  have lraw: "length raw = 28"
    using len by (simp add: raw_def ndbReqBytes_def)
  have m: "(get_le (take 4 raw) :: u32) = nbdReqMagic"
    using magic by (simp add: nbdReqMagic_def get_le_eq_htonl raw_def)
  have fields: "chunk strm 4 4 = take 4 (drop 4 raw)" "chunk strm 8 8 = take 8 (drop 8 raw)"
    "chunk strm 16 8 = take 8 (drop 16 raw)" "chunk strm 24 4 = take 4 (drop 24 raw)"
    by (simp_all add: chunk_def raw_def drop_take)
  have "readFull strm (rq_rawReq req) = (None, raw, drop 28 strm)"
    using wf len by (simp add: wf_request_def ndbReqBytes_def raw_def)
  then show ?thesis
    using wf lraw m unfolding fields raw_def [symmetric]
    by (simp add: Decode_def wf_request_def ndbReqBytes_def ndbHandleLen_def Let_def)
qed

lemma Decode_bad_magic:
  assumes wf: "wf_request req" and len: "ndbReqBytes \<le> length strm"
    and magic: "take 4 strm \<noteq> put_be 4 NBD_REQUEST_MAGIC"
  shows "Decode req strm = (Some (Msg ''Request did not have correct magic number''),
     req\<lparr>rq_rawReq := take 28 strm\<rparr>, drop 28 strm)"
proof -
  have "(get_le (take 4 strm) :: u32) \<noteq> nbdReqMagic"
    using len magic by (simp add: nbdReqMagic_def get_le_eq_htonl ndbReqBytes_def)
  then show ?thesis
    using wf len by (simp add: Decode_def wf_request_def ndbReqBytes_def Let_def min_def)
qed

lemma Decode_short:
  assumes "wf_request req" "length strm < ndbReqBytes"
  shows "Decode req strm =
    (Some (Wrap ''Could not read request data'' (if strm = [] then EOF else UnexpectedEOF)),
     req\<lparr>rq_rawReq := blit (rq_rawReq req) 0 strm\<rparr>, [])"
  using assms by (simp add: Decode_def wf_request_def readFull_short)

lemma wf_newRequest [simp]: "wf_request newRequest"
  by (simp add: wf_request_def newRequest_def)

end
