(* ===== verification/Reqproc.thy ===== *)
theory Reqproc
  imports Device Nbd_Wire
begin

text \<open>
  The request processor of \<^verbatim>\<open>src/pkg/usbdlib/reqproc.go\<close>, one request at a time: \<open>execute\<close>
  dispatches a decoded request to the device and fills in the reply.
  \<open>session\<close> composes decoding, execution and reply writing in the order in which one
  request passes through the three kinds of workers, and is compared with a flat disk that
  answers the same messages. The workers running concurrently are in theory \<open>Pipeline\<close>.
\<close>

section \<open>Definitions\<close>

definition RecommendWorkerCount :: "int \<Rightarrow> int" where
  "RecommendWorkerCount numCPU = numCPU * 6"

text \<open>The number of I/O workers \<^verbatim>\<open>processRequests\<close> starts.\<close>

definition ioWorkerCount :: "int \<Rightarrow> int \<Rightarrow> int" where
  "ioWorkerCount numCPU workerCount =
     (let workerCount = (if workerCount < 1 then RecommendWorkerCount numCPU else workerCount);
          workerCount = workerCount - 2
      in if workerCount < 1 then 1 else workerCount)"

text \<open>What \<open>execute\<close> does to the flush mutex of the request: nothing, release the read lock the
  stream reader took for it, or take and release the write lock.\<close>

datatype mu_effect = NoMu | RUnlockMu | LockUnlockMu

text \<open>\<^verbatim>\<open>req.pos%proc.blockSize != 0 || int64(req.count)%proc.blockSize != 0\<close>; a zero block size
  is a run-time panic.\<close>

definition misaligned :: "i64 \<Rightarrow> request \<Rightarrow> bool go" where
  "misaligned blockSize req =
     (if blockSize = 0 then Panic
      else Ret (rq_pos req smod blockSize \<noteq> 0 \<or> rq_count req smod blockSize \<noteq> 0))"

definition ioErrCode :: "goerr option \<Rightarrow> nbdErr" where
  "ioErrCode err = (if err \<noteq> None then ndbRespErrIO else nbdRespSuccess)"

definition execute ::
  "'d dev_ops \<Rightarrow> i64 \<Rightarrow> request \<Rightarrow> response option \<Rightarrow> 'd \<Rightarrow> (response \<times> 'd \<times> mu_effect) go" where
  "execute ops blockSize req resp dev =
    (let resp = (case resp of None \<Rightarrow> nilResponse | Some r \<Rightarrow> r);
         reply = (\<lambda>resp errCode dev mu.
           go_bind (resp_Set resp req errCode) (\<lambda>resp. Ret (resp, dev, mu)))
     in
     if rq_reqType req = nbdRead then
       go_bind (misaligned blockSize req) (\<lambda>bad.
         if bad then reply resp ndbRespErrInvalid dev NoMu
         else (let resp = GetReadBuffer resp req in
           go_bind (dev_ReadAt ops dev (sl_get (rs_readBuffer resp)) (rq_pos req))
             (\<lambda>(_, err, bs, dev).
               reply (resp\<lparr>rs_readBuffer := sl_put (rs_readBuffer resp) bs\<rparr>) (ioErrCode err) dev NoMu)))
     else if rq_reqType req = nbdWrite then
       go_bind (misaligned blockSize req) (\<lambda>bad.
         if bad then reply resp ndbRespErrInvalid dev NoMu
         else go_bind (dev_WriteAt ops dev (sl_get (rq_writeBuffer req)) (rq_pos req))
           (\<lambda>(_, err, dev). reply resp (ioErrCode err) dev RUnlockMu))
     else if rq_reqType req = nbdFlush then
       go_bind (dev_Flush ops dev) (\<lambda>(err, dev). reply resp (ioErrCode err) dev LockUnlockMu)
     else if rq_reqType req = nbdTrim then
       go_bind (dev_Trim ops dev (rq_pos req) (rq_count req))
         (\<lambda>(err, dev). reply resp (ioErrCode err) dev RUnlockMu)
     else reply resp ndbRespErrInvalid dev NoMu)"

text \<open>
  The session over a byte stream: the stream reader decodes, stops at a decoding error or at a
  disconnect, and otherwise the request is executed and its reply written. \<open>fuel\<close> bounds the
  number of messages; \<^const>\<open>None\<close> means it was not enough. As in the writer, an error of
  \<open>resp_Write\<close> does not stop the loop.
\<close>

fun session ::
  "nat \<Rightarrow> 'd dev_ops \<Rightarrow> i64 \<Rightarrow> request \<Rightarrow> response \<Rightarrow> 'd \<Rightarrow> bytes \<Rightarrow> ostrm \<Rightarrow> ('d \<times> ostrm) go option" where
  "session 0 ops bs req resp dev strm out = None"
| "session (Suc fuel) ops bs req resp dev strm out =
     (case Decode req strm of
        (Some e, _, _) \<Rightarrow> Some (Ret (dev, out))
      | (None, req, rest) \<Rightarrow>
        (if rq_reqType req = nbdDisconnect then Some (Ret (dev, out))
         else (case execute ops bs req (Some resp) dev of
                 Panic \<Rightarrow> Some Panic
               | Ret (resp, dev, _) \<Rightarrow>
                 (case resp_Write resp out of
                    Panic \<Rightarrow> Some Panic
                  | Ret (_, resp, out) \<Rightarrow> session fuel ops bs req resp dev rest out))))"

section \<open>The flat disk\<close>

datatype nbd_op = OpRead u64 u32 | OpWrite u64 bytes | OpFlush | OpTrim u64 u32

type_synonym nbd_msg = "bytes \<times> nbd_op"

fun encode_msg :: "nbd_msg \<Rightarrow> bytes" where
  "encode_msg (h, OpRead off len) = nbd_request_msg nbdRead h off [] len"
| "encode_msg (h, OpWrite off data) = nbd_request_msg nbdWrite h off data (of_nat (length data))"
| "encode_msg (h, OpFlush) = nbd_request_msg nbdFlush h 0 [] 0"
| "encode_msg (h, OpTrim off len) = nbd_request_msg nbdTrim h off [] len"

text \<open>The answer of the flat disk: the payload of the reply and the new contents.\<close>

fun flat_op :: "bytes \<Rightarrow> nbd_op \<Rightarrow> bytes \<times> bytes" where
  "flat_op disk (OpRead off len) = (chunk disk (unat off) (unat len), disk)"
| "flat_op disk (OpWrite off data) = ([], blit disk (unat off) data)"
| "flat_op disk OpFlush = ([], disk)"
| "flat_op disk (OpTrim off len) = ([], disk)"

fun flat_session :: "bytes \<Rightarrow> nbd_msg list \<Rightarrow> bytes \<times> bytes" where
  "flat_session disk [] = ([], disk)"
| "flat_session disk ((h, op) # ms) =
     (let (data, disk') = flat_op disk op; (out, disk'') = flat_session disk' ms
      in (nbd_simple_reply nbdRespSuccess h data @ out, disk''))"

text \<open>Reads and writes of whole blocks inside a device of \<open>sz\<close> bytes.\<close>

fun valid_op :: "nat \<Rightarrow> nbd_op \<Rightarrow> bool" where
  "valid_op sz (OpRead off len) =
     whole_blocks DefaultBlockSizeBytes sz (int (unat off)) (unat len)"
| "valid_op sz (OpWrite off data) =
     (length data < 2 ^ 32 \<and> whole_blocks DefaultBlockSizeBytes sz (int (unat off)) (length data))"
| "valid_op sz OpFlush = True"
| "valid_op sz (OpTrim off len) = True"

definition valid_msg :: "nat \<Rightarrow> nbd_msg \<Rightarrow> bool" where
  "valid_msg sz m \<longleftrightarrow> length (fst m) = ndbHandleLen \<and> valid_op sz (snd m)"

section \<open>Facts\<close>

lemma length_flat_op: "valid_op (length disk) op \<Longrightarrow> length (snd (flat_op disk op)) = length disk"
  by (cases op) (auto dest!: whole_blocks_nat)

lemma ioWorkerCount_pos: "1 \<le> ioWorkerCount numCPU workerCount"
  by (simp add: ioWorkerCount_def Let_def)

lemma length_nbd_request_msg:
  "length h = ndbHandleLen \<Longrightarrow> length (nbd_request_msg t h f d l) = 28 + length d"
  by (simp add: nbd_request_msg_def ndbHandleLen_def)

text \<open>Decoding a message that the kernel encoded gives its fields back.\<close>

lemma Decode_msg:
  assumes wf: "wf_request req" and h: "length h = ndbHandleLen"
    and len: "typ = nbdWrite \<Longrightarrow> unat len = length data" "typ \<noteq> nbdWrite \<Longrightarrow> data = []"
  obtains req' where "Decode req (nbd_request_msg typ h off data len @ rest) = (None, req', rest)"
    "wf_request req'" "rq_reqType req' = typ" "rq_handle req' = h" "rq_pos req' = sint off"
    "rq_count req' = int (unat len)" "typ = nbdWrite \<Longrightarrow> sl_get (rq_writeBuffer req') = data"
proof -
  define strm where "strm = nbd_request_msg typ h off data len @ rest"
  have l28: "ndbReqBytes \<le> length strm"
    using length_nbd_request_msg [OF h] by (simp add: strm_def ndbReqBytes_def)
  have m: "take 4 strm = put_be 4 NBD_REQUEST_MAGIC"
    by (simp add: strm_def nbd_request_msg_def)
  have f: "chunk strm 4 4 = put_be 4 typ" "chunk strm 8 8 = h" "chunk strm 16 8 = put_be 8 off"
    "chunk strm 24 4 = put_be 4 len" "drop 28 strm = data @ rest"
    using h by (simp_all add: strm_def nbd_request_msg_def chunk_def ndbHandleLen_def)
  have g: "(get_be (put_be 4 typ) :: u32) = typ" "(get_be (put_be 4 len) :: u32) = len"
    "(get_be (put_be 8 off) :: u64) = off"
    by (simp_all add: get_be_put_be take_bit_word_eq_self)
  define r where "r = req\<lparr>rq_rawReq := take 28 strm, rq_reqType := typ, rq_handle := h,
     rq_pos := sint off, rq_count := int (unat len)\<rparr>"
  have wfr: "wf_request r"
    using l28 h by (simp add: r_def wf_request_def ndbReqBytes_def ndbHandleLen_def)
  note dec = Decode_header [OF wf l28 m, unfolded f g, folded r_def, unfolded Let_def]
  have "\<exists>req'. Decode req strm = (None, req', rest) \<and> wf_request req' \<and> rq_reqType req' = typ
    \<and> rq_handle req' = h \<and> rq_pos req' = sint off \<and> rq_count req' = int (unat len)
    \<and> (typ = nbdWrite \<longrightarrow> sl_get (rq_writeBuffer req') = data)"
  proof (cases "typ = nbdWrite")
    case True
    let ?b = "rq_writeBuffer (getWriteBuffer r)"
    have "length (sl_get ?b) = length data"
      using len(1) [OF True] by (simp add: r_def)
    then have "Decode req strm = (None, getWriteBuffer r\<lparr>rq_writeBuffer := sl_put ?b data\<rparr>, rest)"
      using dec True by (simp add: r_def)
    then show ?thesis
      using wfr len(1) [OF True] by (auto simp: wf_request_def r_def)
  next
    case False
    then show ?thesis
      using dec wfr len(2) by (auto simp: r_def)
  qed
  then show ?thesis
    using that unfolding strm_def by blast
qed

lemma resp_Set_ok:
  "rs_respBuffer resp \<noteq> None \<Longrightarrow> resp_Set resp req e =
     Ret (resp\<lparr>rs_reqType := rq_reqType req, rs_errCode := e,
       rs_respBuffer := Some (nbd_simple_reply e (rq_handle req) [])\<rparr>)"
  by (auto simp: resp_Set_def Let_def nbd_simple_reply_def nbdReplyMagic_def put_le_htonl)

text \<open>Writing a reply onto an open stream.\<close>

lemma resp_Write_open:
  assumes "rs_respBuffer resp = Some b" "os_budget out = None"
  shows "resp_Write resp out = Ret (None, resp\<lparr>rs_respBuffer := Some []\<rparr>,
    out\<lparr>os_out := os_out out @ b @
      (if rs_reqType resp = nbdRead then sl_get (rs_readBuffer resp) else [])\<rparr>)"
  using assms by (auto simp: resp_Write_def)

lemma misaligned_whole_blocks:
  "whole_blocks DefaultBlockSizeBytes sz (rq_pos req) (nat (rq_count req)) \<Longrightarrow> 0 \<le> rq_count req \<Longrightarrow>
   misaligned DefaultBlockSizeBytes req = Ret False"
  by (simp add: misaligned_def whole_blocks_def DefaultBlockSizeBytes_def dvd_eq_mod_eq_0)

lemma sint_of_small: "int (unat w) < 2 ^ 63 \<Longrightarrow> sint (w :: u64) = int (unat w)"
  using order_trans [of "- (2 ^ 63)" 0 "uint w"]
  by (simp add: sint_uint signed_take_bit_int_eq_self)

lemma session_one:
  assumes "Decode req strm = (None, req', rest)" "rq_reqType req' \<noteq> nbdDisconnect"
    and "execute ops bs req' (Some resp) d = Ret (resp', d', mu)"
    and "rs_respBuffer resp' = Some (nbd_simple_reply e h [])" "os_budget out = None"
  shows "session (Suc fuel) ops bs req resp d strm out =
    session fuel ops bs req' (resp'\<lparr>rs_respBuffer := Some []\<rparr>) d' rest
      (out\<lparr>os_out := os_out out @ nbd_simple_reply e h
        (if rs_reqType resp' = nbdRead then sl_get (rs_readBuffer resp') else [])\<rparr>)"
  using assms by (simp add: resp_Write_open nbd_simple_reply_def)

declare session.simps [simp del]

section \<open>Execution on a device that keeps the contract\<close>

context block_device
begin

lemma execute_read:
  assumes "inv d" "rq_reqType req = nbdRead" "0 \<le> rq_count req" "rs_respBuffer resp \<noteq> None"
    and wb: "whole_blocks DefaultBlockSizeBytes (length (content d)) (rq_pos req) (nat (rq_count req))"
  obtains resp' d' where
    "execute ops DefaultBlockSizeBytes req (Some resp) d = Ret (resp', d', NoMu)"
    "rs_respBuffer resp' = Some (nbd_simple_reply nbdRespSuccess (rq_handle req) [])"
    "rs_reqType resp' = nbdRead"
    "sl_get (rs_readBuffer resp') = chunk (content d) (nat (rq_pos req)) (nat (rq_count req))"
    "inv d'" "content d' = content d"
proof -
  let ?r = "GetReadBuffer resp req"
  have l: "length (sl_get (rs_readBuffer ?r)) = nat (rq_count req)"
    by simp
  obtain d' where d': "dev_ReadAt ops d (sl_get (rs_readBuffer ?r)) (rq_pos req) =
      Ret (rq_count req, None, chunk (content d) (nat (rq_pos req)) (nat (rq_count req)), d')"
    "inv d'" "content d' = content d"
    using read_law [OF assms(1), of "rq_pos req" "sl_get (rs_readBuffer ?r)"] wb assms(3)
    unfolding l by auto
  have lc: "length (chunk (content d) (nat (rq_pos req)) (nat (rq_count req))) = nat (rq_count req)"
    using whole_blocks_nat [OF wb] by simp
  have "execute ops DefaultBlockSizeBytes req (Some resp) d =
    Ret (?r\<lparr>rs_readBuffer := sl_put (rs_readBuffer ?r)
        (chunk (content d) (nat (rq_pos req)) (nat (rq_count req))),
      rs_reqType := nbdRead, rs_errCode := nbdRespSuccess,
      rs_respBuffer := Some (nbd_simple_reply nbdRespSuccess (rq_handle req) [])\<rparr>, d', NoMu)"
    using assms(2,4) misaligned_whole_blocks [OF wb assms(3)] d'(1)
    by (simp add: execute_def resp_Set_ok ioErrCode_def Let_def)
  from that [OF this] d'(2,3) lc show ?thesis by simp
qed

lemma execute_write:
  assumes "inv d" "rq_reqType req = nbdWrite" "rq_count req = int (length (sl_get (rq_writeBuffer req)))"
    and "rs_respBuffer resp \<noteq> None" "takes d (sl_get (rq_writeBuffer req)) (rq_pos req)"
    and wb: "whole_blocks DefaultBlockSizeBytes (length (content d)) (rq_pos req) (nat (rq_count req))"
  obtains resp' d' where
    "execute ops DefaultBlockSizeBytes req (Some resp) d = Ret (resp', d', RUnlockMu)"
    "rs_respBuffer resp' = Some (nbd_simple_reply nbdRespSuccess (rq_handle req) [])"
    "rs_reqType resp' = nbdWrite" "inv d'"
    "content d' = blit (content d) (nat (rq_pos req)) (sl_get (rq_writeBuffer req))"
proof -
  obtain d' where d': "dev_WriteAt ops d (sl_get (rq_writeBuffer req)) (rq_pos req) =
      Ret (int (length (sl_get (rq_writeBuffer req))), None, d')"
    "inv d'" "content d' = blit (content d) (nat (rq_pos req)) (sl_get (rq_writeBuffer req))"
    using write_law [OF assms(1) _ assms(5)] wb assms(3) by auto
  have "execute ops DefaultBlockSizeBytes req (Some resp) d =
    Ret (resp\<lparr>rs_reqType := nbdWrite, rs_errCode := nbdRespSuccess,
      rs_respBuffer := Some (nbd_simple_reply nbdRespSuccess (rq_handle req) [])\<rparr>, d', RUnlockMu)"
    using assms(2,3,4) misaligned_whole_blocks [OF wb] d'(1)
    by (simp add: execute_def resp_Set_ok ioErrCode_def nbd_cmd_defs)
  from that [OF this] d'(2,3) show ?thesis by simp
qed

lemma execute_flush_trim:
  assumes "inv d" "rq_reqType req = nbdFlush \<or> rq_reqType req = nbdTrim" "rs_respBuffer resp \<noteq> None"
  obtains resp' d' mu where
    "execute ops DefaultBlockSizeBytes req (Some resp) d = Ret (resp', d', mu)"
    "rs_respBuffer resp' = Some (nbd_simple_reply nbdRespSuccess (rq_handle req) [])"
    "rs_reqType resp' \<noteq> nbdRead" "inv d'" "content d' = content d"
proof (cases "rq_reqType req = nbdFlush")
  case True
  obtain d' where "dev_Flush ops d = Ret (None, d')" "inv d'" "content d' = content d"
    using flush_law [OF assms(1)] by blast
  with True assms(3) show ?thesis
    by (intro that [of _ d' LockUnlockMu])
      (auto simp: execute_def resp_Set_ok ioErrCode_def nbd_cmd_defs)
next
  case False
  obtain d' where "dev_Trim ops d (rq_pos req) (rq_count req) = Ret (None, d')" "inv d'"
    "content d' = content d"
    using trim_law [OF assms(1)] by blast
  with False assms(2,3) show ?thesis
    by (intro that [of _ d' RUnlockMu])
      (auto simp: execute_def resp_Set_ok ioErrCode_def nbd_cmd_defs)
qed

text \<open>One message, from the stream to the reply on the stream.\<close>

lemma session_step:
  assumes "inv d" "valid_msg (length (content d)) (h, op)"
    and tk: "\<And>off data. op = OpWrite off data \<Longrightarrow> takes d data (int (unat off))"
    and "wf_request req" "rs_respBuffer resp \<noteq> None" "os_budget out = None"
  obtains req' resp' d' where
    "session (Suc fuel) ops DefaultBlockSizeBytes req resp d (encode_msg (h, op) @ rest) out =
     session fuel ops DefaultBlockSizeBytes req' resp' d' rest
       (out\<lparr>os_out := os_out out @ nbd_simple_reply nbdRespSuccess h (fst (flat_op (content d) op))\<rparr>)"
    "inv d'" "content d' = snd (flat_op (content d) op)" "wf_request req'" "rs_respBuffer resp' \<noteq> None"
proof -
  have lh: "length h = ndbHandleLen" and vo: "valid_op (length (content d)) op"
    using assms(2) by (auto simp: valid_msg_def)
  have small: "sint off = int (unat off)"
    if "whole_blocks DefaultBlockSizeBytes (length (content d)) (int (unat off)) n" for off :: u64 and n
    using that content_bound [OF assms(1)] by (intro sint_of_small) (simp add: whole_blocks_def)
  show ?thesis
  proof (cases op)
    case (OpRead off len)
    obtain req' where r: "Decode req (encode_msg (h, op) @ rest) = (None, req', rest)" "wf_request req'"
      "rq_reqType req' = nbdRead" "rq_handle req' = h" "rq_pos req' = sint off"
      "rq_count req' = int (unat len)"
      by (rule Decode_msg [OF assms(4) lh, of nbdRead len "[]" off rest])
        (simp_all add: OpRead nbd_cmd_defs)
    have s: "sint off = int (unat off)"
      using vo OpRead by (intro small [of _ "unat len"]) simp
    obtain resp' d' where e: "execute ops DefaultBlockSizeBytes req' (Some resp) d = Ret (resp', d', NoMu)"
      "rs_respBuffer resp' = Some (nbd_simple_reply nbdRespSuccess h [])" "rs_reqType resp' = nbdRead"
      "sl_get (rs_readBuffer resp') = chunk (content d) (unat off) (unat len)"
      "inv d'" "content d' = content d"
      by (rule execute_read [OF assms(1) r(3) _ assms(5), unfolded r(4,5,6) s nat_int])
        (use vo OpRead in simp_all)
    show ?thesis
      by (rule that [of req' "resp'\<lparr>rs_respBuffer := Some []\<rparr>" d'])
        (use r(2,3) e OpRead session_one [OF r(1) _ e(1,2) assms(6)] in \<open>simp_all add: nbd_cmd_defs del: encode_msg.simps\<close>)
  next
    case (OpWrite off data)
    have lu: "unat (of_nat (length data) :: u32) = length data"
      using vo OpWrite by (simp add: unat_of_nat)
    obtain req' where r: "Decode req (encode_msg (h, op) @ rest) = (None, req', rest)" "wf_request req'"
      "rq_reqType req' = nbdWrite" "rq_handle req' = h" "rq_pos req' = sint off"
      "rq_count req' = int (length data)" "sl_get (rq_writeBuffer req') = data"
      by (rule Decode_msg [OF assms(4) lh, of nbdWrite "of_nat (length data)" data off rest])
        (simp_all add: OpWrite lu)
    have s: "sint off = int (unat off)"
      using vo OpWrite by (intro small [of _ "length data"]) simp
    obtain resp' d' where e: "execute ops DefaultBlockSizeBytes req' (Some resp) d = Ret (resp', d', RUnlockMu)"
      "rs_respBuffer resp' = Some (nbd_simple_reply nbdRespSuccess h [])" "rs_reqType resp' = nbdWrite"
      "inv d'" "content d' = blit (content d) (unat off) data"
      by (rule execute_write [OF assms(1) r(3) _ assms(5), unfolded r(4-7) s nat_int])
        (use vo OpWrite tk in simp_all)
    show ?thesis
      by (rule that [of req' "resp'\<lparr>rs_respBuffer := Some []\<rparr>" d'])
        (use r(2,3) e OpWrite session_one [OF r(1) _ e(1,2) assms(6)] in \<open>simp_all add: nbd_cmd_defs del: encode_msg.simps\<close>)
  next
    case OpFlush
    obtain req' where r: "Decode req (encode_msg (h, op) @ rest) = (None, req', rest)" "wf_request req'"
      "rq_reqType req' = nbdFlush" "rq_handle req' = h"
      by (rule Decode_msg [OF assms(4) lh, of nbdFlush 0 "[]" 0 rest])
        (simp_all add: OpFlush nbd_cmd_defs)
    obtain resp' d' mu where e: "execute ops DefaultBlockSizeBytes req' (Some resp) d = Ret (resp', d', mu)"
      "rs_respBuffer resp' = Some (nbd_simple_reply nbdRespSuccess h [])" "rs_reqType resp' \<noteq> nbdRead"
      "inv d'" "content d' = content d"
      by (rule execute_flush_trim [OF assms(1) _ assms(5), of req', unfolded r(4)]) (simp_all add: r)
    show ?thesis
      by (rule that [of req' "resp'\<lparr>rs_respBuffer := Some []\<rparr>" d'])
        (use r(2,3) e OpFlush session_one [OF r(1) _ e(1,2) assms(6)] in \<open>simp_all add: nbd_cmd_defs del: encode_msg.simps\<close>)
  next
    case (OpTrim off len)
    obtain req' where r: "Decode req (encode_msg (h, op) @ rest) = (None, req', rest)" "wf_request req'"
      "rq_reqType req' = nbdTrim" "rq_handle req' = h"
      by (rule Decode_msg [OF assms(4) lh, of nbdTrim len "[]" off rest])
        (simp_all add: OpTrim nbd_cmd_defs)
    obtain resp' d' mu where e: "execute ops DefaultBlockSizeBytes req' (Some resp) d = Ret (resp', d', mu)"
      "rs_respBuffer resp' = Some (nbd_simple_reply nbdRespSuccess h [])" "rs_reqType resp' \<noteq> nbdRead"
      "inv d'" "content d' = content d"
      by (rule execute_flush_trim [OF assms(1) _ assms(5), of req', unfolded r(4)]) (simp_all add: r)
    show ?thesis
      by (rule that [of req' "resp'\<lparr>rs_respBuffer := Some []\<rparr>" d'])
        (use r(2,3) e OpTrim session_one [OF r(1) _ e(1,2) assms(6)] in \<open>simp_all add: nbd_cmd_defs del: encode_msg.simps\<close>)
  qed
qed

text \<open>
  A whole session: the replies on the stream and the final contents are those of the flat disk.
  The kernel ends the session with a disconnect, after which nothing of the stream is read.
\<close>

lemma session_refines:
  assumes "inv d" "\<forall>m \<in> set ms. valid_msg (length (content d)) m"
    and "\<forall>h off data. (h, OpWrite off data) \<in> set ms \<longrightarrow> (\<forall>d. inv d \<longrightarrow> takes d data (int (unat off)))"
    and "wf_request req" "rs_respBuffer resp \<noteq> None" "os_budget out = None" "length h0 = ndbHandleLen"
  shows "\<exists>d'. session (length ms + Suc fuel) ops DefaultBlockSizeBytes req resp d
      (concat (map encode_msg ms) @ nbd_request_msg nbdDisconnect h0 0 [] 0 @ junk) out =
      Some (Ret (d', out\<lparr>os_out := os_out out @ fst (flat_session (content d) ms)\<rparr>))
    \<and> inv d' \<and> content d' = snd (flat_session (content d) ms)"
  using assms(1-6)
proof (induction ms arbitrary: d req resp out)
  case Nil
  obtain req' where "Decode req (nbd_request_msg nbdDisconnect h0 0 [] 0 @ junk) = (None, req', junk)"
    "rq_reqType req' = nbdDisconnect"
    by (rule Decode_msg [OF Nil.prems(4) assms(7), of nbdDisconnect 0 "[]" 0 junk])
      (simp_all add: nbd_cmd_defs)
  with Nil.prems(1) show ?case by (simp add: session.simps)
next
  case (Cons m ms)
  obtain h op where m: "m = (h, op)" by (cases m)
  let ?rest = "concat (map encode_msg ms) @ nbd_request_msg nbdDisconnect h0 0 [] 0 @ junk"
  have tk: "takes d data (int (unat off))" if "op = OpWrite off data" for off data
    using Cons.prems(1,3) that by (auto simp: m)
  obtain req' resp' d' where s:
    "session (Suc (length ms + Suc fuel)) ops DefaultBlockSizeBytes req resp d (encode_msg (h, op) @ ?rest) out =
     session (length ms + Suc fuel) ops DefaultBlockSizeBytes req' resp' d' ?rest
       (out\<lparr>os_out := os_out out @ nbd_simple_reply nbdRespSuccess h (fst (flat_op (content d) op))\<rparr>)"
    "inv d'" "content d' = snd (flat_op (content d) op)" "wf_request req'" "rs_respBuffer resp' \<noteq> None"
    by (rule session_step [OF Cons.prems(1) _ tk Cons.prems(4-6), of h])
      (use Cons.prems(2) in \<open>auto simp: m\<close>)
  have len: "length (content d') = length (content d)"
    using Cons.prems(2) s(3) by (simp add: m valid_msg_def length_flat_op)
  obtain d'' where
    "session (length ms + Suc fuel) ops DefaultBlockSizeBytes req' resp' d' ?rest
       (out\<lparr>os_out := os_out out @ nbd_simple_reply nbdRespSuccess h (fst (flat_op (content d) op))\<rparr>) =
     Some (Ret (d'', out\<lparr>os_out := os_out out @ nbd_simple_reply nbdRespSuccess h (fst (flat_op (content d) op))
        @ fst (flat_session (content d') ms)\<rparr>))"
    "inv d''" "content d'' = snd (flat_session (content d') ms)"
    using Cons.IH [OF s(2) _ _ s(4,5), of "out\<lparr>os_out := os_out out @
        nbd_simple_reply nbdRespSuccess h (fst (flat_op (content d) op))\<rparr>"] Cons.prems(2,3,6) len
    by auto
  with s(1,3) show ?case
    by (auto simp: m Let_def split_beta)
qed

end

lemma length_getWriteBuffer: "length (sl_get (rq_writeBuffer (getWriteBuffer req))) = nat (rq_count req)"
  by (auto simp: getWriteBuffer_def sl_get_def)

lemma zeros_not_magic: "zeros 4 \<noteq> put_be 4 NBD_REQUEST_MAGIC"
  by code_simp

section \<open>Properties\<close>

text \<open>
  C13: decoding inverts the kernel's encoding. On a request message followed by anything, a pooled
  request decodes without an error to the message's command, handle, offset and length, takes the
  payload of a write into its buffer, and leaves the stream at the next message.
\<close>

theorem Decode_request_msg:
  assumes "wf_request req" "length h = ndbHandleLen"
    and "typ = nbdWrite \<Longrightarrow> unat len = length data" "typ \<noteq> nbdWrite \<Longrightarrow> data = []"
  shows "\<exists>req'. Decode req (nbd_request_msg typ h off data len @ rest) = (None, req', rest) \<and>
    rq_reqType req' = typ \<and> rq_handle req' = h \<and> rq_pos req' = sint off \<and>
    rq_count req' = int (unat len) \<and> (typ = nbdWrite \<longrightarrow> sl_get (rq_writeBuffer req') = data)"
  by (rule Decode_msg [OF assms(1,2), of "typ" len data off rest])
    (use assms(3,4) in auto)

theorem Decode_request_msg_witness:
  "\<exists>req'. Decode newRequest (nbd_request_msg nbdWrite (replicate 8 9) 4096 [1, 2, 3] 3 @ [5]) = (None, req', [5]) \<and>
    rq_reqType req' = nbdWrite \<and> rq_handle req' = replicate 8 9 \<and> rq_pos req' = 4096 \<and>
    sl_get (rq_writeBuffer req') = [1, 2, 3]"
  using Decode_request_msg [of newRequest "replicate 8 9" nbdWrite 3 "[1, 2, 3]" 4096 "[5]"]
  by (auto simp: ndbHandleLen_def sint_of_small)

text \<open>
  C18: decoding accepts exactly the well-formed streams: those with a whole header that starts with
  the request magic and, for a write, with the whole payload behind it.
\<close>

theorem Decode_accepts_iff:
  assumes "wf_request req"
  shows "fst (Decode req strm) = None \<longleftrightarrow>
    ndbReqBytes \<le> length strm \<and> take 4 strm = put_be 4 NBD_REQUEST_MAGIC \<and>
    ((get_be (chunk strm 4 4) :: u32) = nbdWrite \<longrightarrow>
      ndbReqBytes + unat (get_be (chunk strm 24 4) :: u32) \<le> length strm)"
proof (cases "ndbReqBytes \<le> length strm \<and> take 4 strm = put_be 4 NBD_REQUEST_MAGIC")
  case True
  then show ?thesis
    using Decode_header [OF assms, of strm]
    by (auto simp: Let_def readFull_def length_getWriteBuffer ndbReqBytes_def)
next
  case False
  then show ?thesis
    using Decode_bad_magic [OF assms, of strm] Decode_short [OF assms, of strm]
    by (cases "ndbReqBytes \<le> length strm") auto
qed

theorem Decode_accepts_iff_witness:
  "fst (Decode newRequest (zeros 28)) \<noteq> None"
  using Decode_accepts_iff [of newRequest "zeros 28"] zeros_not_magic by simp

text \<open>The type invariant of pooled requests: buffers of the constructor's sizes, a position and a count that
  fit their Go types, and a write buffer that is a slice.\<close>

definition typed_request :: "request \<Rightarrow> bool" where
  "typed_request req \<longleftrightarrow> wf_request req \<and> in64 (rq_pos req) \<and> 0 \<le> rq_count req \<and> rq_count req < 2 ^ 32 \<and>
     wf_gslice (rq_writeBuffer req)"

text \<open>
  C37: the type invariant of pooled requests holds whatever the stream contains: decoding keeps the buffer
  sizes and the ranges of position and count, also when it fails; and an accepted write has a
  buffer of exactly its count.
\<close>

theorem Decode_keeps_types:
  assumes "typed_request req" "Decode req strm = (err, req', rest)"
  shows "typed_request req' \<and> (err = None \<and> rq_reqType req' = nbdWrite \<longrightarrow> int (length (sl_get (rq_writeBuffer req'))) = rq_count req') \<and>
    length rest \<le> length strm"
proof -
  have wf: "wf_request req" using assms(1) by (simp add: typed_request_def)
  show ?thesis
  proof (cases "ndbReqBytes \<le> length strm \<and> take 4 strm = put_be 4 NBD_REQUEST_MAGIC")
    case True
    have u: "uint c < 4294967296" for c :: u32 using unsigned_less [of c, where ?'a = int] by simp
    have i: "in64 (sint p)" for p :: u64 using sint_ge [of p] sint_less [of p] by (simp add: in64_def)
    define r where "r = req\<lparr>rq_rawReq := take 28 strm, rq_reqType := get_be (chunk strm 4 4),
           rq_handle := chunk strm 8 8, rq_pos := sint (get_be (chunk strm 16 8) :: u64),
           rq_count := int (unat (get_be (chunk strm 24 4) :: u32))\<rparr>"
    have r: "typed_request r"
      using assms(1) True u i by (auto simp: typed_request_def r_def wf_request_def ndbReqBytes_def ndbHandleLen_def chunk_def)
    note dec = Decode_header [OF wf conjunct1 [OF True] conjunct2 [OF True], unfolded Let_def, folded r_def]
    show ?thesis
    proof (cases "rq_reqType r = nbdWrite")
      case True
      then show ?thesis
        using assms(2) r dec by (auto simp: typed_request_def wf_request_def readFull_def length_getWriteBuffer split: if_splits)
    next
      case False
      then show ?thesis using assms(2) r dec by auto
    qed
  next
    case False
    then show ?thesis
      using assms Decode_bad_magic [OF wf, of strm] Decode_short [OF wf, of strm]
      by (cases "ndbReqBytes \<le> length strm") (auto simp: typed_request_def wf_request_def ndbReqBytes_def blit_def)
  qed
qed

theorem Decode_keeps_types_witness:
  "typed_request (fst (snd (Decode newRequest (zeros 28))))"
  using Decode_keeps_types [of newRequest "zeros 28" "fst (Decode newRequest (zeros 28))" "fst (snd (Decode newRequest (zeros 28)))"
      "snd (snd (Decode newRequest (zeros 28)))"]
  by (simp add: typed_request_def) (simp add: newRequest_def in64_def wf_gslice_def)

text \<open>
  C19: a misaligned read or write and an unknown command are answered with the error code 22 and
  the request's handle, and never reach the device.
\<close>

theorem execute_invalid:
  assumes "rs_respBuffer resp \<noteq> None" "bs \<noteq> 0"
    and "rq_reqType req = nbdRead \<or> rq_reqType req = nbdWrite \<Longrightarrow>
         rq_pos req smod bs \<noteq> 0 \<or> rq_count req smod bs \<noteq> 0"
    and "rq_reqType req \<noteq> nbdFlush" "rq_reqType req \<noteq> nbdTrim"
  shows "\<exists>resp'. execute ops bs req (Some resp) dev = Ret (resp', dev, NoMu) \<and>
    rs_respBuffer resp' = Some (nbd_simple_reply 22 (rq_handle req) []) \<and> rs_reqType resp' = rq_reqType req \<and>
    rs_readBuffer resp' = rs_readBuffer resp"
  using assms by (auto simp: execute_def Let_def misaligned_def resp_Set_ok ndbRespErrInvalid_def)

theorem execute_invalid_witness:
  "\<forall>ops (dev :: nat). \<exists>resp'. execute ops 4096 (newRequest\<lparr>rq_reqType := nbdWrite, rq_pos := 17\<rparr>)
      (Some newResponse) dev = Ret (resp', dev, NoMu) \<and> rs_respBuffer resp' = Some (nbd_simple_reply 22 (zeros 8) [])"
  using execute_invalid [of newResponse 4096 "newRequest\<lparr>rq_reqType := nbdWrite, rq_pos := 17\<rparr>"]
  by (fastforce simp: newResponse_def newRequest_def ndbHandleLen_def nbd_cmd_defs)

text \<open>
  C20: the reply to a read that failed still carries a payload: after the header with the error code
  the writer sends whatever the pooled reply's read buffer holds, which for a refused read is the data
  of an earlier one. In the protocol a reply with an error has no payload.
\<close>

theorem failed_read_sends_payload:
  assumes "rs_respBuffer resp \<noteq> None" "bs \<noteq> 0" "rq_reqType req = nbdRead" "rq_pos req smod bs \<noteq> 0"
    and "os_budget out = None"
  shows "\<exists>resp' resp''. execute ops bs req (Some resp) dev = Ret (resp', dev, NoMu) \<and>
    resp_Write resp' out = Ret (None, resp'', out\<lparr>os_out := os_out out @
      nbd_simple_reply 22 (rq_handle req) (sl_get (rs_readBuffer resp))\<rparr>)"
  using assms
  by (auto simp: execute_def Let_def misaligned_def resp_Set_ok ndbRespErrInvalid_def resp_Write_open
      nbd_simple_reply_def)

theorem failed_read_sends_payload_witness:
  "\<forall>ops (dev :: nat). \<exists>resp' resp''. execute ops 4096 (newRequest\<lparr>rq_pos := 17\<rparr>)
      (Some (newResponse\<lparr>rs_readBuffer := \<lparr>sl_arr = [1, 2, 3], sl_len = 3\<rparr>\<rparr>)) dev = Ret (resp', dev, NoMu) \<and>
    resp_Write resp' \<lparr>os_out = [], os_budget = None\<rparr> = Ret (None, resp'',
      \<lparr>os_out = nbd_simple_reply 22 (zeros 8) [1, 2, 3], os_budget = None\<rparr>)"
  using failed_read_sends_payload [of "newResponse\<lparr>rs_readBuffer := \<lparr>sl_arr = [1, 2, 3], sl_len = 3\<rparr>\<rparr>" 4096
      "newRequest\<lparr>rq_pos := 17\<rparr>" "\<lparr>os_out = [], os_budget = None\<rparr>"]
  by (auto simp: newResponse_def newRequest_def ndbHandleLen_def nbd_cmd_defs sl_get_def)

end
