(* ===== verification/Ramdisk.thy ===== *)
theory Ramdisk
  imports Reqproc
begin

text \<open>
  The memory backed device of \<^verbatim>\<open>src/pkg/devices/ramdisk/ramdisk.go\<close>: a byte slice and an
  atomic on-line flag. It keeps the device contract, and its bounds check is characterised on
  every position, negative and overflowing ones included.
\<close>

section \<open>Definitions\<close>

record ramdisk =
  rd_disk :: bytes
  rd_size :: i64
  rd_atomicOnline :: u64

definition NewRAMDisk :: "i64 \<Rightarrow> ramdisk go" where
  "NewRAMDisk sz =
     (if sz < 0 then Panic
      else Ret \<lparr>rd_disk = zeros (nat sz), rd_size = sz, rd_atomicOnline = 1\<rparr>)"

definition RAMDisk_Size :: "ramdisk \<Rightarrow> i64" where
  "RAMDisk_Size rdsk = rd_size rdsk"

definition RAMDisk_ReadAt ::
  "ramdisk \<Rightarrow> bytes \<Rightarrow> i64 \<Rightarrow> (int \<times> goerr option \<times> bytes \<times> ramdisk) go" where
  "RAMDisk_ReadAt rdsk buf pos =
     (if rd_atomicOnline rdsk \<noteq> 1 then Ret (0, Some ErrClosed, buf, rdsk)
      else let count = int (length buf); end = wrap64 (pos + count) in
        if end > rd_size rdsk then Ret (0, Some EOF, buf, rdsk)
        else go_bind (go_slice (rd_disk rdsk) pos end) (\<lambda>src.
          Ret (count, None, go_copy buf src, rdsk)))"

definition RAMDisk_WriteAt ::
  "ramdisk \<Rightarrow> bytes \<Rightarrow> i64 \<Rightarrow> (int \<times> goerr option \<times> ramdisk) go" where
  "RAMDisk_WriteAt rdsk buf pos =
     (if rd_atomicOnline rdsk \<noteq> 1 then Ret (0, Some ErrClosed, rdsk)
      else let count = int (length buf); end = wrap64 (pos + count) in
        if end > rd_size rdsk then Ret (0, Some UnexpectedEOF, rdsk)
        else go_bind (go_slice (rd_disk rdsk) pos end) (\<lambda>dst.
          Ret (count, None, rdsk\<lparr>rd_disk := blit (rd_disk rdsk) (nat pos) (go_copy dst buf)\<rparr>)))"

definition RAMDisk_Trim :: "ramdisk \<Rightarrow> i64 \<Rightarrow> int \<Rightarrow> (goerr option \<times> ramdisk) go" where
  "RAMDisk_Trim rdsk pos count =
     (if rd_atomicOnline rdsk \<noteq> 1 then Ret (Some ErrClosed, rdsk) else Ret (None, rdsk))"

definition RAMDisk_Flush :: "ramdisk \<Rightarrow> (goerr option \<times> ramdisk) go" where
  "RAMDisk_Flush rdsk =
     (if rd_atomicOnline rdsk \<noteq> 1 then Ret (Some ErrClosed, rdsk) else Ret (None, rdsk))"

definition RAMDisk_Close :: "ramdisk \<Rightarrow> (goerr option \<times> ramdisk) go" where
  "RAMDisk_Close rdsk = Ret (None, rdsk\<lparr>rd_atomicOnline := 0\<rparr>)"

definition ramdisk_ops :: "ramdisk dev_ops" where
  "ramdisk_ops = \<lparr>dev_Size = RAMDisk_Size, dev_BlockSize = (\<lambda>_. DefaultBlockSizeBytes),
     dev_ReadAt = RAMDisk_ReadAt, dev_WriteAt = RAMDisk_WriteAt, dev_Trim = RAMDisk_Trim,
     dev_Flush = RAMDisk_Flush, dev_Close = RAMDisk_Close\<rparr>"

text \<open>The slice has the length the constructor gave it, and the device is on line.\<close>

definition ramdisk_wf :: "ramdisk \<Rightarrow> bool" where
  "ramdisk_wf rdsk \<longleftrightarrow> rd_size rdsk = int (length (rd_disk rdsk)) \<and> rd_size rdsk < 2 ^ 63"

definition ramdisk_inv :: "ramdisk \<Rightarrow> bool" where
  "ramdisk_inv rdsk \<longleftrightarrow> ramdisk_wf rdsk \<and> rd_atomicOnline rdsk = 1"

lemmas ramdisk_defs = ramdisk_inv_def ramdisk_wf_def RAMDisk_Size_def RAMDisk_ReadAt_def
  RAMDisk_WriteAt_def RAMDisk_Trim_def RAMDisk_Flush_def RAMDisk_Close_def

section \<open>The contract\<close>

lemma in64_nonneg: "0 \<le> x \<Longrightarrow> x < 2 ^ 63 \<Longrightarrow> in64 x"
  by (simp add: in64_def)

lemma RAMDisk_ReadAt_in:
  assumes "ramdisk_inv rdsk" "0 \<le> pos" "pos + int (length buf) \<le> rd_size rdsk"
  shows "RAMDisk_ReadAt rdsk buf pos =
    Ret (int (length buf), None, chunk (rd_disk rdsk) (nat pos) (length buf), rdsk)"
proof -
  have "in64 (pos + int (length buf))"
    using assms by (intro in64_nonneg) (auto simp: ramdisk_defs)
  then show ?thesis
    using assms by (simp add: ramdisk_defs go_copy_same)
qed

lemma RAMDisk_WriteAt_in:
  assumes "ramdisk_inv rdsk" "0 \<le> pos" "pos + int (length buf) \<le> rd_size rdsk"
  shows "RAMDisk_WriteAt rdsk buf pos =
    Ret (int (length buf), None, rdsk\<lparr>rd_disk := blit (rd_disk rdsk) (nat pos) buf\<rparr>)"
proof -
  have "in64 (pos + int (length buf))"
    using assms by (intro in64_nonneg) (auto simp: ramdisk_defs)
  then show ?thesis
    using assms by (simp add: ramdisk_defs go_copy_same)
qed

lemma ramdisk_inv_write:
  "ramdisk_inv rdsk \<Longrightarrow> nat pos + length buf \<le> length (rd_disk rdsk) \<Longrightarrow>
   ramdisk_inv (rdsk\<lparr>rd_disk := blit (rd_disk rdsk) (nat pos) buf\<rparr>)"
  by (simp add: ramdisk_defs)

interpretation rd: block_device ramdisk_ops ramdisk_inv rd_disk "\<lambda>_ _ _. True"
proof (unfold_locales, goal_cases)
  case (4 d pos buf)
  then show ?case
    using RAMDisk_ReadAt_in [OF 4(1), of pos buf]
    by (simp add: ramdisk_ops_def whole_blocks_def ramdisk_inv_def ramdisk_wf_def)
next
  case (5 d pos buf)
  then show ?case
    using RAMDisk_WriteAt_in [OF 5(1), of pos buf]
      ramdisk_inv_write [OF 5(1) whole_blocks_nat [OF 5(2)]]
    by (simp add: ramdisk_ops_def whole_blocks_def ramdisk_inv_def ramdisk_wf_def)
qed (simp_all add: ramdisk_ops_def ramdisk_defs)

interpretation rdb: byte_device ramdisk_ops ramdisk_inv rd_disk "\<lambda>d. rd_atomicOnline d \<noteq> 1"
proof (unfold_locales, goal_cases)
  case (1 d pos buf)
  then show ?case
    using RAMDisk_ReadAt_in [OF 1(1,2), of buf] by (simp add: ramdisk_ops_def ramdisk_inv_def ramdisk_wf_def)
next
  case (2 d buf)
  then have "wrap64 (rd_size d + int (length buf)) = rd_size d + int (length buf)"
    by (intro wrap64_id in64_nonneg) (auto simp: ramdisk_defs)
  with 2 show ?case by (simp add: ramdisk_ops_def ramdisk_defs Let_def)
next
  case (3 d pos buf)
  then show ?case
    using RAMDisk_WriteAt_in [OF 3(1,2), of buf] ramdisk_inv_write [OF 3(1), of pos buf]
    by (simp add: ramdisk_ops_def ramdisk_inv_def ramdisk_wf_def)
qed (simp_all add: ramdisk_ops_def ramdisk_defs)

section \<open>Behaviour outside the contract\<close>

text \<open>The end of the request as the code computes it, and when it is in range.\<close>

lemma wrap64_sum:
  assumes "in64 pos" "n < 2 ^ 63" "0 \<le> n"
  shows "wrap64 (pos + n) = (if pos + n < 2 ^ 63 then pos + n else pos + n - 2 ^ 64)"
proof (cases "pos + n < 2 ^ 63")
  case True
  then show ?thesis
    using assms by (subst wrap64_id) (auto simp: in64_def)
next
  case False
  then show ?thesis
    using assms by (subst wrap64_numeral_overflow) (auto simp: in64_def)
qed

section \<open>Properties\<close>

text \<open>
  C6: a memory disk answers a session of valid NBD messages (whole-block reads and writes inside
  the device, flushes and trims, in any number and order, ended by a disconnect) with exactly the
  reply bytes a flat byte array of that size would send, and ends with the contents of that array,
  whatever the pooled request and response held before.
\<close>

theorem ramdisk_session:
  assumes "ramdisk_inv d" "\<forall>m \<in> set ms. valid_msg (length (rd_disk d)) m"
    and "wf_request req" "rs_respBuffer resp \<noteq> None" "os_budget out = None" "length h0 = ndbHandleLen"
  shows "\<exists>d'. session (length ms + Suc fuel) ramdisk_ops DefaultBlockSizeBytes req resp d
      (concat (map encode_msg ms) @ nbd_request_msg nbdDisconnect h0 0 [] 0 @ junk) out =
      Some (Ret (d', out\<lparr>os_out := os_out out @ fst (flat_session (rd_disk d) ms)\<rparr>))
    \<and> ramdisk_inv d' \<and> rd_disk d' = snd (flat_session (rd_disk d) ms)"
  by (rule rd.session_refines) (use assms in simp_all)

theorem ramdisk_session_witness:
  "\<exists>d'. session 3 ramdisk_ops DefaultBlockSizeBytes newRequest newResponse
      \<lparr>rd_disk = zeros 8192, rd_size = 8192, rd_atomicOnline = 1\<rparr>
      (concat (map encode_msg [(zeros 8, OpWrite 4096 (replicate 4096 7)), (zeros 8, OpRead 4096 4096)])
       @ nbd_request_msg nbdDisconnect (zeros 8) 0 [] 0 @ []) \<lparr>os_out = [], os_budget = None\<rparr> =
      Some (Ret (d', \<lparr>os_out = nbd_simple_reply 0 (zeros 8) []
        @ nbd_simple_reply 0 (zeros 8) (replicate 4096 7), os_budget = None\<rparr>))"
proof -
  let ?d = "\<lparr>rd_disk = zeros 8192, rd_size = 8192, rd_atomicOnline = 1\<rparr>"
  let ?ms = "[(zeros 8, OpWrite 4096 (replicate 4096 7)), (zeros 8, OpRead 4096 4096)]"
  have v: "\<forall>m \<in> set ?ms. valid_msg (length (rd_disk ?d)) m"
    by (simp add: valid_msg_def ndbHandleLen_def whole_blocks_def DefaultBlockSizeBytes_def)
  have f: "fst (flat_session (rd_disk ?d) ?ms) =
      nbd_simple_reply 0 (zeros 8) [] @ nbd_simple_reply 0 (zeros 8) (replicate 4096 7)"
    using chunk_blit_same [of 4096 "replicate 4096 7" "zeros 8192"]
    by (simp add: nbdRespSuccess_def)
  from ramdisk_session [OF _ v, of newRequest newResponse "\<lparr>os_out = [], os_budget = None\<rparr>" "zeros 8" 0 "[]"] f
  show ?thesis
    by (auto simp: ramdisk_inv_def ramdisk_wf_def newResponse_def ndbHandleLen_def numeral_3_eq_3)
qed

text \<open>
  C26: the bounds check of the memory disk lets exactly two kinds of requests through to a run-time
  panic of the daemon: negative positions whose end is inside the disk, and positions so large
  that the end of the request wraps around; every other request on a well-formed disk returns.
\<close>

theorem ramdisk_panics_iff:
  assumes "ramdisk_wf rdsk" "in64 pos" "int (length buf) < 2 ^ 63"
  shows "(RAMDisk_ReadAt rdsk buf pos = Panic) =
      (rd_atomicOnline rdsk = 1 \<and>
        (pos < 0 \<and> pos + int (length buf) \<le> rd_size rdsk \<or> 2 ^ 63 \<le> pos + int (length buf)))
    \<and> (RAMDisk_WriteAt rdsk buf pos = Panic) = (RAMDisk_ReadAt rdsk buf pos = Panic)"
proof -
  have w: "wrap64 (pos + int (length buf)) =
      (if pos + int (length buf) < 2 ^ 63 then pos + int (length buf) else pos + int (length buf) - 2 ^ 64)"
    using assms by (intro wrap64_sum) auto
  have b: "go_bind (go_slice xs lo hi) (\<lambda>s. Ret (f s)) = Panic \<longleftrightarrow> go_slice xs lo hi = Panic"
    for xs :: bytes and lo hi and f :: "bytes \<Rightarrow> 'a"
    by (cases "go_slice xs lo hi") auto
  have "(RAMDisk_ReadAt rdsk buf pos = Panic) =
      (rd_atomicOnline rdsk = 1 \<and>
        (pos < 0 \<and> pos + int (length buf) \<le> rd_size rdsk \<or> 2 ^ 63 \<le> pos + int (length buf)))"
    using assms
    by (auto simp: RAMDisk_ReadAt_def Let_def w b go_slice_panic_iff ramdisk_wf_def in64_def)
  moreover have "(RAMDisk_WriteAt rdsk buf pos = Panic) = (RAMDisk_ReadAt rdsk buf pos = Panic)"
    by (auto simp: RAMDisk_ReadAt_def RAMDisk_WriteAt_def Let_def b)
  ultimately show ?thesis ..
qed

theorem ramdisk_panics_iff_witness:
  "RAMDisk_ReadAt \<lparr>rd_disk = zeros 8192, rd_size = 8192, rd_atomicOnline = 1\<rparr> (zeros 4096) (- 4096) = Panic"
  using ramdisk_panics_iff [of "\<lparr>rd_disk = zeros 8192, rd_size = 8192, rd_atomicOnline = 1\<rparr>"
      "- 4096" "zeros 4096"]
  by (simp add: ramdisk_wf_def in64_def)

end
