(* ===== verification/Filedisk.thy ===== *)
theory Filedisk
  imports Reqproc OsFile
begin

text \<open>
  The file backed device of \<^verbatim>\<open>src/pkg/devices/filedisk/filedisk.go\<close>. The device embeds its
  \<^verbatim>\<open>*os.File\<close>, so reads, writes and closing are the file's own; the constructor fills a new
  file with zeros through a buffered writer.
\<close>

section \<open>Definitions\<close>

record filedisk =
  fd_File :: osfile
  fd_SizeBytes :: i64

text \<open>
  The constructor, given what the operating system answers to \<^verbatim>\<open>os.OpenFile\<close> and whether
  \<^verbatim>\<open>Stat\<close> on the opened file fails.
\<close>

definition NewFileDisk :: "goerr + osfile \<Rightarrow> goerr option \<Rightarrow> i64 \<Rightarrow> goerr + filedisk" where
  "NewFileDisk opened statErr ifCreateSize =
    (case opened of
       Inl e \<Rightarrow> Inl (Wrap ''Could not open backing file'' e)
     | Inr f \<Rightarrow>
    (case statErr of
       Some e \<Rightarrow> Inl (Wrap ''Could not stat backing file'' e)
     | None \<Rightarrow>
    (if length (fdata f) < 1 then
       (case bw_WriteBytes (bw_new f) (zeros (nat ifCreateSize)) of
          (Some e, _) \<Rightarrow> Inl (Wrap ''Could not zero fill backing file, write failed'' e)
        | (None, w) \<Rightarrow>
       (case bw_Flush w of
          (Some e, _) \<Rightarrow> Inl (Wrap ''Could not zero fill backing file, flush failed'' e)
        | (None, w) \<Rightarrow>
       (case file_Sync (bw_file w) of
          Some e \<Rightarrow> Inl (Wrap ''Could not zero fill backing file, sync failed'' e)
        | None \<Rightarrow> Inr \<lparr>fd_File = bw_file w, fd_SizeBytes = ifCreateSize\<rparr>)))
     else Inr \<lparr>fd_File = f, fd_SizeBytes = int (length (fdata f))\<rparr>)))"

definition FileDisk_Size :: "filedisk \<Rightarrow> i64" where
  "FileDisk_Size fdsk = fd_SizeBytes fdsk"

definition FileDisk_ReadAt ::
  "filedisk \<Rightarrow> bytes \<Rightarrow> i64 \<Rightarrow> (int \<times> goerr option \<times> bytes \<times> filedisk) go" where
  "FileDisk_ReadAt fdsk buf pos =
     (case file_ReadAt (fd_File fdsk) buf pos of (n, err, buf) \<Rightarrow> Ret (n, err, buf, fdsk))"

definition FileDisk_WriteAt :: "filedisk \<Rightarrow> bytes \<Rightarrow> i64 \<Rightarrow> (int \<times> goerr option \<times> filedisk) go" where
  "FileDisk_WriteAt fdsk buf pos =
     (case file_WriteAt (fd_File fdsk) buf pos of (n, err, f) \<Rightarrow> Ret (n, err, fdsk\<lparr>fd_File := f\<rparr>))"

definition FileDisk_Trim :: "filedisk \<Rightarrow> i64 \<Rightarrow> int \<Rightarrow> (goerr option \<times> filedisk) go" where
  "FileDisk_Trim fdsk pos n = Ret (None, fdsk)"

definition FileDisk_Flush :: "filedisk \<Rightarrow> (goerr option \<times> filedisk) go" where
  "FileDisk_Flush fdsk = Ret (file_Sync (fd_File fdsk), fdsk)"

definition FileDisk_Close :: "filedisk \<Rightarrow> (goerr option \<times> filedisk) go" where
  "FileDisk_Close fdsk =
     (case file_Close (fd_File fdsk) of (err, f) \<Rightarrow> Ret (err, fdsk\<lparr>fd_File := f\<rparr>))"

definition filedisk_ops :: "filedisk dev_ops" where
  "filedisk_ops = \<lparr>dev_Size = FileDisk_Size, dev_BlockSize = (\<lambda>_. DefaultBlockSizeBytes),
     dev_ReadAt = FileDisk_ReadAt, dev_WriteAt = FileDisk_WriteAt, dev_Trim = FileDisk_Trim,
     dev_Flush = FileDisk_Flush, dev_Close = FileDisk_Close\<rparr>"

definition fd_content :: "filedisk \<Rightarrow> bytes" where
  "fd_content fdsk = fdata (fd_File fdsk)"

definition filedisk_inv :: "filedisk \<Rightarrow> bool" where
  "filedisk_inv fdsk \<longleftrightarrow> healthy (fd_File fdsk)
     \<and> fd_SizeBytes fdsk = int (length (fd_content fdsk)) \<and> fd_SizeBytes fdsk < 2 ^ 63"

section \<open>The contract\<close>

interpretation fd: block_device filedisk_ops filedisk_inv fd_content "\<lambda>_ _ _. True"
proof (unfold_locales, goal_cases)
  case (4 d pos buf)
  then show ?case
    by (simp add: filedisk_ops_def filedisk_inv_def FileDisk_ReadAt_def fd_content_def
        whole_blocks_def file_ReadAt_in)
next
  case (5 d pos buf)
  then have "nat pos + length buf \<le> length (fd_content d)"
    by (intro whole_blocks_nat)
  with 5 show ?case
    by (simp add: filedisk_ops_def filedisk_inv_def FileDisk_WriteAt_def fd_content_def
        whole_blocks_def file_WriteAt_healthy store_blit)
qed (simp_all add: filedisk_ops_def filedisk_inv_def FileDisk_Size_def fd_content_def
      FileDisk_Trim_def FileDisk_Flush_def file_Sync_healthy)

interpretation fdb: byte_device filedisk_ops filedisk_inv fd_content "\<lambda>d. fclosed (fd_File d)"
proof (unfold_locales, goal_cases)
  case (1 d pos buf)
  then show ?case
    by (simp add: filedisk_ops_def filedisk_inv_def FileDisk_ReadAt_def fd_content_def file_ReadAt_in)
next
  case (3 d pos buf)
  then have "nat pos + length buf \<le> length (fd_content d)" by linarith
  with 3 show ?case
    by (simp add: filedisk_ops_def filedisk_inv_def FileDisk_WriteAt_def fd_content_def file_WriteAt_healthy store_blit)
qed (simp_all add: filedisk_ops_def filedisk_inv_def FileDisk_ReadAt_def FileDisk_WriteAt_def FileDisk_Close_def
      FileDisk_Flush_def fd_content_def chunk_def file_ReadAt_def file_WriteAt_def file_Sync_def
      file_Close_def healthy_def)

lemma NewFileDisk_ok:
  assumes "healthy f" "fpos f = 0" "0 \<le> sz" "sz < 2 ^ 63" "int (length (fdata f)) < 2 ^ 63"
  shows "\<exists>d. NewFileDisk (Inr f) None sz = Inr d \<and> filedisk_inv d
    \<and> fd_content d = (if fdata f = [] then zeros (nat sz) else fdata f)
    \<and> FileDisk_Size d = (if fdata f = [] then sz else int (length (fdata f)))"
proof (cases "fdata f = []")
  case True
  then have "bw_ok (bw_new f)"
    using assms(1,2) by (intro bw_ok_new) auto
  then obtain w where w: "bw_WriteBytes (bw_new f) (zeros (nat sz)) = (None, w)" "bw_ok w"
    "bw_content w = zeros (nat sz)"
    by (rule bw_WriteBytes_ok) (use True in \<open>auto simp: bw_content_new\<close>)
  obtain w' where w': "bw_Flush w = (None, w')" "bw_ok w'" "fdata (bw_file w') = zeros (nat sz)"
    using bw_Flush_ok [OF w(2)] w(3) by metis
  then show ?thesis
    using True w assms(3,4)
    by (auto simp: NewFileDisk_def bw_ok_def file_Sync_healthy filedisk_inv_def fd_content_def
        FileDisk_Size_def)
next
  case False
  with assms show ?thesis
    by (auto simp: NewFileDisk_def filedisk_inv_def fd_content_def FileDisk_Size_def less_Suc_eq_0_disj)
qed

section \<open>Properties\<close>

text \<open>
  C27: creating a file disk of a given size on a new, empty file succeeds and gives a device of
  exactly that size, all zeros, that keeps the device contract; opening a file that already has
  data keeps its contents and takes its length as the size. Any failing system call on the way is
  an error, never a device.
\<close>

theorem NewFileDisk_correct:
  assumes "healthy f" "fpos f = 0" "0 \<le> sz" "sz < 2 ^ 63" "int (length (fdata f)) < 2 ^ 63"
  shows "\<exists>d. NewFileDisk (Inr f) None sz = Inr d \<and> filedisk_inv d
    \<and> fd_content d = (if fdata f = [] then zeros (nat sz) else fdata f)
    \<and> FileDisk_Size d = (if fdata f = [] then sz else int (length (fdata f)))"
  by (rule NewFileDisk_ok [OF assms])

theorem NewFileDisk_correct_witness:
  "\<exists>d. NewFileDisk (Inr (new_file [])) None 8192 = Inr d \<and> filedisk_inv d \<and> fd_content d = zeros 8192"
  using NewFileDisk_correct [of "new_file []" 8192] by auto

text \<open>
  C12: a file disk on a healthy file answers a session of valid NBD messages with exactly the reply
  bytes of a flat byte array holding the file's contents, and leaves that array in the file.
\<close>

theorem filedisk_session:
  assumes "filedisk_inv d" "\<forall>m \<in> set ms. valid_msg (length (fd_content d)) m"
    and "wf_request req" "rs_respBuffer resp \<noteq> None" "os_budget out = None" "length h0 = ndbHandleLen"
  shows "\<exists>d'. session (length ms + Suc fuel) filedisk_ops DefaultBlockSizeBytes req resp d
      (concat (map encode_msg ms) @ nbd_request_msg nbdDisconnect h0 0 [] 0 @ junk) out =
      Some (Ret (d', out\<lparr>os_out := os_out out @ fst (flat_session (fd_content d) ms)\<rparr>))
    \<and> filedisk_inv d' \<and> fd_content d' = snd (flat_session (fd_content d) ms)"
  by (rule fd.session_refines) (use assms in simp_all)

theorem filedisk_session_witness:
  "\<exists>d'. session (Suc (Suc 0)) filedisk_ops DefaultBlockSizeBytes newRequest newResponse
      \<lparr>fd_File = new_file (replicate 4096 3), fd_SizeBytes = 4096\<rparr>
      (concat (map encode_msg [(zeros 8, OpRead 0 4096)])
       @ nbd_request_msg nbdDisconnect (zeros 8) 0 [] 0 @ []) \<lparr>os_out = [], os_budget = None\<rparr> =
      Some (Ret (d', \<lparr>os_out = nbd_simple_reply 0 (zeros 8) (replicate 4096 3), os_budget = None\<rparr>))"
  using filedisk_session [of "\<lparr>fd_File = new_file (replicate 4096 3), fd_SizeBytes = 4096\<rparr>"
      "[(zeros 8, OpRead 0 4096)]" newRequest newResponse "\<lparr>os_out = [], os_budget = None\<rparr>" "zeros 8" 0 "[]"]
  by (auto simp: filedisk_inv_def fd_content_def valid_msg_def ndbHandleLen_def whole_blocks_def
      DefaultBlockSizeBytes_def newResponse_def nbdRespSuccess_def chunk_def)

end
