(* ===== verification/Pipeline.thy ===== *)
theory Pipeline
  imports Reqproc "HOL-Library.Multiset"
begin

text \<open>
  The concurrent request processor of \<^verbatim>\<open>src/pkg/usbdlib/reqproc.go\<close>: the stream reader, the
  bounded request and reply queues, the I/O workers and the stream writer, as a step relation
  on their shared state. Every interleaving of the goroutines is a sequence of steps; a device
  operation is one step.

  The reader takes a read lock on the current flush mutex for every write and trim, hands the
  mutex to a flush and replaces it by a new one. A mutex is a number here and \<open>p_rlocks\<close> counts
  its read locks; the write lock of a flush is granted when the count is zero. The context may
  be cancelled at any time (\<open>cancel\<close>), which the reader notices at the top of its loop; a decoding
  error closes the command stream, so nothing more can be written to it. The queues are closed
  in the order of \<open>processRequests\<close>, and the device is closed when the workers have ended.
  Each received request gets a serial number, and the lists \<open>p_recv\<close>, \<open>p_done\<close> and \<open>p_sent\<close>
  record what was received, executed and answered; no step reads them.
\<close>

section \<open>State\<close>

text \<open>A request in the pipeline: its serial number, the request, the flush mutex it carries.\<close>

record entry =
  e_id :: nat
  e_req :: request
  e_mu :: "nat option"

text \<open>Where the stream reader is in its loop: at the check of the context, decoding, sending.\<close>

datatype reader = AtTop | Decoding | Sending entry | Stopped

record 'd pipe =
  p_in :: bytes
  p_rd :: reader
  p_cancel :: bool
  p_crashed :: bool
  p_mu :: nat
  p_rlocks :: "nat \<Rightarrow> nat"
  p_reqQ :: "entry list"
  p_run :: "entry list"
  p_held :: "response list"
  p_respQ :: "response list"
  p_out :: ostrm
  p_dev :: 'd
  p_result :: "goerr option option"
  p_recv :: "entry list"
  p_done :: "entry list"
  p_sent :: "bytes list"

definition reqQueueCap :: nat where "reqQueueCap = 64"
definition respQueueCap :: nat where "respQueueCap = 32"

definition pipe_init :: "bytes \<Rightarrow> ostrm \<Rightarrow> 'd \<Rightarrow> 'd pipe" where
  "pipe_init strm out dev = \<lparr>p_in = strm, p_rd = AtTop, p_cancel = False, p_crashed = False,
     p_mu = 0, p_rlocks = (\<lambda>_. 0), p_reqQ = [], p_run = [], p_held = [],
     p_respQ = [], p_out = out, p_dev = dev, p_result = None, p_recv = [], p_done = [], p_sent = []\<rparr>"

abbreviation is_wt :: "entry \<Rightarrow> bool" where
  "is_wt x \<equiv> rq_reqType (e_req x) = nbdWrite \<or> rq_reqType (e_req x) = nbdTrim"

abbreviation is_flush :: "entry \<Rightarrow> bool" where
  "is_flush x \<equiv> rq_reqType (e_req x) = nbdFlush"

text \<open>The handle that a reply carries: what follows the magic and the error code.\<close>

definition reply_handle :: "response \<Rightarrow> bytes" where
  "reply_handle r = (case rs_respBuffer r of None \<Rightarrow> [] | Some b \<Rightarrow> drop 8 b)"

section \<open>Steps\<close>

text \<open>The stream reader, after a request was decoded: take or hand over the flush mutex.\<close>

definition receive :: "'d pipe \<Rightarrow> request \<Rightarrow> bytes \<Rightarrow> 'd pipe" where
  "receive s req rest =
     (let wt = (rq_reqType req = nbdWrite \<or> rq_reqType req = nbdTrim);
          fl = (rq_reqType req = nbdFlush);
          x = \<lparr>e_id = length (p_recv s), e_req = req,
               e_mu = (if wt \<or> fl then Some (p_mu s) else None)\<rparr>
      in s\<lparr>p_in := rest,
           p_rlocks := (if wt then (p_rlocks s)(p_mu s := Suc (p_rlocks s (p_mu s))) else p_rlocks s),
           p_mu := (if fl then Suc (p_mu s) else p_mu s),
           p_rd := Sending x, p_recv := p_recv s @ [x]\<rparr>)"

text \<open>The locks after \<open>execute\<close>: a read lock is released on the request's own mutex.\<close>

definition release :: "entry \<Rightarrow> mu_effect \<Rightarrow> (nat \<Rightarrow> nat) \<Rightarrow> nat \<Rightarrow> nat" where
  "release x mu rl =
     (case (mu, e_mu x) of (RUnlockMu, Some m) \<Rightarrow> rl(m := rl m - 1) | _ \<Rightarrow> rl)"

text \<open>A flush waits for the write lock of the mutex it carries.\<close>

definition may_execute :: "'d pipe \<Rightarrow> entry \<Rightarrow> bool" where
  "may_execute s x \<longleftrightarrow> (is_flush x \<longrightarrow> (case e_mu x of None \<Rightarrow> True | Some m \<Rightarrow> p_rlocks s m = 0))"

inductive pstep :: "'d dev_ops \<Rightarrow> i64 \<Rightarrow> nat \<Rightarrow> 'd pipe \<Rightarrow> 'd pipe \<Rightarrow> bool"
  for ops :: "'d dev_ops" and bs :: i64 and W :: nat where
  cancel: "\<not> p_crashed s \<Longrightarrow> pstep ops bs W s (s\<lparr>p_cancel := True\<rparr>)"
| read_check: "\<not> p_crashed s \<Longrightarrow> p_rd s = AtTop \<Longrightarrow>
    pstep ops bs W s (s\<lparr>p_rd := (if p_cancel s then Stopped else Decoding)\<rparr>)"
| read_error: "\<not> p_crashed s \<Longrightarrow> p_rd s = Decoding \<Longrightarrow>
    wf_request pooled \<Longrightarrow> Decode pooled (p_in s) = (Some e, req, rest) \<Longrightarrow>
    pstep ops bs W s (s\<lparr>p_in := rest, p_rd := Stopped, p_cancel := True,
      p_out := (if p_cancel s then p_out s else (p_out s)\<lparr>os_budget := Some 0\<rparr>)\<rparr>)"
| read_disconnect: "\<not> p_crashed s \<Longrightarrow> p_rd s = Decoding \<Longrightarrow>
    wf_request pooled \<Longrightarrow> Decode pooled (p_in s) = (None, req, rest) \<Longrightarrow>
    rq_reqType req = nbdDisconnect \<Longrightarrow>
    pstep ops bs W s (s\<lparr>p_in := rest, p_rd := Stopped, p_cancel := True\<rparr>)"
| read_request: "\<not> p_crashed s \<Longrightarrow> p_rd s = Decoding \<Longrightarrow>
    wf_request pooled \<Longrightarrow> Decode pooled (p_in s) = (None, req, rest) \<Longrightarrow>
    rq_reqType req \<noteq> nbdDisconnect \<Longrightarrow>
    pstep ops bs W s (receive s req rest)"
| enqueue: "\<not> p_crashed s \<Longrightarrow> p_rd s = Sending x \<Longrightarrow> length (p_reqQ s) < reqQueueCap \<Longrightarrow>
    pstep ops bs W s (s\<lparr>p_rd := AtTop, p_reqQ := p_reqQ s @ [x]\<rparr>)"
| fetch: "\<not> p_crashed s \<Longrightarrow> p_reqQ s = x # q \<Longrightarrow> length (p_run s) + length (p_held s) < W \<Longrightarrow>
    pstep ops bs W s (s\<lparr>p_reqQ := q, p_run := p_run s @ [x]\<rparr>)"
| exec: "\<not> p_crashed s \<Longrightarrow> p_run s = xs @ x # ys \<Longrightarrow> may_execute s x \<Longrightarrow> rs_respBuffer pooled \<noteq> None \<Longrightarrow>
    execute ops bs (e_req x) (Some pooled) (p_dev s) = Ret (resp, dev, mu) \<Longrightarrow>
    pstep ops bs W s (s\<lparr>p_run := xs @ ys, p_rlocks := release x mu (p_rlocks s), p_dev := dev,
      p_held := p_held s @ [resp], p_done := p_done s @ [x]\<rparr>)"
| exec_panic: "\<not> p_crashed s \<Longrightarrow> p_run s = xs @ x # ys \<Longrightarrow> may_execute s x \<Longrightarrow> rs_respBuffer pooled \<noteq> None \<Longrightarrow>
    execute ops bs (e_req x) (Some pooled) (p_dev s) = Panic \<Longrightarrow>
    pstep ops bs W s (s\<lparr>p_crashed := True\<rparr>)"
| send: "\<not> p_crashed s \<Longrightarrow> p_held s = rs @ r # rs' \<Longrightarrow> length (p_respQ s) < respQueueCap \<Longrightarrow>
    pstep ops bs W s (s\<lparr>p_held := rs @ rs', p_respQ := p_respQ s @ [r]\<rparr>)"
| reply: "\<not> p_crashed s \<Longrightarrow> p_respQ s = r # rs \<Longrightarrow> resp_Write r (p_out s) = Ret (err, r', out) \<Longrightarrow>
    pstep ops bs W s (s\<lparr>p_respQ := rs, p_out := out, p_sent := p_sent s @ [reply_handle r]\<rparr>)"
| shutdown: "\<not> p_crashed s \<Longrightarrow> p_cancel s \<Longrightarrow> p_rd s = Stopped \<Longrightarrow> p_reqQ s = [] \<Longrightarrow>
    p_run s = [] \<Longrightarrow> p_held s = [] \<Longrightarrow> p_result s = None \<Longrightarrow>
    dev_Close ops (p_dev s) = Ret (err, dev) \<Longrightarrow>
    pstep ops bs W s (s\<lparr>p_dev := dev,
      p_result := Some (map_option (Wrap ''Could not close userspace device'') err)\<rparr>)"

inductive reachable :: "'d dev_ops \<Rightarrow> i64 \<Rightarrow> nat \<Rightarrow> bytes \<Rightarrow> ostrm \<Rightarrow> 'd \<Rightarrow> 'd pipe \<Rightarrow> bool"
  for ops :: "'d dev_ops" and bs :: i64 and W :: nat and strm :: bytes and out :: ostrm and dev :: 'd where
  start: "reachable ops bs W strm out dev (pipe_init strm out dev)"
| step: "reachable ops bs W strm out dev s \<Longrightarrow> pstep ops bs W s t \<Longrightarrow> reachable ops bs W strm out dev t"

section \<open>What is in the pipeline\<close>

definition queued :: "'d pipe \<Rightarrow> entry list" where
  "queued s = p_reqQ s @ (case p_rd s of Sending x \<Rightarrow> [x] | _ \<Rightarrow> [])"

definition flight :: "'d pipe \<Rightarrow> entry list" where
  "flight s = p_run s @ queued s"

text \<open>The writes that \<open>execute\<close> refuses as misaligned.\<close>

definition bad_write :: "i64 \<Rightarrow> entry \<Rightarrow> bool" where
  "bad_write bs x \<longleftrightarrow> rq_reqType (e_req x) = nbdWrite \<and> misaligned bs (e_req x) = Ret True"

text \<open>The flush mutexes of a sequence of received requests: each flush starts a new one.\<close>

fun tags_ok :: "nat \<Rightarrow> nat \<Rightarrow> entry list \<Rightarrow> bool" where
  "tags_ok n m [] = True"
| "tags_ok n m (x # xs) =
     (e_id x = n \<and>
      (if is_wt x then e_mu x = Some m \<and> tags_ok (Suc n) m xs
       else if is_flush x then e_mu x = Some m \<and> tags_ok (Suc n) (Suc m) xs
       else e_mu x = None \<and> tags_ok (Suc n) m xs))"

definition flushes :: "entry list \<Rightarrow> nat" where
  "flushes xs = length (filter is_flush xs)"

text \<open>The read locks that the requests of a list account for.\<close>

definition locks_of :: "nat \<Rightarrow> (entry \<Rightarrow> bool) \<Rightarrow> entry list \<Rightarrow> nat" where
  "locks_of m P xs = length (filter (\<lambda>x. P x \<and> e_mu x = Some m) xs)"

text \<open>
  The invariant: the received requests carry the right mutexes, each is in exactly one place,
  the read locks are those of the writes and trims in flight and of the misaligned writes
  already executed, and requests are handed to the workers in the order of receipt.
\<close>

definition tags_inv :: "'d pipe \<Rightarrow> bool" where
  "tags_inv s \<longleftrightarrow> tags_ok 0 0 (p_recv s) \<and> p_mu s = flushes (p_recv s)"

definition place_inv :: "'d pipe \<Rightarrow> bool" where
  "place_inv s \<longleftrightarrow> mset (p_recv s) = mset (flight s) + mset (p_done s) \<and>
     (\<exists>old. p_recv s = old @ queued s)"

definition locks_inv :: "i64 \<Rightarrow> 'd pipe \<Rightarrow> bool" where
  "locks_inv bs s \<longleftrightarrow> (\<forall>m. p_rlocks s m =
     locks_of m is_wt (flight s) + locks_of m (bad_write bs) (p_done s))"

definition reply_inv :: "'d pipe \<Rightarrow> bool" where
  "reply_inv s \<longleftrightarrow>
     image_mset reply_handle (mset (p_held s @ p_respQ s)) + mset (p_sent s) =
       image_mset (\<lambda>x. rq_handle (e_req x)) (mset (p_done s)) \<and>
     (\<forall>r \<in> set (p_held s @ p_respQ s). rs_respBuffer r \<noteq> None)"

definition close_inv :: "'d pipe \<Rightarrow> bool" where
  "close_inv s \<longleftrightarrow> (p_result s \<noteq> None \<longrightarrow> p_rd s = Stopped \<and> flight s = [])"

definition pipe_inv :: "i64 \<Rightarrow> 'd pipe \<Rightarrow> bool" where
  "pipe_inv bs s \<longleftrightarrow> tags_inv s \<and> place_inv s \<and> locks_inv bs s \<and> reply_inv s \<and> close_inv s"

section \<open>Facts on the mutex tags\<close>

lemma flushes_simps [simp]:
  "flushes [] = 0" "flushes (x # xs) = (if is_flush x then Suc (flushes xs) else flushes xs)"
  "flushes (xs @ ys) = flushes xs + flushes ys"
  by (simp_all add: flushes_def)

lemma locks_of_simps [simp]:
  "locks_of m P [] = 0"
  "locks_of m P (x # xs) = (if P x \<and> e_mu x = Some m then Suc (locks_of m P xs) else locks_of m P xs)"
  "locks_of m P (xs @ ys) = locks_of m P xs + locks_of m P ys"
  by (simp_all add: locks_of_def)

lemma locks_of_0: "locks_of m P xs = 0 \<longleftrightarrow> (\<forall>x \<in> set xs. P x \<longrightarrow> e_mu x \<noteq> Some m)"
  by (induction xs) auto

lemma nbd_types_distinct [simp]:
  "nbdRead \<noteq> nbdWrite" "nbdRead \<noteq> nbdFlush" "nbdRead \<noteq> nbdTrim" "nbdRead \<noteq> nbdDisconnect"
  "nbdWrite \<noteq> nbdRead" "nbdWrite \<noteq> nbdFlush" "nbdWrite \<noteq> nbdTrim" "nbdWrite \<noteq> nbdDisconnect"
  "nbdFlush \<noteq> nbdRead" "nbdFlush \<noteq> nbdWrite" "nbdFlush \<noteq> nbdTrim" "nbdFlush \<noteq> nbdDisconnect"
  "nbdTrim \<noteq> nbdRead" "nbdTrim \<noteq> nbdWrite" "nbdTrim \<noteq> nbdFlush" "nbdTrim \<noteq> nbdDisconnect"
  by (simp_all add: nbdRead_def nbdWrite_def nbdFlush_def nbdTrim_def nbdDisconnect_def)

lemma tags_ok_append:
  "tags_ok n m (xs @ ys) \<longleftrightarrow> tags_ok n m xs \<and> tags_ok (n + length xs) (m + flushes xs) ys"
  by (induction n m xs rule: tags_ok.induct) auto

text \<open>The request at position \<open>i\<close> has serial number \<open>i\<close> and, if it carries a mutex, the one that
  counts the flushes before it.\<close>

lemma tags_ok_nth:
  "tags_ok n m xs \<Longrightarrow> i < length xs \<Longrightarrow> e_id (xs ! i) = n + i \<and>
     e_mu (xs ! i) = (if is_wt (xs ! i) \<or> is_flush (xs ! i) then Some (m + flushes (take i xs)) else None)"
  by (induction n m xs arbitrary: i rule: tags_ok.induct) (force simp: less_Suc_eq_0_disj split: if_splits)+

lemma tags_ok_mem:
  "tags_ok n m xs \<Longrightarrow> x \<in> set xs \<Longrightarrow> e_mu x = None \<longleftrightarrow> \<not> is_wt x \<and> \<not> is_flush x"
  by (induction n m xs rule: tags_ok.induct) (auto split: if_splits)

lemma tags_ok_ge: "tags_ok n m xs \<Longrightarrow> x \<in> set xs \<Longrightarrow> e_mu x = Some k \<Longrightarrow> m \<le> k"
  by (induction n m xs rule: tags_ok.induct) (auto split: if_splits)

lemma tags_ok_flush_less:
  "tags_ok n m xs \<Longrightarrow> x \<in> set xs \<Longrightarrow> is_flush x \<Longrightarrow> e_mu x = Some k \<Longrightarrow> k < m + flushes xs"
  by (induction n m xs rule: tags_ok.induct) (auto split: if_splits)

lemma tags_ok_distinct: "tags_ok n m xs \<Longrightarrow> distinct (map e_id xs)"
  using tags_ok_nth by (force simp: distinct_conv_nth)

section \<open>The invariant holds in every reachable state\<close>

lemma execute_effect:
  assumes "execute ops bs req (Some p) d = Ret (resp, dev, mu)" "rs_respBuffer p \<noteq> None"
  shows "rs_respBuffer resp \<noteq> None \<and> reply_handle resp = rq_handle req \<and>
    (mu = RUnlockMu \<longleftrightarrow> rq_reqType req = nbdTrim \<or> (rq_reqType req = nbdWrite \<and> misaligned bs req \<noteq> Ret True))"
  using assms
  by (auto simp: execute_def Let_def resp_Set_ok reply_handle_def nbd_simple_reply_def GetReadBuffer_def
      go_bind_Ret_iff split: if_splits)

lemmas pipe_defs = pipe_init_def receive_def Let_def flight_def queued_def

lemma tags_inv_step:
  assumes "pstep ops bs W s t" "tags_inv s"
  shows "tags_inv t"
  using assms by cases (auto simp: tags_inv_def pipe_defs tags_ok_append)

lemma place_inv_step:
  assumes "pstep ops bs W s t" "place_inv s"
  shows "place_inv t"
  using assms by cases (auto simp: place_inv_def pipe_defs)

lemma locks_inv_step:
  assumes "pstep ops bs W s t" "tags_inv s" "place_inv s" "locks_inv bs s"
  shows "locks_inv bs t"
  using assms(1)
proof cases
  case (exec xs x ys pooled resp dev mu)
  have "x \<in># mset (p_recv s)"
    using assms(3) exec(3) by (simp add: place_inv_def flight_def)
  then have tag: "e_mu x = None \<longleftrightarrow> \<not> is_wt x \<and> \<not> is_flush x"
    using assms(2) tags_ok_mem [of 0 0 "p_recv s" x] by (simp add: tags_inv_def)
  have mu: "mu = RUnlockMu \<longleftrightarrow> is_wt x \<and> \<not> bad_write bs x"
    using execute_effect [OF exec(6,5)] by (auto simp: bad_write_def)
  show ?thesis
    using exec assms(4) tag mu
    by (cases "e_mu x"; cases mu) (auto simp: locks_inv_def flight_def queued_def release_def bad_write_def)
qed (use assms(4) in \<open>auto simp: locks_inv_def pipe_defs\<close>)

lemma reply_inv_step:
  assumes "pstep ops bs W s t" "reply_inv s"
  shows "reply_inv t"
  using assms(1)
proof cases
  case (exec xs x ys pooled resp dev mu)
  then show ?thesis
    using execute_effect [OF exec(6,5)] assms(2) by (auto simp: reply_inv_def)
qed (use assms(2) in \<open>auto simp: reply_inv_def pipe_defs\<close>)

lemma close_inv_step:
  assumes "pstep ops bs W s t" "close_inv s"
  shows "close_inv t"
  using assms by cases (auto simp: close_inv_def pipe_defs)

lemma reachable_inv: "reachable ops bs W strm out dev s \<Longrightarrow> pipe_inv bs s"
proof (induction rule: reachable.induct)
  case start
  show ?case
    by (simp add: pipe_inv_def tags_inv_def place_inv_def locks_inv_def reply_inv_def close_inv_def pipe_defs)
next
  case (step s t)
  then show ?case
    unfolding pipe_inv_def
    using tags_inv_step place_inv_step locks_inv_step reply_inv_step close_inv_step by meson
qed

text \<open>A request in flight, executed or received carries the tag of its position.\<close>

lemma place_recv:
  assumes "place_inv s"
  shows "set (p_recv s) = set (flight s) \<union> set (p_done s)"
  using assms by (auto simp: place_inv_def simp flip: set_mset_mset)

lemma locks_zero:
  assumes "locks_inv bs s" "place_inv s" "p_rlocks s m = 0" "y \<in> set (p_recv s)" "is_wt y" "e_mu y = Some m"
  shows "y \<in> set (p_done s) \<and> \<not> bad_write bs y"
proof -
  have "locks_of m is_wt (flight s) = 0" "locks_of m (bad_write bs) (p_done s) = 0"
    using assms(1,3) by (simp_all add: locks_inv_def)
  then have "y \<notin> set (flight s)" "y \<in> set (p_done s) \<Longrightarrow> \<not> bad_write bs y"
    using assms(5,6) unfolding locks_of_0 by blast+
  then show ?thesis using place_recv [OF assms(2)] assms(4) by blast
qed

text \<open>Every executed flush comes after all writes and trims of its mutex, none of them misaligned.\<close>

definition flush_inv :: "i64 \<Rightarrow> 'd pipe \<Rightarrow> bool" where
  "flush_inv bs s \<longleftrightarrow> (\<forall>before x after y m. p_done s = before @ x # after \<longrightarrow> is_flush x \<longrightarrow> e_mu x = Some m \<longrightarrow>
     y \<in> set (p_recv s) \<longrightarrow> is_wt y \<longrightarrow> e_mu y = Some m \<longrightarrow> y \<in> set before \<and> \<not> bad_write bs y)"

lemma flush_invD:
  assumes "flush_inv bs s" "p_done s = before @ x # after" "is_flush x" "e_mu x = Some m"
    and "y \<in> set (p_recv s)" "is_wt y" "e_mu y = Some m"
  shows "y \<in> set before \<and> \<not> bad_write bs y"
  using assms(1) [unfolded flush_inv_def, rule_format, OF assms(2-7)] .

lemma flush_inv_same:
  "flush_inv bs s \<Longrightarrow> p_done t = p_done s \<Longrightarrow> p_recv t = p_recv s \<Longrightarrow> flush_inv bs t"
  by (simp add: flush_inv_def)

lemma flush_inv_exec:
  assumes inv: "flush_inv bs s" "locks_inv bs s" "place_inv s" "may_execute s x"
    and t: "p_done t = p_done s @ [x]" "p_recv t = p_recv s"
  shows "flush_inv bs t"
  unfolding flush_inv_def
proof (intro allI impI)
  fix before z after y m
  assume z: "p_done t = before @ z # after" "is_flush z" "e_mu z = Some m"
    and y: "y \<in> set (p_recv t)" "is_wt y" "e_mu y = Some m"
  show "y \<in> set before \<and> \<not> bad_write bs y"
  proof (cases after rule: rev_cases)
    case Nil
    then have "z = x" "before = p_done s" using z(1) t(1) by auto
    then show ?thesis
      using locks_zero [OF inv(2,3)] inv(4) z y t(2) by (auto simp: may_execute_def)
  next
    case (snoc as a)
    then have "p_done s = before @ z # as" using z(1) t(1) by auto
    then show ?thesis using inv(1) z y t(2) unfolding flush_inv_def by metis
  qed
qed

lemma flush_inv_receive:
  assumes "flush_inv bs s" "tags_inv s" "place_inv s"
  shows "flush_inv bs (receive s req rest)"
  unfolding flush_inv_def
proof (intro allI impI)
  fix before z after y m
  assume z: "p_done (receive s req rest) = before @ z # after" "is_flush z" "e_mu z = Some m"
    and y: "y \<in> set (p_recv (receive s req rest))" "is_wt y" "e_mu y = Some m"
  have dn: "p_done s = before @ z # after" using z(1) by (simp add: receive_def Let_def)
  then have "z \<in> set (p_recv s)" using place_recv [OF assms(3)] by simp
  then have "m < p_mu s"
    using tags_ok_flush_less [of 0 0 "p_recv s" z m] z assms(2) by (simp add: tags_inv_def)
  then have "y \<in> set (p_recv s)" using y by (auto simp: receive_def Let_def split: if_splits)
  then show "y \<in> set before \<and> \<not> bad_write bs y"
    using assms(1) dn z y unfolding flush_inv_def by metis
qed

lemma reachable_flush_inv: "reachable ops bs W strm out dev s \<Longrightarrow> flush_inv bs s"
proof (induction rule: reachable.induct)
  case start
  show ?case by (simp add: flush_inv_def pipe_init_def)
next
  case (step s t)
  have inv: "tags_inv s" "place_inv s" "locks_inv bs s"
    using reachable_inv [OF step(1)] by (simp_all add: pipe_inv_def)
  from step(2) show ?case
  proof cases
    case read_request
    then show ?thesis using flush_inv_receive [OF step(3) inv(1,2)] by simp
  next
    case (exec xs x ys)
    show ?thesis by (rule flush_inv_exec [OF step(3) inv(3,2) exec(4)]) (simp_all add: exec(1))
  qed (rule flush_inv_same [OF step(3)]; simp)+
qed

section \<open>Progress\<close>

text \<open>The device operations return, and the block size is not zero.\<close>

definition never_panics :: "'d dev_ops \<Rightarrow> i64 \<Rightarrow> bool" where
  "never_panics ops bs \<longleftrightarrow> bs \<noteq> 0 \<and>
     (\<forall>d b p. dev_ReadAt ops d b p \<noteq> Panic) \<and> (\<forall>d b p. dev_WriteAt ops d b p \<noteq> Panic) \<and>
     (\<forall>d p n. dev_Trim ops d p n \<noteq> Panic) \<and> (\<forall>d. dev_Flush ops d \<noteq> Panic) \<and>
     (\<forall>d. dev_Close ops d \<noteq> Panic)"

text \<open>The work left: how many steps the requests in the pipeline still need.\<close>

definition work :: "'d pipe \<Rightarrow> nat" where
  "work s = 5 * length (queued s) - length (p_reqQ s) + 3 * length (p_run s) + 2 * length (p_held s)
     + length (p_respQ s)"

lemma go_not_Panic: "m \<noteq> Panic \<longleftrightarrow> (\<exists>x. m = Ret x)"
  by (cases m) auto

lemma execute_total:
  assumes "never_panics ops bs" "rs_respBuffer p \<noteq> None"
  shows "\<exists>resp dev mu. execute ops bs req (Some p) d = Ret (resp, dev, mu)"
proof -
  have ok: "\<And>d b p. \<exists>n e b' d'. dev_ReadAt ops d b p = Ret (n, e, b', d')"
    "\<And>d b p. \<exists>n e d'. dev_WriteAt ops d b p = Ret (n, e, d')"
    "\<And>d p n. \<exists>e d'. dev_Trim ops d p n = Ret (e, d')" "\<And>d. \<exists>e d'. dev_Flush ops d = Ret (e, d')"
    using assms(1) unfolding never_panics_def go_not_Panic by (metis surj_pair)+
  let ?b = "GetReadBuffer p req"
  show ?thesis
    using assms(2) ok(1) [of d "sl_get (rs_readBuffer ?b)" "rq_pos req"]
      ok(2) [of d "sl_get (rq_writeBuffer req)" "rq_pos req"] ok(3) [of d "rq_pos req" "rq_count req"] ok(4) [of d]
      assms(1)
    by (auto simp: execute_def Let_def misaligned_def never_panics_def resp_Set_ok GetReadBuffer_def)
qed

lemma resp_Write_total: "rs_respBuffer r \<noteq> None \<Longrightarrow> \<exists>err r' out'. resp_Write r out = Ret (err, r', out')"
  by (auto simp: resp_Write_def Let_def split: option.splits prod.splits)

text \<open>A flush that a worker holds waits only for requests that workers hold.\<close>

lemma flush_waits_for_running:
  assumes "pipe_inv bs s" "x \<in> set (p_run s)" "is_flush x" "e_mu x = Some m" "p_rlocks s m \<noteq> 0"
    and "\<forall>y \<in> set (p_recv s). \<not> bad_write bs y"
  shows "\<exists>y \<in> set (p_run s). is_wt y"
proof -
  have inv: "tags_ok 0 0 (p_recv s)" "place_inv s" "locks_inv bs s"
    using assms(1) by (simp_all add: pipe_inv_def tags_inv_def)
  obtain old where old: "p_recv s = old @ queued s" using inv(2) by (auto simp: place_inv_def)
  have "locks_of m (bad_write bs) (p_done s) = 0"
    using assms(6) place_recv [OF inv(2)] by (auto simp: locks_of_0)
  then have "locks_of m is_wt (flight s) \<noteq> 0" using assms(5) inv(3) by (simp add: locks_inv_def)
  then obtain y where y: "y \<in> set (flight s)" "is_wt y" "e_mu y = Some m" unfolding locks_of_0 by blast
  have "mset old = mset (p_run s) + mset (p_done s)"
    using inv(2) old by (simp add: place_inv_def flight_def)
  then have "x \<in># mset old" using assms(2) by simp
  then have "m < flushes old"
    using tags_ok_flush_less [of 0 0 old x m] inv(1) old assms(3,4) by (simp add: tags_ok_append)
  then have "y \<notin> set (queued s)"
    using tags_ok_ge [of "length old" "flushes old" "queued s" y m] inv(1) old y(3)
    by (auto simp: tags_ok_append)
  then show ?thesis using y by (auto simp: flight_def)
qed

lemma some_may_execute:
  assumes "pipe_inv bs s" "p_run s \<noteq> []" "\<forall>y \<in> set (p_recv s). \<not> bad_write bs y"
  shows "\<exists>x \<in> set (p_run s). may_execute s x"
proof (cases "\<exists>x \<in> set (p_run s). \<not> is_flush x")
  case True
  then show ?thesis by (auto simp: may_execute_def)
next
  case False
  obtain x where "x \<in> set (p_run s)" using assms(2) by (cases "p_run s") auto
  then show ?thesis
    using flush_waits_for_running [OF assms(1) _ _ _ _ assms(3)] False
    by (fastforce simp: may_execute_def split: option.splits)
qed

lemma work_witness:
  "pstep ops bs W s t \<Longrightarrow> work t < work s \<Longrightarrow> \<not> p_crashed t \<Longrightarrow> p_recv t = p_recv s \<Longrightarrow>
     \<exists>t. pstep ops bs W s t \<and> work t < work s \<and> \<not> p_crashed t \<and> p_recv t = p_recv s"
  by blast

text \<open>No request that a worker may hold panics.\<close>

definition executes :: "'d dev_ops \<Rightarrow> i64 \<Rightarrow> nat \<Rightarrow> bytes \<Rightarrow> ostrm \<Rightarrow> 'd \<Rightarrow> bool" where
  "executes ops bs W strm out dev \<longleftrightarrow>
     (\<forall>s. reachable ops bs W strm out dev s \<longrightarrow>
        (\<forall>x \<in> set (p_run s). execute ops bs (e_req x) (Some newResponse) (p_dev s) \<noteq> Panic))"

lemma never_panics_executes: "never_panics ops bs \<Longrightarrow> executes ops bs W strm out dev"
  unfolding executes_def
proof (intro allI impI ballI)
  fix s x assume "never_panics ops bs"
  then show "execute ops bs (e_req x) (Some newResponse) (p_dev s) \<noteq> Panic"
    using execute_total [of ops bs newResponse "e_req x" "p_dev s"] by (auto simp: newResponse_def)
qed

lemma work_step:
  assumes inv: "pipe_inv bs s" and live: "\<not> p_crashed s" "0 < W"
    and ex: "\<forall>x \<in> set (p_run s). execute ops bs (e_req x) (Some newResponse) (p_dev s) \<noteq> Panic"
    and aligned: "\<forall>y \<in> set (p_recv s). \<not> bad_write bs y" and left: "work s \<noteq> 0"
  shows "\<exists>t. pstep ops bs W s t \<and> work t < work s \<and> \<not> p_crashed t \<and> p_recv t = p_recv s"
proof -
  have buf: "\<forall>r \<in> set (p_held s @ p_respQ s). rs_respBuffer r \<noteq> None"
    using inv by (simp add: pipe_inv_def reply_inv_def)
  consider (reply) r rs where "p_respQ s = r # rs" | (send) r rs where "p_respQ s = []" "p_held s = r # rs"
    | (exec) "p_respQ s = []" "p_held s = []" "p_run s \<noteq> []"
    | (fetch) x q where "p_held s = []" "p_run s = []" "p_reqQ s = x # q"
    | (enqueue) x where "p_reqQ s = []" "p_rd s = Sending x"
    using left by (cases "p_respQ s"; cases "p_held s"; cases "p_run s"; cases "p_reqQ s"; cases "p_rd s")
      (auto simp: work_def queued_def)
  then show ?thesis
  proof cases
    case reply
    then obtain err r' out where "resp_Write r (p_out s) = Ret (err, r', out)"
      using resp_Write_total [of r "p_out s"] buf by auto
    from pstep.reply [OF live(1) reply this] show ?thesis
      by (rule work_witness) (simp_all add: work_def queued_def reply live)
  next
    case send
    have "pstep ops bs W s (s\<lparr>p_held := [] @ rs, p_respQ := p_respQ s @ [r]\<rparr>)"
      using send by (intro pstep.send live) (simp_all add: respQueueCap_def)
    then show ?thesis by (rule work_witness) (simp_all add: work_def queued_def send live)
  next
    case exec
    then obtain x xs ys where x: "p_run s = xs @ x # ys" "may_execute s x"
      using some_may_execute [OF inv _ aligned] by (metis split_list)
    obtain resp dev mu where "execute ops bs (e_req x) (Some newResponse) (p_dev s) = Ret (resp, dev, mu)"
      using ex x(1) by (cases "execute ops bs (e_req x) (Some newResponse) (p_dev s)") auto
    from pstep.exec [OF live(1) x _ this, of W] show ?thesis
      by (rule work_witness) (simp_all add: work_def queued_def exec live x newResponse_def)
  next
    case fetch
    from pstep.fetch [OF live(1) fetch(3), of W ops bs] show ?thesis
      by (rule work_witness) (simp_all add: work_def queued_def fetch live split: reader.splits)
  next
    case enqueue
    from pstep.enqueue [OF live(1) enqueue(2), of ops bs W] show ?thesis
      by (rule work_witness) (simp_all add: work_def queued_def enqueue live reqQueueCap_def)
  qed
qed

lemma reachable_trans:
  "(pstep ops bs W)\<^sup>*\<^sup>* s t \<Longrightarrow> reachable ops bs W strm out dev s \<Longrightarrow> reachable ops bs W strm out dev t"
  by (induction rule: rtranclp_induct) (auto intro: reachable.step)

lemma drain:
  assumes "reachable ops bs W strm out dev s" "\<not> p_crashed s" "executes ops bs W strm out dev" "0 < W"
    and "\<forall>y \<in> set (p_recv s). \<not> bad_write bs y"
  shows "\<exists>t. (pstep ops bs W)\<^sup>*\<^sup>* s t \<and> work t = 0 \<and> \<not> p_crashed t \<and> p_recv t = p_recv s"
  using assms
proof (induction "work s" arbitrary: s rule: less_induct)
  case less
  show ?case
  proof (cases "work s = 0")
    case False
    have "\<forall>x \<in> set (p_run s). execute ops bs (e_req x) (Some newResponse) (p_dev s) \<noteq> Panic"
      using less.prems(1,3) by (simp add: executes_def)
    from work_step [OF reachable_inv [OF less.prems(1)] less.prems(2,4) this less.prems(5) False]
    obtain t where t: "pstep ops bs W s t" "work t < work s" "\<not> p_crashed t" "p_recv t = p_recv s" by blast
    have "reachable ops bs W strm out dev t" using reachable.step [OF less.prems(1) t(1)] .
    from less.hyps [OF t(2) this t(3) less.prems(3,4)] less.prems(5) t show ?thesis
      by (metis converse_rtranclp_into_rtranclp)
  qed (use less.prems in auto)
qed

lemma work_zero:
  assumes "pipe_inv bs s" "work s = 0"
  shows "mset (p_done s) = mset (p_recv s) \<and>
    mset (p_sent s) = image_mset (\<lambda>x. rq_handle (e_req x)) (mset (p_recv s)) \<and>
    p_reqQ s = [] \<and> p_run s = [] \<and> p_held s = []"
proof -
  have "p_reqQ s = [] \<and> queued s = [] \<and> p_run s = [] \<and> p_held s = [] \<and> p_respQ s = []"
    using assms(2) by (auto simp: work_def queued_def split: reader.splits)
  then show ?thesis using assms(1) by (simp add: pipe_inv_def place_inv_def reply_inv_def flight_def)
qed

lemma stopped_step:
  assumes "pstep ops bs W s t" "p_rd s = Stopped" "p_cancel s"
  shows "p_rd t = Stopped \<and> p_cancel t"
  using assms by cases (auto simp: receive_def Let_def)

lemma stopped_steps:
  "(pstep ops bs W)\<^sup>*\<^sup>* s t \<Longrightarrow> p_rd s = Stopped \<Longrightarrow> p_cancel s \<Longrightarrow> p_rd t = Stopped \<and> p_cancel t"
  by (induction rule: rtranclp_induct) (auto dest: stopped_step)

lemma shutdown_run:
  assumes "reachable ops bs W strm out dev s" "\<not> p_crashed s" "never_panics ops bs" "0 < W"
    and "\<forall>y \<in> set (p_recv s). \<not> bad_write bs y" "p_rd s = Stopped" "p_cancel s"
  shows "\<exists>t. (pstep ops bs W)\<^sup>*\<^sup>* s t \<and> work t = 0 \<and> p_recv t = p_recv s \<and> p_result t \<noteq> None"
proof -
  obtain t where t: "(pstep ops bs W)\<^sup>*\<^sup>* s t" "work t = 0" "\<not> p_crashed t" "p_recv t = p_recv s"
    using drain [OF assms(1,2) never_panics_executes [OF assms(3)] assms(4,5)] by blast
  have inv: "pipe_inv bs t" using reachable_trans [OF t(1) assms(1)] by (rule reachable_inv)
  show ?thesis
  proof (cases "p_result t")
    case None
    obtain err d where d: "dev_Close ops (p_dev t) = Ret (err, d)"
      using assms(3) by (cases "dev_Close ops (p_dev t)") (auto simp: never_panics_def)
    have st: "p_rd t = Stopped" "p_cancel t" using stopped_steps [OF t(1) assms(6,7)] by simp_all
    have idle: "p_reqQ t = []" "p_run t = []" "p_held t = []" using work_zero [OF inv t(2)] by simp_all
    let ?u = "t\<lparr>p_dev := d, p_result := Some (map_option (Wrap ''Could not close userspace device'') err)\<rparr>"
    have "(pstep ops bs W)\<^sup>*\<^sup>* s ?u"
      using t(1) pstep.shutdown [OF t(3) st(2,1) idle None d] by (rule rtranclp.rtrancl_into_rtrancl)
    moreover have "work ?u = 0" "p_recv ?u = p_recv s" "p_result ?u \<noteq> None"
      using t(2,4) by (simp_all add: work_def queued_def)
    ultimately show ?thesis by blast
  qed (use t in auto)
qed

end
