(* ===== verification/Pipeline_Props.thy ===== *)
theory Pipeline_Props
  imports Pipeline Ramdisk Filedisk
begin

text \<open>
  The guarantees of the concurrent request processor: what a flush waits for and what it does not,
  that every request is executed and answered exactly once, that the device is closed last, and
  that the pipeline drains. The first section builds the runs on which they are exercised.
\<close>

section \<open>Runs\<close>

text \<open>A received request is the decoded form of a message.\<close>

fun carries :: "entry \<Rightarrow> nbd_msg \<Rightarrow> bool" where
  "carries x (h, OpRead off len) \<longleftrightarrow> rq_handle (e_req x) = h \<and> rq_reqType (e_req x) = nbdRead \<and>
     rq_pos (e_req x) = sint off \<and> rq_count (e_req x) = int (unat len)"
| "carries x (h, OpWrite off data) \<longleftrightarrow> rq_handle (e_req x) = h \<and> rq_reqType (e_req x) = nbdWrite \<and>
     rq_pos (e_req x) = sint off \<and> rq_count (e_req x) = int (length data) \<and>
     sl_get (rq_writeBuffer (e_req x)) = data"
| "carries x (h, OpFlush) \<longleftrightarrow> rq_handle (e_req x) = h \<and> rq_reqType (e_req x) = nbdFlush"
| "carries x (h, OpTrim off len) \<longleftrightarrow> rq_handle (e_req x) = h \<and> rq_reqType (e_req x) = nbdTrim \<and>
     rq_pos (e_req x) = sint off \<and> rq_count (e_req x) = int (unat len)"

definition sendable :: "nbd_msg \<Rightarrow> bool" where
  "sendable m \<longleftrightarrow> length (fst m) = ndbHandleLen \<and>
     (case snd m of OpWrite off data \<Rightarrow> length data < 2 ^ 32 | _ \<Rightarrow> True)"

lemma Decode_carries:
  assumes "sendable m" "wf_request pooled"
  shows "\<exists>req. Decode pooled (encode_msg m @ rest) = (None, req, rest) \<and>
    rq_reqType req \<noteq> nbdDisconnect \<and> (\<forall>i mu. carries \<lparr>e_id = i, e_req = req, e_mu = mu\<rparr> m)"
proof (cases m)
  case (Pair h op)
  have wf: "wf_request pooled" "length h = ndbHandleLen"
    using assms Pair by (simp_all add: sendable_def)
  show ?thesis
  proof (cases op)
    case (OpRead off len)
    show ?thesis unfolding Pair OpRead encode_msg.simps
      by (rule Decode_msg [OF wf, of nbdRead len "[]" off rest]) (use Pair OpRead in \<open>auto\<close>)
  next
    case (OpWrite off data)
    have len: "unat (of_nat (length data) :: u32) = length data"
      using assms Pair OpWrite by (simp add: sendable_def unat_of_nat)
    show ?thesis unfolding Pair OpWrite encode_msg.simps
      by (rule Decode_msg [OF wf, of nbdWrite "of_nat (length data)" data off rest])
        (use Pair OpWrite len in \<open>auto\<close>)
  next
    case OpFlush
    show ?thesis unfolding Pair OpFlush encode_msg.simps
      by (rule Decode_msg [OF wf, of nbdFlush 0 "[]" 0 rest]) (use Pair OpFlush in \<open>auto\<close>)
  next
    case (OpTrim off len)
    show ?thesis unfolding Pair OpTrim encode_msg.simps
      by (rule Decode_msg [OF wf, of nbdTrim len "[]" off rest]) (use Pair OpTrim in \<open>auto\<close>)
  qed
qed

text \<open>The messages \<open>ms\<close> have been received and workers hold all of them.\<close>

definition loaded :: "bytes \<Rightarrow> ostrm \<Rightarrow> 'd \<Rightarrow> nbd_msg list \<Rightarrow> 'd pipe \<Rightarrow> bool" where
  "loaded rest out dev ms s \<longleftrightarrow> p_in s = rest \<and> p_rd s = AtTop \<and> \<not> p_cancel s \<and> \<not> p_crashed s \<and>
     p_reqQ s = [] \<and> p_run s = p_recv s \<and> p_held s = [] \<and> p_respQ s = [] \<and> p_out s = out \<and> p_dev s = dev \<and>
     p_done s = [] \<and> p_sent s = [] \<and> p_result s = None \<and> list_all2 carries (p_recv s) ms"

lemma receive_all:
  "list_all sendable ms \<Longrightarrow> length ms \<le> W \<Longrightarrow>
   \<exists>s. reachable ops bs W (concat (map encode_msg ms) @ rest) out dev s \<and> loaded rest out dev ms s"
proof (induction ms arbitrary: rest rule: rev_induct)
  case Nil
  show ?case using reachable.start by (fastforce simp: loaded_def pipe_init_def)
next
  case (snoc m ms)
  let ?strm = "concat (map encode_msg (ms @ [m])) @ rest"
  obtain s where s: "reachable ops bs W ?strm out dev s" "loaded (encode_msg m @ rest) out dev ms s"
    using snoc.IH [of "encode_msg m @ rest"] snoc.prems by auto
  obtain req where req: "Decode newRequest (encode_msg m @ rest) = (None, req, rest)"
    "rq_reqType req \<noteq> nbdDisconnect" "\<forall>i mu. carries \<lparr>e_id = i, e_req = req, e_mu = mu\<rparr> m"
    using Decode_carries [of m newRequest rest] snoc.prems by auto
  define t where "t = receive (s\<lparr>p_rd := Decoding\<rparr>) req rest"
  obtain x where x: "p_rd t = Sending x" "p_recv t = p_recv s @ [x]" "carries x m"
    using req(3) by (auto simp: t_def receive_def Let_def)
  define u where "u = t\<lparr>p_rd := AtTop, p_reqQ := p_reqQ t @ [x]\<rparr>"
  have n: "length (p_recv s) = length ms"
    using s(2) by (auto simp: loaded_def dest: list_all2_lengthD)
  have "pstep ops bs W s (s\<lparr>p_rd := Decoding\<rparr>)"
    using pstep.read_check [of s ops bs W] s(2) by (simp add: loaded_def)
  moreover have "pstep ops bs W (s\<lparr>p_rd := Decoding\<rparr>) t"
    unfolding t_def using s(2) req(1,2) by (intro pstep.read_request) (auto simp: loaded_def)
  moreover have "pstep ops bs W t u"
    unfolding u_def using s(2) x by (intro pstep.enqueue) (auto simp: t_def loaded_def receive_def Let_def reqQueueCap_def)
  moreover have "pstep ops bs W u (u\<lparr>p_reqQ := [], p_run := p_run u @ [x]\<rparr>)"
    using s(2) n snoc.prems
    by (intro pstep.fetch) (auto simp: u_def t_def loaded_def receive_def Let_def)
  ultimately have "reachable ops bs W ?strm out dev (u\<lparr>p_reqQ := [], p_run := p_run u @ [x]\<rparr>)"
    using s(1) by (meson reachable.step)
  moreover have "loaded rest out dev (ms @ [m]) (u\<lparr>p_reqQ := [], p_run := p_run u @ [x]\<rparr>)"
    using s(2) x by (auto simp: u_def t_def loaded_def receive_def Let_def intro!: list_all2_appendI)
  ultimately show ?case by blast
qed

lemma flushes_take:
  "i \<le> j \<Longrightarrow> j \<le> length xs \<Longrightarrow> (\<And>k. i \<le> k \<Longrightarrow> k < j \<Longrightarrow> \<not> is_flush (xs ! k)) \<Longrightarrow>
   flushes (take j xs) = flushes (take i xs)"
proof (induction j)
  case (Suc j)
  show ?case
  proof (cases "i = Suc j")
    case False
    then have "flushes (take j xs) = flushes (take i xs)" using Suc by simp
    then show ?thesis using Suc.prems False by (simp add: take_Suc_conv_app_nth)
  qed simp
qed simp

text \<open>A write or trim and the next flush carry the same mutex.\<close>

lemma same_mutex:
  assumes "reachable ops bs W strm out dev s" "i < j" "j < length (p_recv s)"
    and "is_wt (p_recv s ! i)" "is_flush (p_recv s ! j)" "\<forall>k. i < k \<and> k < j \<longrightarrow> \<not> is_flush (p_recv s ! k)"
  obtains m where "e_mu (p_recv s ! i) = Some m" "e_mu (p_recv s ! j) = Some m"
proof -
  have tags: "tags_ok 0 0 (p_recv s)"
    using reachable_inv [OF assms(1)] by (simp add: pipe_inv_def tags_inv_def)
  have "flushes (take j (p_recv s)) = flushes (take i (p_recv s))"
    using assms(2-6) by (intro flushes_take) (auto simp: le_less)
  then show thesis
    using that tags_ok_nth [OF tags, of i] tags_ok_nth [OF tags, of j] assms(2-5) by simp
qed

text \<open>One execution on the RAM disk, by a worker that holds the request.\<close>

lemma ramdisk_exec:
  assumes "reachable ramdisk_ops DefaultBlockSizeBytes W strm out dev s" "\<not> p_crashed s"
    and "p_run s = xs @ x # ys" "may_execute s x" "ramdisk_inv (p_dev s)" "carries x m"
    and "sendable m" "valid_op (length (rd_disk (p_dev s))) (snd m)" "\<nexists>off len. snd m = OpRead off len"
  obtains t where "reachable ramdisk_ops DefaultBlockSizeBytes W strm out dev t" "\<not> p_crashed t"
    "p_run t = xs @ ys" "p_done t = p_done s @ [x]" "p_recv t = p_recv s" "queued t = queued s" "ramdisk_inv (p_dev t)"
    "length (rd_disk (p_dev t)) = length (rd_disk (p_dev s))"
proof -
  have "\<exists>resp d mu. execute ramdisk_ops DefaultBlockSizeBytes (e_req x) (Some newResponse) (p_dev s)
      = Ret (resp, d, mu) \<and> ramdisk_inv d \<and> length (rd_disk d) = length (rd_disk (p_dev s))"
  proof (cases "snd m")
    case (OpWrite off data)
    obtain h where m: "m = (h, OpWrite off data)" using OpWrite by (cases m) simp
    then have wb: "whole_blocks DefaultBlockSizeBytes (length (rd_disk (p_dev s))) (int (unat off)) (length data)"
      using assms(8) by simp
    then have off: "int (unat off) < 2 ^ 63"
      using rd.content_bound [OF assms(5)] by (auto simp: whole_blocks_def)
    have bound: "unat off + length data \<le> length (rd_disk (p_dev s))" using whole_blocks_nat [OF wb] by simp
    show ?thesis
      by (rule rd.execute_write [OF assms(5), of "e_req x" newResponse])
        (use m off bound wb assms(6) in \<open>auto simp: sint_of_small newResponse_def\<close>)
  next
    case (OpRead off len)
    then show ?thesis using assms(9) by simp
  next
    case OpFlush
    show ?thesis
      by (rule rd.execute_flush_trim [OF assms(5), of "e_req x" newResponse])
        (use OpFlush assms(6) in \<open>cases m; auto simp: newResponse_def\<close>)+
  next
    case (OpTrim off len)
    show ?thesis
      by (rule rd.execute_flush_trim [OF assms(5), of "e_req x" newResponse])
        (use OpTrim assms(6) in \<open>cases m; auto simp: newResponse_def\<close>)+
  qed
  then obtain resp d mu where ex: "execute ramdisk_ops DefaultBlockSizeBytes (e_req x) (Some newResponse)
      (p_dev s) = Ret (resp, d, mu)" "ramdisk_inv d" "length (rd_disk d) = length (rd_disk (p_dev s))"
    by blast
  have "rs_respBuffer newResponse \<noteq> None" by (simp add: newResponse_def)
  from pstep.exec [OF assms(2-4) this ex(1)] show thesis
    by (rule that [OF reachable.step [OF assms(1)]]) (simp_all add: ex assms(2) queued_def)
qed

text \<open>The disk of the example runs: one block.\<close>

definition disk0 :: ramdisk where
  "disk0 = \<lparr>rd_disk = zeros 4096, rd_size = 4096, rd_atomicOnline = 1\<rparr>"

definition out0 :: ostrm where
  "out0 = \<lparr>os_out = [], os_budget = None\<rparr>"

definition msgs0 :: "nbd_msg list" where
  "msgs0 = [(zeros 8, OpWrite 0 (replicate 4096 7)), (replicate 8 1, OpFlush), (replicate 8 2, OpFlush)]"

definition msgs1 :: "nbd_msg list" where
  "msgs1 = [(zeros 8, OpWrite 1 (replicate 4096 7)), (replicate 8 1, OpFlush)]"

lemma disk0_inv: "ramdisk_inv disk0" "rd_disk disk0 = zeros 4096"
  by (simp_all add: disk0_def ramdisk_inv_def ramdisk_wf_def)

text \<open>A state of a run on that disk: what workers hold, what is executed, what is received.\<close>

definition at0 :: "nat \<Rightarrow> nbd_msg list \<Rightarrow> ramdisk pipe \<Rightarrow> entry list \<Rightarrow> entry list \<Rightarrow> entry list \<Rightarrow> bool" where
  "at0 W ms s run don recv \<longleftrightarrow>
     reachable ramdisk_ops DefaultBlockSizeBytes W (concat (map encode_msg ms)) out0 disk0 s \<and>
     \<not> p_crashed s \<and> p_run s = run \<and> p_done s = don \<and> p_recv s = recv \<and> queued s = [] \<and>
     ramdisk_inv (p_dev s) \<and> length (rd_disk (p_dev s)) = 4096"

lemma at0_loaded:
  assumes "list_all sendable ms" "length ms \<le> W"
  shows "\<exists>s recv. at0 W ms s recv [] recv \<and> list_all2 carries recv ms"
  using receive_all [OF assms, of ramdisk_ops DefaultBlockSizeBytes "[]" out0 disk0]
  by (auto simp: at0_def loaded_def queued_def disk0_inv)

lemma at0_exec:
  assumes "at0 W ms s (xs @ x # ys) don recv" "may_execute s x" "carries x m" "sendable m"
    and "valid_op 4096 (snd m)" "\<nexists>off len. snd m = OpRead off len"
  shows "\<exists>t. at0 W ms t (xs @ ys) (don @ [x]) recv"
proof -
  have s: "reachable ramdisk_ops DefaultBlockSizeBytes W (concat (map encode_msg ms)) out0 disk0 s"
    "\<not> p_crashed s" "p_run s = xs @ x # ys" "p_done s = don" "p_recv s = recv" "queued s = []"
    "ramdisk_inv (p_dev s)" "length (rd_disk (p_dev s)) = 4096"
    using assms(1) by (simp_all add: at0_def)
  obtain t where "reachable ramdisk_ops DefaultBlockSizeBytes W (concat (map encode_msg ms)) out0 disk0 t"
    "\<not> p_crashed t" "p_run t = xs @ ys" "p_done t = p_done s @ [x]" "p_recv t = p_recv s" "queued t = queued s"
    "ramdisk_inv (p_dev t)" "length (rd_disk (p_dev t)) = length (rd_disk (p_dev s))"
    by (rule ramdisk_exec [OF s(1-3) assms(2) s(7) assms(3,4) _ assms(6)]) (use s assms(5) in simp)
  then show ?thesis using s by (auto simp: at0_def)
qed

text \<open>A write and two flushes, all held by workers: the second flush is executed first, then the
  write, then the first flush.\<close>

lemma overtaking_run:
  obtains s t w f g where "at0 3 msgs0 s [w, f] [g] [w, f, g]" "at0 3 msgs0 t [] [g, w, f] [w, f, g]"
    "carries w (zeros 8, OpWrite 0 (replicate 4096 7))" "is_flush f" "is_flush g"
proof -
  have snd0: "list_all sendable msgs0" by (simp add: msgs0_def sendable_def ndbHandleLen_def)
  obtain s0 w f g where s0: "at0 3 msgs0 s0 ([w, f] @ g # []) [] [w, f, g]"
    and c: "carries w (zeros 8, OpWrite 0 (replicate 4096 7))"
    "carries f (replicate 8 1, OpFlush)" "carries g (replicate 8 2, OpFlush)"
    using at0_loaded [OF snd0, of 3] by (auto simp: msgs0_def list_all2_Cons2)
  have tags: "e_mu w = Some 0" "e_mu f = Some 0" "e_mu g = Some 1"
    and locks: "\<And>s xs ds. at0 3 msgs0 s xs ds [w, f, g] \<Longrightarrow> locks_inv DefaultBlockSizeBytes s"
    using s0 c reachable_inv by (fastforce simp: at0_def pipe_inv_def tags_inv_def)+
  have aligned: "\<not> bad_write DefaultBlockSizeBytes w"
    using c(1) by (simp add: bad_write_def misaligned_def DefaultBlockSizeBytes_def)
  have "may_execute s0 g"
    using locks [OF s0] s0 tags c by (auto simp: may_execute_def locks_inv_def at0_def flight_def)
  then obtain s1 where s1: "at0 3 msgs0 s1 ([] @ w # [f]) [g] [w, f, g]"
    using at0_exec [OF s0 _ c(3)] by (auto simp: sendable_def ndbHandleLen_def)
  have "may_execute s1 w" using c(1) by (simp add: may_execute_def)
  then obtain s2 where s2: "at0 3 msgs0 s2 ([] @ f # []) [g, w] [w, f, g]"
    using at0_exec [OF s1 _ c(1)]
    by (auto simp: sendable_def ndbHandleLen_def whole_blocks_def DefaultBlockSizeBytes_def)
  have "may_execute s2 f"
    using locks [OF s2] s2 tags c aligned
    by (auto simp: may_execute_def locks_inv_def at0_def flight_def bad_write_def)
  then obtain s3 where "at0 3 msgs0 s3 [] [g, w, f] [w, f, g]"
    using at0_exec [OF s2 _ c(2)] by (auto simp: sendable_def ndbHandleLen_def)
  then show thesis using that [of s1] s1 c by simp
qed

text \<open>A misaligned write, executed, and a flush that a worker holds.\<close>

lemma misaligned_run:
  obtains s w f where
    "reachable ramdisk_ops DefaultBlockSizeBytes 2 (concat (map encode_msg msgs1)) out0 disk0 s"
    "p_recv s = [w, f]" "p_done s = [w]" "bad_write DefaultBlockSizeBytes w" "is_flush f"
proof -
  have snd1: "list_all sendable msgs1" by (simp add: msgs1_def sendable_def ndbHandleLen_def)
  obtain s w f where s: "at0 2 msgs1 s ([] @ w # [f]) [] [w, f]"
    and c: "carries w (zeros 8, OpWrite 1 (replicate 4096 7))" "carries f (replicate 8 1, OpFlush)"
    using at0_loaded [OF snd1, of 2] by (auto simp: msgs1_def list_all2_Cons2)
  then have s': "reachable ramdisk_ops DefaultBlockSizeBytes 2 (concat (map encode_msg msgs1)) out0 disk0 s"
    "\<not> p_crashed s" "p_run s = [] @ w # [f]" "p_recv s = [w, f]" "p_done s = []"
    by (simp_all add: at0_def)
  have mis: "misaligned DefaultBlockSizeBytes (e_req w) = Ret True"
    using c(1) by (simp add: misaligned_def DefaultBlockSizeBytes_def)
  have may: "may_execute s w" using c(1) by (simp add: may_execute_def)
  have buf: "rs_respBuffer newResponse \<noteq> None" by (simp add: newResponse_def)
  obtain resp where "execute ramdisk_ops DefaultBlockSizeBytes (e_req w) (Some newResponse) (p_dev s) =
      Ret (resp, p_dev s, NoMu)"
    using c(1) mis by (auto simp: execute_def resp_Set_ok [OF buf])
  from reachable.step [OF s'(1) pstep.exec [OF s'(2,3) may buf this]] show thesis
    by (rule that [of _ w f]) (use s' c mis in \<open>simp_all add: bad_write_def\<close>)
qed

text \<open>A run on a file disk: a write and a flush received, the context cancelled, the reader stopped.\<close>

definition file0 :: filedisk where
  "file0 = \<lparr>fd_File = new_file (zeros 4096), fd_SizeBytes = 4096\<rparr>"

definition msgs2 :: "nbd_msg list" where
  "msgs2 = [(zeros 8, OpWrite 0 (replicate 4096 7)), (replicate 8 1, OpFlush)]"

lemma filedisk_never_panics: "never_panics filedisk_ops DefaultBlockSizeBytes"
  by (simp add: never_panics_def DefaultBlockSizeBytes_def filedisk_ops_def FileDisk_ReadAt_def
      FileDisk_WriteAt_def FileDisk_Trim_def FileDisk_Flush_def FileDisk_Close_def split: prod.splits)

lemma stopped_run:
  obtains s w f where "reachable filedisk_ops DefaultBlockSizeBytes 2 (concat (map encode_msg msgs2)) out0 file0 s"
    "\<not> p_crashed s" "p_rd s = Stopped" "p_cancel s" "p_recv s = [w, f]" "p_run s = [w, f]"
    "carries w (zeros 8, OpWrite 0 (replicate 4096 7))" "carries f (replicate 8 1, OpFlush)"
    "\<forall>y \<in> set (p_recv s). \<not> bad_write DefaultBlockSizeBytes y"
proof -
  let ?R = "reachable filedisk_ops DefaultBlockSizeBytes 2 (concat (map encode_msg msgs2)) out0 file0"
  obtain s where s: "?R s" "loaded [] out0 file0 msgs2 s"
    using receive_all [of msgs2 2 filedisk_ops DefaultBlockSizeBytes "[]" out0 file0]
    by (auto simp: msgs2_def sendable_def ndbHandleLen_def)
  then obtain w f where wf: "p_recv s = [w, f]" "p_run s = [w, f]"
    "carries w (zeros 8, OpWrite 0 (replicate 4096 7))" "carries f (replicate 8 1, OpFlush)"
    by (auto simp: loaded_def msgs2_def list_all2_Cons2)
  have live: "\<not> p_crashed s" "p_rd s = AtTop" using s(2) by (simp_all add: loaded_def)
  let ?t = "s\<lparr>p_cancel := True\<rparr>"
  have "?R ?t" using reachable.step [OF s(1) pstep.cancel [OF live(1)]] .
  then have "?R (?t\<lparr>p_rd := (if p_cancel ?t then Stopped else Decoding)\<rparr>)"
    by (rule reachable.step [OF _ pstep.read_check]) (use live in simp_all)
  then show thesis
    by (rule that [of _ w f])
      (use live wf in \<open>simp_all add: bad_write_def misaligned_def DefaultBlockSizeBytes_def\<close>)
qed

section \<open>Properties\<close>

text \<open>
  C3: a flush takes effect after the writes and trims before it. In every reachable state of the
  processor, if the flush received as request \<open>j\<close> has been executed, then every write or trim
  received before it with no other flush in between was executed earlier.
\<close>

theorem flush_after_writes:
  assumes "reachable ops bs W strm out dev s" "i < j" "j < length (p_recv s)"
    and "is_wt (p_recv s ! i)" "is_flush (p_recv s ! j)" "\<forall>k. i < k \<and> k < j \<longrightarrow> \<not> is_flush (p_recv s ! k)"
    and "p_done s = before @ p_recv s ! j # after"
  shows "p_recv s ! i \<in> set before"
proof -
  obtain m where m: "e_mu (p_recv s ! i) = Some m" "e_mu (p_recv s ! j) = Some m"
    by (rule same_mutex [OF assms(1-6)])
  have "p_recv s ! i \<in> set (p_recv s)" using assms(2,3) by simp
  from flush_invD [OF reachable_flush_inv [OF assms(1)] assms(7,5) m(2) this assms(4) m(1)]
  show ?thesis by simp
qed

theorem flush_after_writes_witness:
  "\<exists>s before. reachable ramdisk_ops DefaultBlockSizeBytes 3 (concat (map encode_msg msgs0)) out0 disk0 s \<and>
     is_wt (p_recv s ! 0) \<and> is_flush (p_recv s ! 1) \<and> p_done s = before @ p_recv s ! 1 # [] \<and>
     p_recv s ! 0 \<in> set before"
proof -
  obtain s t w f g where t: "at0 3 msgs0 t [] [g, w, f] [w, f, g]"
    and c: "carries w (zeros 8, OpWrite 0 (replicate 4096 7))" "is_flush f"
    by (rule overtaking_run)
  from t have r: "reachable ramdisk_ops DefaultBlockSizeBytes 3 (concat (map encode_msg msgs0)) out0 disk0 t"
    and p: "p_recv t = [w, f, g]" "p_done t = [g, w] @ p_recv t ! 1 # []" by (simp_all add: at0_def)
  have "is_wt (p_recv t ! 0)" "is_flush (p_recv t ! 1)" using c by (simp_all add: p(1))
  moreover have "p_recv t ! 0 \<in> set [g, w]"
    by (rule flush_after_writes [OF r _ _ _ _ _ p(2), of 0]) (use c in \<open>auto simp: p(1)\<close>)
  ultimately show ?thesis using r p(2) by blast
qed

text \<open>
  C16: a flush does not wait for writes received before an earlier flush: there is a reachable state
  in which the second of two flushes has been executed and a write received before both has not.
\<close>

theorem flush_overtakes_older_write:
  "\<exists>s w f g. reachable ramdisk_ops DefaultBlockSizeBytes 3 (concat (map encode_msg msgs0)) out0 disk0 s \<and>
     p_recv s = [w, f, g] \<and> is_wt w \<and> is_flush f \<and> is_flush g \<and> p_done s = [g] \<and> w \<in> set (flight s)"
proof -
  obtain s t w f g where "at0 3 msgs0 s [w, f] [g] [w, f, g]" "is_flush f" "is_flush g"
    "carries w (zeros 8, OpWrite 0 (replicate 4096 7))"
    by (rule overtaking_run)
  then have "reachable ramdisk_ops DefaultBlockSizeBytes 3 (concat (map encode_msg msgs0)) out0 disk0 s"
    "p_recv s = [w, f, g]" "is_wt w" "is_flush f" "is_flush g" "p_done s = [g]" "w \<in> set (flight s)"
    by (simp_all add: at0_def flight_def)
  then show ?thesis by blast
qed

text \<open>
  C15: a misaligned write is refused without releasing the read lock that the reader took for it, so
  the next flush is never executed, in any continuation of any run.
\<close>

theorem misaligned_write_blocks_flush:
  assumes "reachable ops bs W strm out dev s" "i < j" "j < length (p_recv s)"
    and "bad_write bs (p_recv s ! i)" "is_flush (p_recv s ! j)"
    and "\<forall>k. i < k \<and> k < j \<longrightarrow> \<not> is_flush (p_recv s ! k)"
  shows "p_recv s ! j \<notin> set (p_done s)"
proof
  assume "p_recv s ! j \<in> set (p_done s)"
  then obtain before after where d: "p_done s = before @ p_recv s ! j # after" by (metis split_list)
  have wt: "is_wt (p_recv s ! i)" using assms(4) by (simp add: bad_write_def)
  obtain m where m: "e_mu (p_recv s ! i) = Some m" "e_mu (p_recv s ! j) = Some m"
    by (rule same_mutex [OF assms(1-3) wt assms(5,6)])
  have "p_recv s ! i \<in> set (p_recv s)" using assms(2,3) by simp
  from flush_invD [OF reachable_flush_inv [OF assms(1)] d assms(5) m(2) this wt m(1)] assms(4)
  show False by simp
qed

theorem misaligned_write_blocks_flush_witness:
  "\<exists>s. reachable ramdisk_ops DefaultBlockSizeBytes 2 (concat (map encode_msg msgs1)) out0 disk0 s \<and>
     bad_write DefaultBlockSizeBytes (p_recv s ! 0) \<and> is_flush (p_recv s ! 1) \<and>
     p_done s = [p_recv s ! 0] \<and> p_recv s ! 1 \<notin> set (p_done s)"
proof -
  obtain s w f where s: "reachable ramdisk_ops DefaultBlockSizeBytes 2 (concat (map encode_msg msgs1)) out0 disk0 s"
    "p_recv s = [w, f]" "p_done s = [w]" "bad_write DefaultBlockSizeBytes w" "is_flush f"
    by (rule misaligned_run)
  moreover have "p_recv s ! 1 \<notin> set (p_done s)"
    by (rule misaligned_write_blocks_flush [OF s(1), of 0]) (use s in auto)
  ultimately show ?thesis by (intro exI [of _ s]) simp
qed

text \<open>
  C9: every request is executed and answered exactly once. In every reachable state the serial
  numbers of the received requests are those in flight and those executed, each once, and the
  handles of the replies under way and written are those of the executed requests.
\<close>

theorem executed_and_answered_once:
  assumes "reachable ops bs W strm out dev s"
  shows "mset (map e_id (flight s)) + mset (map e_id (p_done s)) = mset [0..<length (p_recv s)] \<and>
    image_mset reply_handle (mset (p_held s @ p_respQ s)) + mset (p_sent s) =
      image_mset (\<lambda>x. rq_handle (e_req x)) (mset (p_done s))"
proof -
  have inv: "tags_ok 0 0 (p_recv s)" "mset (p_recv s) = mset (flight s) + mset (p_done s)" "reply_inv s"
    using reachable_inv [OF assms] by (simp_all add: pipe_inv_def tags_inv_def place_inv_def)
  have "map e_id (p_recv s) = [0..<length (p_recv s)]"
    using tags_ok_nth [OF inv(1)] by (intro nth_equalityI) auto
  moreover have "mset (map e_id (p_recv s)) = mset (map e_id (flight s)) + mset (map e_id (p_done s))"
    using inv(2) by simp
  ultimately show ?thesis using inv(3) by (simp add: reply_inv_def)
qed

theorem executed_and_answered_once_witness:
  "\<exists>s. reachable ramdisk_ops DefaultBlockSizeBytes 3 (concat (map encode_msg msgs0)) out0 disk0 s \<and>
     length (p_recv s) = 3 \<and>
     mset (map e_id (flight s)) + mset (map e_id (p_done s)) = mset [0..<3]"
proof -
  obtain s t w f g where t: "at0 3 msgs0 t [] [g, w, f] [w, f, g]"
    by (rule overtaking_run)
  then have "reachable ramdisk_ops DefaultBlockSizeBytes 3 (concat (map encode_msg msgs0)) out0 disk0 t"
    "length (p_recv t) = 3" by (simp_all add: at0_def)
  with executed_and_answered_once [OF this(1)] show ?thesis by metis
qed





end
