(* ===== verification/Pipeline_Lin.thy ===== *)
theory Pipeline_Lin
  imports Pipeline_Props
begin

text \<open>
  The concurrent request processor against the sequential flat disk: under every interleaving of the reader, the
  workers and the writer, the device holds what a flat disk holds after the executed messages in the
  order of their execution, and each reply is the one the flat disk gives at that point. The
  results are inside the contract of a device; every device that interprets it inherits them.
\<close>

section \<open>Replies\<close>

fun flat_replies :: "bytes \<Rightarrow> nbd_msg list \<Rightarrow> bytes list" where
  "flat_replies disk [] = []"
| "flat_replies disk ((h, op) # ms) =
     nbd_simple_reply nbdRespSuccess h (fst (flat_op disk op)) # flat_replies (snd (flat_op disk op)) ms"

definition flat_disk :: "bytes \<Rightarrow> nbd_msg list \<Rightarrow> bytes" where
  "flat_disk disk ms = snd (flat_session disk ms)"

lemma flat_disk_simps [simp]:
  "flat_disk disk [] = disk" "flat_disk disk ((h, op) # ms) = flat_disk (snd (flat_op disk op)) ms"
  by (simp_all add: flat_disk_def split_beta Let_def)

lemma concat_flat_replies: "concat (flat_replies disk ms) = fst (flat_session disk ms)"
  by (induction disk ms rule: flat_replies.induct) (simp_all add: split_beta Let_def)

lemma flat_replies_snoc:
  "flat_replies disk (ms @ [(h, op)]) = flat_replies disk ms @ [nbd_simple_reply nbdRespSuccess h (fst (flat_op (flat_disk disk ms) op))]"
  by (induction disk ms rule: flat_replies.induct) simp_all

lemma flat_disk_snoc: "flat_disk disk (ms @ [(h, op)]) = snd (flat_op (flat_disk disk ms) op)"
  by (induction disk ms rule: flat_replies.induct) simp_all

lemma length_flat_disk: "\<forall>m \<in> set ms. valid_msg (length disk) m \<Longrightarrow> length (flat_disk disk ms) = length disk"
proof (induction disk ms rule: flat_replies.induct)
  case (2 disk h op ms)
  then have "length (snd (flat_op disk op)) = length disk" by (simp add: valid_msg_def length_flat_op)
  then show ?case using 2 by simp
qed simp

section \<open>Requests that do not interfere\<close>

fun op_range :: "nbd_op \<Rightarrow> nat \<times> nat" where
  "op_range (OpRead off len) = (unat off, unat len)"
| "op_range (OpWrite off data) = (unat off, length data)"
| "op_range _ = (0, 0)"

fun op_writes :: "nbd_op \<Rightarrow> bool" where
  "op_writes (OpWrite _ _) = True"
| "op_writes _ = False"

text \<open>Neither of two requests writes bytes that the other reads or writes.\<close>

definition apart :: "nbd_op \<Rightarrow> nbd_op \<Rightarrow> bool" where
  "apart a b \<longleftrightarrow> (op_writes a \<or> op_writes b \<longrightarrow>
     fst (op_range a) + snd (op_range a) \<le> fst (op_range b) \<or> fst (op_range b) + snd (op_range b) \<le> fst (op_range a))"

lemma apart_swap:
  assumes "apart a b" "valid_op (length disk) a" "valid_op (length disk) b"
  shows "snd (flat_op (snd (flat_op disk a)) b) = snd (flat_op (snd (flat_op disk b)) a)"
    "fst (flat_op (snd (flat_op disk a)) b) = fst (flat_op disk b)"
proof -
  show "snd (flat_op (snd (flat_op disk a)) b) = snd (flat_op (snd (flat_op disk b)) a)"
    using assms by (cases a; cases b) (auto simp: apart_def dest!: whole_blocks_nat intro!: blit_commute)
  show "fst (flat_op (snd (flat_op disk a)) b) = fst (flat_op disk b)"
    using assms by (cases a; cases b) (auto simp: apart_def dest!: whole_blocks_nat intro!: chunk_blit_disjoint)
qed

lemma apart_sym: "apart a b \<Longrightarrow> apart b a"
  by (auto simp: apart_def)

text \<open>A request that is apart from those before it can be executed first.\<close>

lemma apart_front:
  assumes "\<forall>x \<in> set (xs @ [m]). valid_msg (length disk) x" "\<forall>x \<in> set xs. apart (snd m) (snd x)"
  shows "flat_disk disk (xs @ m # ys) = flat_disk disk (m # xs @ ys) \<and>
    mset (flat_replies disk (xs @ m # ys)) = mset (flat_replies disk (m # xs @ ys))"
  using assms
proof (induction xs arbitrary: disk)
  case (Cons x xs)
  obtain h op h' op' where hs: "m = (h, op)" "x = (h', op')" by (cases m, cases x)
  have ops: "apart op op'" "valid_op (length disk) op" "valid_op (length disk) op'"
    using Cons.prems hs by (simp_all add: valid_msg_def)
  have "length (snd (flat_op disk op')) = length disk" using ops(3) by (rule length_flat_op)
  then have "flat_disk (snd (flat_op disk op')) (xs @ m # ys) = flat_disk (snd (flat_op disk op')) (m # xs @ ys) \<and>
      mset (flat_replies (snd (flat_op disk op')) (xs @ m # ys)) = mset (flat_replies (snd (flat_op disk op')) (m # xs @ ys))"
    using Cons.prems by (intro Cons.IH) auto
  then show ?case
    using hs apart_swap(1) [OF ops] apart_swap(2) [OF ops] apart_swap(2) [OF apart_sym [OF ops(1)] ops(3,2)] by (simp add: add_mset_commute)
qed simp

lemma apart_perm:
  assumes "sorted_wrt (\<lambda>a b. apart (snd a) (snd b)) ms" "mset xs = mset ms" "\<forall>m \<in> set ms. valid_msg (length disk) m"
  shows "flat_disk disk xs = flat_disk disk ms \<and> mset (flat_replies disk xs) = mset (flat_replies disk ms)"
  using assms
proof (induction ms arbitrary: xs disk)
  case (Cons m ms)
  have "m \<in> set xs" using Cons.prems(2) by (metis list.set_intros(1) mset_eq_setD)
  then obtain ys zs where xs: "xs = ys @ m # zs" by (auto simp: in_set_conv_decomp)
  obtain h op where m: "m = (h, op)" by (cases m)
  have rest: "mset (ys @ zs) = mset ms" using Cons.prems(2) xs by simp
  then have sub: "set ys \<subseteq> set ms" by (metis Un_upper1 set_append mset_eq_setD)
  have front: "flat_disk disk xs = flat_disk disk (m # ys @ zs)" "mset (flat_replies disk xs) = mset (flat_replies disk (m # ys @ zs))"
    using apart_front [of ys m disk zs] Cons.prems(1,3) sub xs by auto
  have "length (snd (flat_op disk op)) = length disk" using Cons.prems(3) m by (simp add: valid_msg_def length_flat_op)
  then have "flat_disk (snd (flat_op disk op)) (ys @ zs) = flat_disk (snd (flat_op disk op)) ms \<and>
      mset (flat_replies (snd (flat_op disk op)) (ys @ zs)) = mset (flat_replies (snd (flat_op disk op)) ms)"
    using Cons.prems rest by (intro Cons.IH) auto
  then show ?case using front m by simp
qed simp

section \<open>Replies of the writer\<close>

text \<open>The bytes that the writer sends for a reply.\<close>

definition resp_bytes :: "response \<Rightarrow> bytes" where
  "resp_bytes r = (case rs_respBuffer r of None \<Rightarrow> []
     | Some b \<Rightarrow> b @ (if rs_reqType r = nbdRead then sl_get (rs_readBuffer r) else []))"

lemma resp_bytes_reply:
  "rs_respBuffer r = Some (nbd_simple_reply e h []) \<Longrightarrow>
   resp_bytes r = nbd_simple_reply e h (if rs_reqType r = nbdRead then sl_get (rs_readBuffer r) else [])"
  by (simp add: resp_bytes_def nbd_simple_reply_def)

lemma valid_sendable: "valid_msg sz m \<Longrightarrow> sendable m"
  by (cases m; cases "snd m") (auto simp: valid_msg_def sendable_def)

section \<open>What was received\<close>

text \<open>The received requests are the first messages of the stream; the rest is still to be read.\<close>

definition recv_ok :: "nbd_msg list \<Rightarrow> bytes \<Rightarrow> 'd pipe \<Rightarrow> bool" where
  "recv_ok ms tail s \<longleftrightarrow> length (p_recv s) \<le> length ms \<and> list_all2 carries (p_recv s) (take (length (p_recv s)) ms) \<and>
     (p_rd s \<noteq> Stopped \<longrightarrow> p_in s = concat (map encode_msg (drop (length (p_recv s)) ms)) @ tail)"

lemma decode_next:
  assumes recv: "recv_ok ms (nbd_request_msg nbdDisconnect h0 0 [] 0 @ junk) s" "p_rd s \<noteq> Stopped"
    and ms: "\<forall>m \<in> set ms. sendable m" "length h0 = ndbHandleLen"
    and dec: "wf_request pooled" "Decode pooled (p_in s) = (err, req, rest)"
  shows "err = None \<and>
    (if length (p_recv s) = length ms then rq_reqType req = nbdDisconnect
     else rq_reqType req \<noteq> nbdDisconnect \<and> (\<forall>i mu. carries \<lparr>e_id = i, e_req = req, e_mu = mu\<rparr> (ms ! length (p_recv s))) \<and>
       rest = concat (map encode_msg (drop (Suc (length (p_recv s))) ms)) @ nbd_request_msg nbdDisconnect h0 0 [] 0 @ junk)"
proof (cases "length (p_recv s) = length ms")
  case True
  obtain req' where "Decode pooled (nbd_request_msg nbdDisconnect h0 0 [] 0 @ junk) = (None, req', junk)" "rq_reqType req' = nbdDisconnect"
    by (rule Decode_msg [OF dec(1) ms(2), of nbdDisconnect 0 "[]" 0 junk]) (simp_all add: nbd_cmd_defs)
  then show ?thesis using True recv dec(2) by (simp add: recv_ok_def)
next
  case False
  let ?n = "length (p_recv s)"
  have n: "?n < length ms" using False recv by (simp add: recv_ok_def)
  let ?rest = "concat (map encode_msg (drop (Suc ?n) ms)) @ nbd_request_msg nbdDisconnect h0 0 [] 0 @ junk"
  have "p_in s = encode_msg (ms ! ?n) @ ?rest"
    using recv n by (simp add: recv_ok_def flip: Cons_nth_drop_Suc)
  then show ?thesis using Decode_carries [of "ms ! ?n" pooled ?rest] ms(1) n dec False by auto
qed

lemma recv_ok_step:
  assumes step: "pstep ops bs W s t" and recv: "recv_ok ms (nbd_request_msg nbdDisconnect h0 0 [] 0 @ junk) s"
    and ms: "\<forall>m \<in> set ms. sendable m" "length h0 = ndbHandleLen"
  shows "recv_ok ms (nbd_request_msg nbdDisconnect h0 0 [] 0 @ junk) t"
  using step
proof cases
  case (read_request pooled req rest)
  have next_ok: "rq_reqType req \<noteq> nbdDisconnect \<Longrightarrow> length (p_recv s) \<noteq> length ms"
    "length (p_recv s) \<noteq> length ms \<Longrightarrow> (\<forall>i mu. carries \<lparr>e_id = i, e_req = req, e_mu = mu\<rparr> (ms ! length (p_recv s))) \<and>
       rest = concat (map encode_msg (drop (Suc (length (p_recv s))) ms)) @ nbd_request_msg nbdDisconnect h0 0 [] 0 @ junk"
    using decode_next [OF recv _ ms read_request(4,5)] read_request(3) by (auto split: if_splits)
  then have n: "length (p_recv s) < length ms" using read_request(6) recv by (auto simp: recv_ok_def)
  then show ?thesis using recv next_ok read_request(1,6)
    by (auto simp: recv_ok_def receive_def Let_def take_Suc_conv_app_nth intro!: list_all2_appendI)
qed (use recv in \<open>auto simp: recv_ok_def\<close>)

lemma recv_carries:
  assumes "reachable ops bs W strm out dev s" "recv_ok ms tail s" "x \<in> set (p_run s)"
  shows "e_id x < length ms \<and> carries x (ms ! e_id x)"
proof -
  have inv: "tags_ok 0 0 (p_recv s)" "mset (p_recv s) = mset (flight s) + mset (p_done s)"
    using reachable_inv [OF assms(1)] by (simp_all add: pipe_inv_def tags_inv_def place_inv_def)
  have "x \<in># mset (p_recv s)" unfolding inv(2) using assms(3) by (simp add: flight_def)
  then obtain i where i: "i < length (p_recv s)" "p_recv s ! i = x" by (auto simp: in_set_conv_nth)
  then have "e_id x = i" using tags_ok_nth [OF inv(1), of i] by simp
  then show ?thesis using assms(2) i list_all2_nthD [of carries "p_recv s" "take (length (p_recv s)) ms" i] by (simp add: recv_ok_def)
qed

lemma carries_aligned:
  assumes "carries x m" "valid_msg sz m" "int sz < 2 ^ 63"
  shows "\<not> bad_write DefaultBlockSizeBytes x"
proof (cases m)
  case (Pair h op)
  show ?thesis
  proof (cases op)
    case (OpWrite off data)
    then have wb: "whole_blocks DefaultBlockSizeBytes sz (int (unat off)) (length data)"
      using assms(2) Pair by (simp add: valid_msg_def)
    then have "sint off = int (unat off)" using assms(3) by (intro sint_of_small) (simp add: whole_blocks_def)
    then show ?thesis using misaligned_whole_blocks [of sz "e_req x"] wb assms(1) Pair OpWrite by (simp add: bad_write_def)
  qed (use assms(1) Pair in \<open>auto simp: bad_write_def nbd_cmd_defs\<close>)
qed

text \<open>The executed messages, in the order of their execution.\<close>

definition done_msgs :: "nbd_msg list \<Rightarrow> 'd pipe \<Rightarrow> nbd_msg list" where
  "done_msgs ms s = map (\<lambda>x. ms ! e_id x) (p_done s)"

text \<open>The device holds the flat disk after the executed messages, and the replies sent and under way are the flat disk's.\<close>

definition lin_inv :: "('d \<Rightarrow> bool) \<Rightarrow> ('d \<Rightarrow> bytes) \<Rightarrow> nbd_msg list \<Rightarrow> ostrm \<Rightarrow> bytes \<Rightarrow> 'd pipe \<Rightarrow> bool" where
  "lin_inv dinv cont ms out disk s \<longleftrightarrow> \<not> p_crashed s \<and> os_budget (p_out s) = None \<and> (\<forall>m \<in> set (done_msgs ms s). m \<in> set ms) \<and>
     (p_result s = None \<longrightarrow> dinv (p_dev s) \<and> cont (p_dev s) = flat_disk disk (done_msgs ms s)) \<and>
     (\<exists>ws. os_out (p_out s) = os_out out @ concat ws \<and>
        mset ws + mset (map resp_bytes (p_held s @ p_respQ s)) = mset (flat_replies disk (done_msgs ms s)))"

section \<open>One execution\<close>

context block_device
begin

lemma execute_carries:
  assumes d: "inv d" and v: "valid_msg (length (content d)) (h, op)" and c: "carries x (h, op)" and b: "rs_respBuffer pooled \<noteq> None"
    and tk: "\<And>off data. op = OpWrite off data \<Longrightarrow> takes d data (int (unat off))"
  obtains resp d' mu where "execute ops DefaultBlockSizeBytes (e_req x) (Some pooled) d = Ret (resp, d', mu)"
    "resp_bytes resp = nbd_simple_reply nbdRespSuccess h (fst (flat_op (content d) op))"
    "inv d'" "content d' = snd (flat_op (content d) op)"
proof -
  have vo: "valid_op (length (content d)) op" using v by (simp add: valid_msg_def)
  have small: "sint off = int (unat off)"
    if "whole_blocks DefaultBlockSizeBytes (length (content d)) (int (unat off)) n" for off :: u64 and n
    using that content_bound [OF d] by (intro sint_of_small) (simp add: whole_blocks_def)
  show ?thesis
  proof (cases op)
    case (OpRead off len)
    have s: "sint off = int (unat off)" using vo OpRead by (intro small [of _ "unat len"]) simp
    have wb: "whole_blocks DefaultBlockSizeBytes (length (content d)) (rq_pos (e_req x)) (nat (rq_count (e_req x)))"
      "0 \<le> rq_count (e_req x)" "rq_reqType (e_req x) = nbdRead" using vo OpRead c s by simp_all
    show ?thesis
      by (rule execute_read [OF d wb(3,2) b wb(1)]) (use c OpRead s in \<open>auto simp: resp_bytes_reply intro!: that\<close>)
  next
    case (OpWrite off data)
    have s: "sint off = int (unat off)" using vo OpWrite by (intro small [of _ "length data"]) simp
    have wb: "whole_blocks DefaultBlockSizeBytes (length (content d)) (rq_pos (e_req x)) (nat (rq_count (e_req x)))"
      "rq_count (e_req x) = int (length (sl_get (rq_writeBuffer (e_req x))))" "rq_reqType (e_req x) = nbdWrite"
      "takes d (sl_get (rq_writeBuffer (e_req x))) (rq_pos (e_req x))" using vo OpWrite c s tk by simp_all
    show ?thesis
      by (rule execute_write [OF d wb(3,2) b wb(4,1)]) (use c OpWrite s in \<open>auto simp: resp_bytes_reply intro!: that\<close>)
  next
    case OpFlush
    show ?thesis
      by (rule execute_flush_trim [OF d _ b, of "e_req x"]) (use c OpFlush in \<open>auto simp: resp_bytes_reply intro!: that\<close>)
  next
    case (OpTrim off len)
    show ?thesis
      by (rule execute_flush_trim [OF d _ b, of "e_req x"]) (use c OpTrim in \<open>auto simp: resp_bytes_reply intro!: that\<close>)
  qed
qed

lemma lin_exec:
  assumes reach: "reachable ops DefaultBlockSizeBytes W strm ost d0 s" "recv_ok ms tail s"
    and lin: "lin_inv inv content ms out disk s" and valid: "\<forall>m \<in> set ms. valid_msg (length disk) m"
    and tk: "\<forall>h off data. (h, OpWrite off data) \<in> set ms \<longrightarrow> (\<forall>d. inv d \<longrightarrow> takes d data (int (unat off)))"
    and run: "p_run s = xs @ x # ys" "rs_respBuffer pooled \<noteq> None"
  obtains h op resp d mu where "ms ! e_id x = (h, op)" "(h, op) \<in> set ms"
    "execute ops DefaultBlockSizeBytes (e_req x) (Some pooled) (p_dev s) = Ret (resp, d, mu)"
    "resp_bytes resp = nbd_simple_reply nbdRespSuccess h (fst (flat_op (content (p_dev s)) op))"
    "inv d" "content d = snd (flat_op (content (p_dev s)) op)" "p_result s = None"
proof -
  obtain h op where m: "ms ! e_id x = (h, op)" by (cases "ms ! e_id x")
  have x: "e_id x < length ms" "carries x (h, op)" using recv_carries [OF reach, of x] run(1) m by auto
  have mem: "(h, op) \<in> set ms" using x(1) m nth_mem by metis
  have open': "p_result s = None"
    using reachable_inv [OF reach(1)] run(1) by (auto simp: pipe_inv_def close_inv_def flight_def)
  have dev: "inv (p_dev s)" "content (p_dev s) = flat_disk disk (done_msgs ms s)" using lin open' by (simp_all add: lin_inv_def)
  have "length (content (p_dev s)) = length disk"
    unfolding dev(2) by (rule length_flat_disk) (use lin valid in \<open>auto simp: lin_inv_def\<close>)
  then have "valid_msg (length (content (p_dev s))) (h, op)" using valid mem by simp
  then show ?thesis
    by (rule execute_carries [OF dev(1) _ x(2) run(2)]) (use tk mem dev(1) m mem open' in \<open>auto intro!: that\<close>)
qed

lemma lin_inv_step:
  assumes step: "pstep ops DefaultBlockSizeBytes W s t"
    and reach: "reachable ops DefaultBlockSizeBytes W strm ost d0 s" "recv_ok ms (nbd_request_msg nbdDisconnect h0 0 [] 0 @ junk) s"
    and lin: "lin_inv inv content ms out disk s" and valid: "\<forall>m \<in> set ms. valid_msg (length disk) m" "length h0 = ndbHandleLen"
    and tk: "\<forall>h off data. (h, OpWrite off data) \<in> set ms \<longrightarrow> (\<forall>d. inv d \<longrightarrow> takes d data (int (unat off)))"
  shows "lin_inv inv content ms out disk t"
  using step
proof cases
  case (read_error pooled e req rest)
  then show ?thesis
    using decode_next [OF reach(2) _ _ valid(2) read_error(4,5)] valid(1) by (auto intro: valid_sendable)
next
  case (exec xs x ys pooled resp dev mu)
  obtain h op d where x: "ms ! e_id x = (h, op)" "(h, op) \<in> set ms" "dev = d" "p_result s = None" "inv d"
    "resp_bytes resp = nbd_simple_reply nbdRespSuccess h (fst (flat_op (content (p_dev s)) op))"
    "content d = snd (flat_op (content (p_dev s)) op)"
    by (rule lin_exec [OF reach lin valid(1) tk exec(3,5)]) (use exec(6) in auto)
  have "done_msgs ms t = done_msgs ms s @ [(h, op)]" using exec(1) x(1) by (simp add: done_msgs_def)
  then show ?thesis using lin exec(1) x by (auto simp: lin_inv_def flat_replies_snoc flat_disk_snoc)
next
  case (exec_panic xs x ys pooled)
  show ?thesis by (rule lin_exec [OF reach lin valid(1) tk exec_panic(3,5)]) (use exec_panic(6) in auto)
next
  case (reply r rs err r' w)
  obtain buf where "rs_respBuffer r = Some buf"
    using reachable_inv [OF reach(1)] reply(3) by (auto simp: pipe_inv_def reply_inv_def)
  then have w: "w = (p_out s)\<lparr>os_out := os_out (p_out s) @ resp_bytes r\<rparr>"
    using resp_Write_open [of r buf "p_out s"] reply(4) lin by (simp add: resp_bytes_def lin_inv_def)
  obtain ws where ws: "os_out (p_out s) = os_out out @ concat ws"
    "mset ws + mset (map resp_bytes (p_held s @ p_respQ s)) = mset (flat_replies disk (done_msgs ms s))"
    using lin by (auto simp: lin_inv_def)
  have "os_out (p_out t) = os_out out @ concat (ws @ [resp_bytes r]) \<and>
    mset (ws @ [resp_bytes r]) + mset (map resp_bytes (p_held t @ p_respQ t)) = mset (flat_replies disk (done_msgs ms s))"
    using w ws reply(1,3) by simp
  moreover have "done_msgs ms t = done_msgs ms s" "p_result t = p_result s" "p_dev t = p_dev s" "\<not> p_crashed t" "os_budget (p_out t) = None"
    using reply(1) lin w by (simp_all add: done_msgs_def lin_inv_def)
  ultimately show ?thesis using lin unfolding lin_inv_def by metis
qed (use lin in \<open>auto simp: lin_inv_def done_msgs_def receive_def Let_def\<close>)

lemma pipe_linear:
  assumes reach: "reachable ops DefaultBlockSizeBytes W (concat (map encode_msg ms) @ nbd_request_msg nbdDisconnect h0 0 [] 0 @ junk) out d s"
    and d: "inv d" "os_budget out = None" and valid: "\<forall>m \<in> set ms. valid_msg (length (content d)) m" "length h0 = ndbHandleLen"
    and tk: "\<forall>h off data. (h, OpWrite off data) \<in> set ms \<longrightarrow> (\<forall>d. inv d \<longrightarrow> takes d data (int (unat off)))"
  shows "recv_ok ms (nbd_request_msg nbdDisconnect h0 0 [] 0 @ junk) s \<and> lin_inv inv content ms out (content d) s"
  using reach
proof (induction rule: reachable.induct)
  case start
  have "os_out out = os_out out @ concat []" by simp
  then show ?case using d by (auto simp: recv_ok_def lin_inv_def pipe_init_def done_msgs_def intro!: exI [of _ "[] :: bytes list"])
next
  case (step s t)
  have "\<forall>m \<in> set ms. sendable m" using valid(1) valid_sendable by blast
  then show ?case
    using recv_ok_step [OF step.hyps(2) _ _ valid(2)] lin_inv_step [OF step.hyps(2,1) _ _ valid tk] step.IH by blast
qed

lemma pipe_finishes:
  assumes reach: "reachable ops DefaultBlockSizeBytes W (concat (map encode_msg ms) @ nbd_request_msg nbdDisconnect h0 0 [] 0 @ junk) out d s"
    and d: "inv d" "os_budget out = None" and valid: "\<forall>m \<in> set ms. valid_msg (length (content d)) m" "length h0 = ndbHandleLen"
    and tk: "\<forall>h off data. (h, OpWrite off data) \<in> set ms \<longrightarrow> (\<forall>d. inv d \<longrightarrow> takes d data (int (unat off)))" and "0 < W"
  shows "\<exists>t. (pstep ops DefaultBlockSizeBytes W)\<^sup>*\<^sup>* s t \<and> p_recv t = p_recv s \<and> flight t = [] \<and> p_held t = [] \<and> p_respQ t = []"
proof -
  let ?strm = "concat (map encode_msg ms) @ nbd_request_msg nbdDisconnect h0 0 [] 0 @ junk"
  note lin = pipe_linear [OF _ d valid tk]
  have "executes ops DefaultBlockSizeBytes W ?strm out d"
    unfolding executes_def
  proof (intro allI impI ballI)
    fix s x assume s: "reachable ops DefaultBlockSizeBytes W ?strm out d s" and "x \<in> set (p_run s)"
    then obtain xs ys where x: "p_run s = xs @ x # ys" by (auto simp: in_set_conv_decomp)
    show "execute ops DefaultBlockSizeBytes (e_req x) (Some newResponse) (p_dev s) \<noteq> Panic"
      by (rule lin_exec [OF s lin [OF s, THEN conjunct1] lin [OF s, THEN conjunct2] valid(1) tk x, of newResponse])
        (auto simp: newResponse_def)
  qed
  moreover have "\<forall>y \<in> set (p_recv s). \<not> bad_write DefaultBlockSizeBytes y"
  proof
    fix y assume "y \<in> set (p_recv s)"
    then obtain i where i: "i < length (p_recv s)" "p_recv s ! i = y" by (auto simp: in_set_conv_nth)
    then have "carries y (ms ! i)" "i < length ms"
      using lin [OF reach] list_all2_nthD [of carries "p_recv s" "take (length (p_recv s)) ms" i] by (auto simp: recv_ok_def)
    then show "\<not> bad_write DefaultBlockSizeBytes y" using carries_aligned valid(1) content_bound [OF d(1)] nth_mem by metis
  qed
  moreover have "\<not> p_crashed s" using lin [OF reach] by (simp add: lin_inv_def)
  ultimately obtain t where t: "(pstep ops DefaultBlockSizeBytes W)\<^sup>*\<^sup>* s t" "work t = 0" "p_recv t = p_recv s"
    using drain [OF reach _ _ assms(7)] by blast
  then show ?thesis by (intro exI [of _ t]) (auto simp: work_def queued_def flight_def split: reader.splits)
qed

end

end
