(* ===== verification/Sha1.thy ===== *)
theory Sha1
  imports Prelude
begin

text \<open>
  SHA-1 as in FIPS 180, the standard library's \<^verbatim>\<open>crypto/sha1\<close> that the dedup ID store keys its
  database with. It is a function of the message; that it has no collisions on the blocks of a
  device is a hypothesis wherever it is used.
\<close>

definition sha1_rotl :: "nat \<Rightarrow> u32 \<Rightarrow> u32" where
  "sha1_rotl n w = push_bit n w OR drop_bit (32 - n) w"

definition sha1_pad :: "bytes \<Rightarrow> bytes" where
  "sha1_pad msg = msg @ 0x80 # replicate ((119 - length msg mod 64) mod 64) 0
     @ put_be 8 (of_nat (8 * length msg) :: u64)"

function words_be :: "bytes \<Rightarrow> u32 list" where
  "words_be bs = (if length bs < 4 then [] else get_be (take 4 bs) # words_be (drop 4 bs))"
  by auto
termination by (relation "measure length") auto

declare words_be.simps [simp del]

fun sha1_schedule :: "nat \<Rightarrow> u32 list \<Rightarrow> u32 list" where
  "sha1_schedule 0 ws = []"
| "sha1_schedule (Suc n) ws = hd ws # sha1_schedule n
     (tl ws @ [sha1_rotl 1 (ws ! 13 XOR ws ! 8 XOR ws ! 2 XOR ws ! 0)])"

definition sha1_f :: "nat \<Rightarrow> u32 \<Rightarrow> u32 \<Rightarrow> u32 \<Rightarrow> u32" where
  "sha1_f t b c d =
     (if t < 20 then (b AND c) OR (NOT b AND d)
      else if t < 40 then b XOR c XOR d
      else if t < 60 then ((b OR c) AND d) OR (b AND c)
      else b XOR c XOR d)"

definition sha1_k :: "nat \<Rightarrow> u32" where
  "sha1_k t = (if t < 20 then 0x5A827999 else if t < 40 then 0x6ED9EBA1
     else if t < 60 then 0x8F1BBCDC else 0xCA62C1D6)"

type_synonym sha1_state = "u32 \<times> u32 \<times> u32 \<times> u32 \<times> u32"

fun sha1_rounds :: "nat \<Rightarrow> u32 list \<Rightarrow> sha1_state \<Rightarrow> sha1_state" where
  "sha1_rounds t [] st = st"
| "sha1_rounds t (w # ws) (a, b, c, d, e) = sha1_rounds (Suc t) ws
     (sha1_rotl 5 a + sha1_f t b c d + e + w + sha1_k t, a, sha1_rotl 30 b, c, d)"

definition sha1_block :: "sha1_state \<Rightarrow> bytes \<Rightarrow> sha1_state" where
  "sha1_block st blk =
     (case st of (h0, h1, h2, h3, h4) \<Rightarrow>
      case sha1_rounds 0 (sha1_schedule 80 (words_be blk)) st of (a, b, c, d, e) \<Rightarrow>
        (h0 + a, h1 + b, h2 + c, h3 + d, h4 + e))"

function sha1_blocks :: "sha1_state \<Rightarrow> bytes \<Rightarrow> sha1_state" where
  "sha1_blocks st bs = (if length bs < 64 then st else sha1_blocks (sha1_block st (take 64 bs)) (drop 64 bs))"
  by auto
termination by (relation "measure (length \<circ> snd)") auto

declare sha1_blocks.simps [simp del]

definition sha1 :: "bytes \<Rightarrow> bytes" where
  "sha1 msg =
     (case sha1_blocks (0x67452301, 0xEFCDAB89, 0x98BADCFE, 0x10325476, 0xC3D2E1F0) (sha1_pad msg) of
        (h0, h1, h2, h3, h4) \<Rightarrow> put_be 4 h0 @ put_be 4 h1 @ put_be 4 h2 @ put_be 4 h3 @ put_be 4 h4)"

lemma length_sha1: "length (sha1 msg) = 20"
  by (simp add: sha1_def split: prod.splits)

end
