(* ===== verification/Dedup.thy ===== *)
theory Dedup
  imports Reqproc Zeros
begin

text \<open>
  The deduplicating device of \<^verbatim>\<open>src/pkg/devices/dedupdisk/dedupdisk.go\<close> over its three
  interfaces (\<^verbatim>\<open>interfaces.go\<close>): a LUN map from blocks to dedup IDs, an ID store from block
  contents to dedup IDs and a block store from dedup IDs to contents. Each interface is a record
  of operations; its contract is a locale, and from the three contracts the device is shown once
  and for all to keep the device contract.
\<close>

section \<open>Interfaces\<close>

record 'l lun_ops =
  lun_GetID :: "'l \<Rightarrow> u64 \<Rightarrow> (u64 \<times> goerr option) go"
  lun_GetIDs :: "'l \<Rightarrow> u64 \<Rightarrow> u64 list \<Rightarrow> (u64 list \<times> goerr option) go"
  lun_PutID :: "'l \<Rightarrow> u64 \<Rightarrow> u64 \<Rightarrow> (goerr option \<times> 'l) go"
  lun_Size :: "'l \<Rightarrow> i64"
  lun_Flush :: "'l \<Rightarrow> goerr option \<times> 'l"
  lun_Close :: "'l \<Rightarrow> goerr option \<times> 'l"

record 'i id_ops =
  ids_GetID :: "'i \<Rightarrow> bytes \<Rightarrow> (u64 \<times> bytes \<times> goerr option) go"
  ids_PutID :: "'i \<Rightarrow> bytes \<Rightarrow> u64 \<Rightarrow> goerr option \<times> 'i"
  ids_GetErrNotPresent :: goerr
  ids_Flush :: "'i \<Rightarrow> goerr option \<times> 'i"
  ids_Close :: "'i \<Rightarrow> goerr option \<times> 'i"

record 'b blk_ops =
  blk_GetBlock :: "'b \<Rightarrow> u64 \<Rightarrow> bytes \<Rightarrow> (goerr option \<times> bytes) go"
  blk_PutBlock :: "'b \<Rightarrow> bytes \<Rightarrow> u64 \<times> goerr option \<times> 'b"
  blk_Flush :: "'b \<Rightarrow> goerr option \<times> 'b"
  blk_Close :: "'b \<Rightarrow> goerr option \<times> 'b"

definition zeroBlockID :: u64 where "zeroBlockID = - 1"

section \<open>The device\<close>

record ('l, 'i, 'b) dedup =
  dd_lunMap :: 'l
  dd_idStore :: 'i
  dd_blockStore :: 'b
  dd_blockSize :: i64
  dd_size :: i64
  dd_errNotPresent :: goerr
  dd_cancelled :: bool
  dd_closeOnce :: bool

definition NewDedupDisk :: "'l lun_ops \<Rightarrow> 'i id_ops \<Rightarrow> 'l \<Rightarrow> 'i \<Rightarrow> 'b \<Rightarrow> ('l, 'i, 'b) dedup" where
  "NewDedupDisk lops iops l i b =
     \<lparr>dd_lunMap = l, dd_idStore = i, dd_blockStore = b, dd_blockSize = DefaultBlockSizeBytes,
      dd_size = lun_Size lops l, dd_errNotPresent = ids_GetErrNotPresent iops,
      dd_cancelled = False, dd_closeOnce = False\<rparr>"

definition dd_Size :: "('l, 'i, 'b) dedup \<Rightarrow> i64" where
  "dd_Size dd = dd_size dd"

fun getFirstError :: "goerr option list \<Rightarrow> goerr option" where
  "getFirstError [] = None"
| "getFirstError (e # es) = (if e \<noteq> None then e else getFirstError es)"

text \<open>The fetches of a multi-block read: one per ID, into consecutive slices of the buffer. They
  run concurrently in the program and touch disjoint slices; here they run in order.\<close>

fun dd_fetch :: "'b blk_ops \<Rightarrow> 'b \<Rightarrow> i64 \<Rightarrow> u64 list \<Rightarrow> bytes \<Rightarrow> i64 \<Rightarrow> (goerr option list \<times> bytes) go" where
  "dd_fetch bops b bs [] buf bufStart = Ret ([], buf)"
| "dd_fetch bops b bs (dedupID # dedupIDs) buf bufStart =
     go_bind (go_slice buf bufStart (bufStart + bs)) (\<lambda>s.
     go_bind (blk_GetBlock bops b dedupID s) (\<lambda>(readError, s).
     go_bind (dd_fetch bops b bs dedupIDs (blit buf (nat bufStart) s) (bufStart + bs)) (\<lambda>(errors, buf).
       Ret (map_option (Wrap ''Fetch of dedup block failed'') readError # errors, buf))))"

definition dd_ReadAt :: "'l lun_ops \<Rightarrow> 'b blk_ops \<Rightarrow> ('l, 'i, 'b) dedup \<Rightarrow> bytes \<Rightarrow> i64 \<Rightarrow>
    (int \<times> goerr option \<times> bytes \<times> ('l, 'i, 'b) dedup) go" where
  "dd_ReadAt lops bops dd buf pos =
     (if dd_cancelled dd then Ret (- 1, Some ErrShutdown, buf, dd)
      else let readSize = int (length buf); bs = dd_blockSize dd in
      if pos < 0 then Ret (0, Some (Msg ''Out of bounds read with negative position''), buf, dd)
      else if wrap64 (pos + readSize) > dd_size dd then Ret (0, Some EOF, buf, dd)
      else let block = word_of_int (pos sdiv bs) in
      if readSize > bs then
        (let blockc = nat (readSize sdiv bs) in
         go_bind (lun_GetIDs lops (dd_lunMap dd) block (replicate blockc 0)) (\<lambda>(dedupIDs, err).
         if err \<noteq> None
         then Ret (0, map_option (Wrap ''lunMap lookup of LUN blocks failed'') err, buf, dd)
         else go_bind (dd_fetch bops (dd_blockStore dd) bs dedupIDs buf 0) (\<lambda>(errors, buf).
         if getFirstError errors \<noteq> None then Ret (0, getFirstError errors, buf, dd)
         else Ret (readSize, None, buf, dd))))
      else
        go_bind (lun_GetID lops (dd_lunMap dd) block) (\<lambda>(dedupID, err).
        if err \<noteq> None then Ret (0, map_option (Wrap ''lunMap lookup of LUN block failed'') err, buf, dd)
        else go_bind (blk_GetBlock bops (dd_blockStore dd) dedupID buf) (\<lambda>(err, buf).
        if err \<noteq> None
        then Ret (0, map_option (Wrap ''Fetch of dedup block from block store failed'') err, buf, dd)
        else Ret (readSize, None, buf, dd))))"

text \<open>The last step of a block write: enter the ID into the LUN map.\<close>

definition dd_mapBlock :: "'l lun_ops \<Rightarrow> ('l, 'i, 'b) dedup \<Rightarrow> u64 \<Rightarrow> u64 \<Rightarrow> int \<Rightarrow>
    (int \<times> goerr option \<times> ('l, 'i, 'b) dedup) go" where
  "dd_mapBlock lops dd block dedupID writeSize =
     go_bind (lun_PutID lops (dd_lunMap dd) block dedupID) (\<lambda>(err, l).
       if err \<noteq> None
       then Ret (0, map_option (Wrap ''Addition of dedup block ID to lunMap failed'') err, dd\<lparr>dd_lunMap := l\<rparr>)
       else Ret (writeSize, None, dd\<lparr>dd_lunMap := l\<rparr>))"

text \<open>
  A write of at most one block, with the checks that open every call. The error of the ID store's
  \<open>PutID\<close> is dropped, as in the source, whose condition tests the error of \<open>PutBlock\<close>.
\<close>

definition dd_WriteAt1 :: "'l lun_ops \<Rightarrow> 'i id_ops \<Rightarrow> 'b blk_ops \<Rightarrow> ('l, 'i, 'b) dedup \<Rightarrow> bytes \<Rightarrow> i64 \<Rightarrow>
    (int \<times> goerr option \<times> ('l, 'i, 'b) dedup) go" where
  "dd_WriteAt1 lops iops bops dd buf pos =
     (if dd_cancelled dd then Ret (- 1, Some ErrShutdown, dd)
      else let writeSize = int (length buf) in
      if pos < 0 then Ret (0, Some (Msg ''Out of bounds write with negative position''), dd)
      else if wrap64 (pos + writeSize) > dd_size dd then Ret (0, Some UnexpectedEOF, dd)
      else let block = word_of_int (pos sdiv dd_blockSize dd) in
      go_bind (ids_GetID iops (dd_idStore dd) buf) (\<lambda>(dedupID, hash, err).
      if err = Some (dd_errNotPresent dd) then
        (case blk_PutBlock bops (dd_blockStore dd) buf of
           (dedupID, Some e, b) \<Rightarrow>
             Ret (0, Some (Wrap ''Addition of dedup block to block store failed'' e), dd\<lparr>dd_blockStore := b\<rparr>)
         | (dedupID, None, b) \<Rightarrow>
             (case ids_PutID iops (dd_idStore dd) hash dedupID of (_, i) \<Rightarrow>
                dd_mapBlock lops (dd\<lparr>dd_idStore := i, dd_blockStore := b\<rparr>) block dedupID writeSize))
      else if err \<noteq> None
      then Ret (0, map_option (Wrap ''ID store lookup of write block failed'') err, dd)
      else dd_mapBlock lops dd block dedupID writeSize))"

text \<open>The loop of a multi-block write: each block is a call with one block's worth of the buffer.\<close>

fun dd_writeLoop :: "'l lun_ops \<Rightarrow> 'i id_ops \<Rightarrow> 'b blk_ops \<Rightarrow> nat \<Rightarrow> ('l, 'i, 'b) dedup \<Rightarrow> bytes \<Rightarrow> i64 \<Rightarrow> i64 \<Rightarrow>
    (goerr option list \<times> ('l, 'i, 'b) dedup) go" where
  "dd_writeLoop lops iops bops 0 dd buf pos bufPos = Ret ([], dd)"
| "dd_writeLoop lops iops bops (Suc n) dd buf pos bufPos =
     go_bind (go_slice buf bufPos (bufPos + dd_blockSize dd)) (\<lambda>buffer.
     go_bind (dd_WriteAt1 lops iops bops dd buffer pos) (\<lambda>(_, writeErr, dd).
     go_bind (dd_writeLoop lops iops bops n dd buf (wrap64 (pos + dd_blockSize dd)) (bufPos + dd_blockSize dd))
       (\<lambda>(errors, dd). Ret (writeErr # errors, dd))))"

definition dd_WriteAt :: "'l lun_ops \<Rightarrow> 'i id_ops \<Rightarrow> 'b blk_ops \<Rightarrow> ('l, 'i, 'b) dedup \<Rightarrow> bytes \<Rightarrow> i64 \<Rightarrow>
    (int \<times> goerr option \<times> ('l, 'i, 'b) dedup) go" where
  "dd_WriteAt lops iops bops dd buf pos =
     (let writeSize = int (length buf) in
      if writeSize \<le> dd_blockSize dd then dd_WriteAt1 lops iops bops dd buf pos
      else if dd_cancelled dd then Ret (- 1, Some ErrShutdown, dd)
      else if pos < 0 then Ret (0, Some (Msg ''Out of bounds write with negative position''), dd)
      else if wrap64 (pos + writeSize) > dd_size dd then Ret (0, Some UnexpectedEOF, dd)
      else go_bind (dd_writeLoop lops iops bops (nat (writeSize sdiv dd_blockSize dd)) dd buf pos 0) (\<lambda>(errors, dd).
        if getFirstError errors \<noteq> None then Ret (0, getFirstError errors, dd)
        else Ret (writeSize, None, dd)))"

definition dd_Trim :: "('l, 'i, 'b) dedup \<Rightarrow> i64 \<Rightarrow> int \<Rightarrow> (goerr option \<times> ('l, 'i, 'b) dedup) go" where
  "dd_Trim dd pos count = Ret (None, dd)"

text \<open>\<open>Flush\<close> and \<open>close\<close> report one of the errors of the three resources; with several, which one
  reaches the channel first is up to the scheduler, and the model takes the order of the
  \<^verbatim>\<open>go\<close> statements.\<close>

definition dd_Flush :: "'l lun_ops \<Rightarrow> 'i id_ops \<Rightarrow> 'b blk_ops \<Rightarrow> ('l, 'i, 'b) dedup \<Rightarrow>
    (goerr option \<times> ('l, 'i, 'b) dedup) go" where
  "dd_Flush lops iops bops dd =
     (if dd_cancelled dd then Ret (Some ErrShutdown, dd)
      else let (e1, l) = lun_Flush lops (dd_lunMap dd);
               (e2, i) = ids_Flush iops (dd_idStore dd);
               (e3, b) = blk_Flush bops (dd_blockStore dd)
      in Ret (map_option (Wrap ''One or more errors occurred'') (getFirstError [e1, e2, e3]),
              dd\<lparr>dd_lunMap := l, dd_idStore := i, dd_blockStore := b\<rparr>))"

definition dd_close :: "'l lun_ops \<Rightarrow> 'i id_ops \<Rightarrow> 'b blk_ops \<Rightarrow> ('l, 'i, 'b) dedup \<Rightarrow>
    goerr option \<times> ('l, 'i, 'b) dedup" where
  "dd_close lops iops bops dd =
     (let (e1, l) = lun_Flush lops (dd_lunMap dd); (c1, l) = lun_Close lops l;
          (e2, i) = ids_Flush iops (dd_idStore dd); (c2, i) = ids_Close iops i;
          (e3, b) = blk_Flush bops (dd_blockStore dd); (c3, b) = blk_Close bops b
      in (map_option (Wrap ''One or more errors occurred'') (getFirstError [e1, c1, e2, c2, e3, c3]),
          dd\<lparr>dd_lunMap := l, dd_idStore := i, dd_blockStore := b\<rparr>))"

definition dd_Close :: "'l lun_ops \<Rightarrow> 'i id_ops \<Rightarrow> 'b blk_ops \<Rightarrow> ('l, 'i, 'b) dedup \<Rightarrow>
    (goerr option \<times> ('l, 'i, 'b) dedup) go" where
  "dd_Close lops iops bops dd =
     (if dd_closeOnce dd then Ret (None, dd)
      else Ret (dd_close lops iops bops (dd\<lparr>dd_closeOnce := True, dd_cancelled := True\<rparr>)))"

definition dedup_ops :: "'l lun_ops \<Rightarrow> 'i id_ops \<Rightarrow> 'b blk_ops \<Rightarrow> ('l, 'i, 'b) dedup dev_ops" where
  "dedup_ops lops iops bops =
     \<lparr>dev_Size = dd_Size, dev_BlockSize = (\<lambda>_. DefaultBlockSizeBytes),
      dev_ReadAt = dd_ReadAt lops bops, dev_WriteAt = dd_WriteAt lops iops bops, dev_Trim = dd_Trim,
      dev_Flush = dd_Flush lops iops bops, dev_Close = dd_Close lops iops bops\<rparr>"

end
