(* ===== verification/Dedup_Laws.thy ===== *)
theory Dedup_Laws
  imports Dedup
begin

text \<open>
  The contracts of the three stores of the dedup device, as locales, and the proof that a device
  over stores that keep them keeps the device contract: its contents are the blocks that the LUN
  map names. Deduplication is by hash, so the proof is relative to a set \<open>U\<close> of block contents on
  which the hash has no collisions, and to stores that can hold as many blocks as \<open>U\<close> has.
\<close>

section \<open>Contracts\<close>

locale lun_map =
  fixes lops :: "'l lun_ops" and linv :: "'l \<Rightarrow> bool" and lmap :: "'l \<Rightarrow> u64 list"
  assumes lun_bound: "linv l \<Longrightarrow> 4096 * length (lmap l) < 2 ^ 63"
    and lun_size: "linv l \<Longrightarrow> lun_Size lops l = 4096 * int (length (lmap l))"
    and lun_get: "linv l \<Longrightarrow> unat k < length (lmap l) \<Longrightarrow> lun_GetID lops l k = Ret (lmap l ! unat k, None)"
    and lun_gets: "linv l \<Longrightarrow> unat k + length ids0 \<le> length (lmap l) \<Longrightarrow>
      lun_GetIDs lops l k ids0 = Ret (chunk (lmap l) (unat k) (length ids0), None)"
    and lun_put: "linv l \<Longrightarrow> unat k < length (lmap l) \<Longrightarrow>
      \<exists>l'. lun_PutID lops l k i = Ret (None, l') \<and> linv l' \<and> lmap l' = (lmap l)[unat k := i]"
    and lun_flush: "linv l \<Longrightarrow> \<exists>l'. lun_Flush lops l = (None, l') \<and> linv l' \<and> lmap l' = lmap l"

locale id_store =
  fixes iops :: "'i id_ops" and iinv :: "'i \<Rightarrow> bool" and ids :: "'i \<Rightarrow> bytes \<Rightarrow> u64 option"
    and hash :: "bytes \<Rightarrow> bytes"
  assumes ids_zero: "iinv i \<Longrightarrow> IsZeros c \<Longrightarrow> ids_GetID iops i c = Ret (zeroBlockID, [], None)"
    and ids_hit: "iinv i \<Longrightarrow> \<not> IsZeros c \<Longrightarrow> ids i (hash c) = Some k \<Longrightarrow> ids_GetID iops i c = Ret (k, [], None)"
    and ids_miss: "iinv i \<Longrightarrow> \<not> IsZeros c \<Longrightarrow> ids i (hash c) = None \<Longrightarrow>
      ids_GetID iops i c = Ret (0, hash c, Some (ids_GetErrNotPresent iops))"
    and ids_put: "iinv i \<Longrightarrow> \<exists>i'. ids_PutID iops i h k = (None, i') \<and> iinv i' \<and> ids i' = (ids i)(h \<mapsto> k)"
    and ids_flush: "iinv i \<Longrightarrow> \<exists>i'. ids_Flush iops i = (None, i') \<and> iinv i' \<and> ids i' = ids i"

locale block_store =
  fixes bops :: "'b blk_ops" and binv :: "'b \<Rightarrow> bool" and blk :: "'b \<Rightarrow> u64 \<Rightarrow> bytes option"
    and used :: "'b \<Rightarrow> nat" and cap :: nat
  assumes blk_zero: "binv b \<Longrightarrow> blk b zeroBlockID = Some (zeros 4096)"
    and blk_len: "binv b \<Longrightarrow> blk b k = Some c \<Longrightarrow> length c = 4096"
    and blk_get: "binv b \<Longrightarrow> blk b k = Some c \<Longrightarrow> length buf = 4096 \<Longrightarrow> blk_GetBlock bops b k buf = Ret (None, c)"
    and blk_put: "binv b \<Longrightarrow> length buf = 4096 \<Longrightarrow> used b < cap \<Longrightarrow>
      \<exists>k b'. blk_PutBlock bops b buf = (k, None, b') \<and> blk b k = None \<and> binv b' \<and>
        blk b' = (blk b)(k \<mapsto> buf) \<and> used b' = Suc (used b)"
    and blk_flush: "binv b \<Longrightarrow> \<exists>b'. blk_Flush bops b = (None, b') \<and> binv b' \<and> blk b' = blk b \<and> used b' = used b"

section \<open>The abstract device\<close>

definition dd_blocks :: "('l \<Rightarrow> u64 list) \<Rightarrow> ('b \<Rightarrow> u64 \<Rightarrow> bytes option) \<Rightarrow> ('l, 'i, 'b) dedup \<Rightarrow> bytes list" where
  "dd_blocks lmap blk dd = map (\<lambda>k. the (blk (dd_blockStore dd) k)) (lmap (dd_lunMap dd))"

definition dd_content :: "('l \<Rightarrow> u64 list) \<Rightarrow> ('b \<Rightarrow> u64 \<Rightarrow> bytes option) \<Rightarrow> ('l, 'i, 'b) dedup \<Rightarrow> bytes" where
  "dd_content lmap blk dd = concat (dd_blocks lmap blk dd)"

text \<open>The blocks of a buffer are among those on which the hash is known to be collision free.\<close>

definition dd_takes :: "bytes set \<Rightarrow> ('l, 'i, 'b) dedup \<Rightarrow> bytes \<Rightarrow> i64 \<Rightarrow> bool" where
  "dd_takes U dd buf pos \<longleftrightarrow> (\<forall>k < length buf div 4096. chunk buf (4096 * k) 4096 \<in> U)"

text \<open>Every mapped ID is stored, and every hash in the ID store leads to the block with that hash.\<close>

definition dd_consistent :: "(bytes \<Rightarrow> bytes) \<Rightarrow> bytes set \<Rightarrow> u64 list \<Rightarrow> (bytes \<Rightarrow> u64 option) \<Rightarrow>
    (u64 \<Rightarrow> bytes option) \<Rightarrow> bool" where
  "dd_consistent hash U lm im bm \<longleftrightarrow>
     set lm \<subseteq> dom bm \<and> (\<forall>h k. im h = Some k \<longrightarrow> (\<exists>c \<in> U. h = hash c \<and> bm k = Some c))"

definition dd_open :: "'i id_ops \<Rightarrow> u64 list \<Rightarrow> ('l, 'i, 'b) dedup \<Rightarrow> bool" where
  "dd_open iops lm dd \<longleftrightarrow> \<not> dd_cancelled dd \<and> dd_blockSize dd = 4096 \<and>
     dd_size dd = 4096 * int (length lm) \<and> dd_errNotPresent dd = ids_GetErrNotPresent iops"

locale dedup_device = lun_map + id_store + block_store +
  fixes U :: "bytes set" and inv :: "('a, 'b, 'c) dedup \<Rightarrow> bool"
  assumes inv_iff: "inv dd \<longleftrightarrow> linv (dd_lunMap dd) \<and> iinv (dd_idStore dd) \<and> binv (dd_blockStore dd) \<and>
      dd_open iops (lmap (dd_lunMap dd)) dd \<and> inj_on hash U \<and> finite U \<and> card U \<le> cap \<and>
      dd_consistent hash U (lmap (dd_lunMap dd)) (ids (dd_idStore dd)) (blk (dd_blockStore dd)) \<and>
      used (dd_blockStore dd) \<le> card (dom (ids (dd_idStore dd)))"
begin

abbreviation blocks :: "('a, 'b, 'c) dedup \<Rightarrow> bytes list" where
  "blocks \<equiv> dd_blocks lmap blk"

lemma blocks_len: "inv dd \<Longrightarrow> \<forall>x \<in> set (blocks dd). length x = 4096"
  using blk_len by (auto simp: inv_iff dd_blocks_def dd_consistent_def dom_def subset_iff)

lemma content_length: "inv dd \<Longrightarrow> length (dd_content lmap blk dd) = 4096 * length (lmap (dd_lunMap dd))"
  using length_concat_blocks [OF blocks_len] by (simp add: dd_content_def dd_blocks_def)

text \<open>Entering a stored block into the LUN map writes that block of the contents.\<close>

lemma map_block:
  assumes "inv dd" "k < length (lmap (dd_lunMap dd))" "blk (dd_blockStore dd) i = Some c"
  shows "\<exists>dd'. dd_mapBlock lops dd (of_nat k) i n = Ret (n, None, dd') \<and> inv dd' \<and>
    blocks dd' = (blocks dd)[k := c] \<and> lmap (dd_lunMap dd') = (lmap (dd_lunMap dd))[k := i]"
proof -
  have l: "linv (dd_lunMap dd)" "4096 * length (lmap (dd_lunMap dd)) < 2 ^ 63"
    using assms(1) lun_bound by (auto simp: inv_iff)
  have k: "unat (of_nat k :: u64) = k" using assms(2) l(2) by (simp add: unat_of_nat)
  obtain l' where l': "lun_PutID lops (dd_lunMap dd) (of_nat k) i = Ret (None, l')" "linv l'"
    "lmap l' = (lmap (dd_lunMap dd))[k := i]"
    using lun_put [OF l(1), of "of_nat k" i] assms(2) by (auto simp: k)
  have "inv (dd\<lparr>dd_lunMap := l'\<rparr>)"
    using assms l' by (auto simp: inv_iff dd_open_def dd_consistent_def dest: set_update_subset_insert [THEN subsetD])
  then show ?thesis
    using l' assms(3) by (simp add: dd_mapBlock_def dd_blocks_def map_update)
qed

text \<open>Storing a new block and entering its hash keeps all other blocks.\<close>

lemma store_block:
  assumes "inv dd" "c \<in> U" "length c = 4096" "ids (dd_idStore dd) (hash c) = None"
  shows "\<exists>k b i. blk_PutBlock bops (dd_blockStore dd) c = (k, None, b) \<and>
    ids_PutID iops (dd_idStore dd) (hash c) k = (None, i) \<and>
    inv (dd\<lparr>dd_idStore := i, dd_blockStore := b\<rparr>) \<and> blk b k = Some c \<and>
    blocks (dd\<lparr>dd_idStore := i, dd_blockStore := b\<rparr>) = blocks dd"
proof -
  let ?im = "ids (dd_idStore dd)"
  have st: "iinv (dd_idStore dd)" "binv (dd_blockStore dd)" and u: "finite U" "card U \<le> cap"
    and con: "dd_consistent hash U (lmap (dd_lunMap dd)) ?im (blk (dd_blockStore dd))"
    and us: "used (dd_blockStore dd) \<le> card (dom ?im)"
    using assms(1) by (simp_all add: inv_iff)
  have dm: "dom ?im \<subseteq> hash ` U" using con by (fastforce simp: dd_consistent_def)
  then have fin: "finite (dom ?im)" using u(1) by (meson finite_imageI finite_subset)
  have "insert (hash c) (dom ?im) \<subseteq> hash ` U" using dm assms(2) by simp
  then have "card (insert (hash c) (dom ?im)) \<le> card U"
    using u(1) by (meson card_image_le card_mono finite_imageI le_trans)
  then have "used (dd_blockStore dd) < cap" using us u(2) fin assms(4) by (simp add: domIff)
  then obtain k b where b: "blk_PutBlock bops (dd_blockStore dd) c = (k, None, b)"
    "blk (dd_blockStore dd) k = None" "binv b" "blk b = (blk (dd_blockStore dd))(k \<mapsto> c)"
    "used b = Suc (used (dd_blockStore dd))"
    using blk_put [OF st(2) assms(3)] by blast
  obtain i where i: "ids_PutID iops (dd_idStore dd) (hash c) k = (None, i)" "iinv i" "ids i = ?im(hash c \<mapsto> k)"
    using ids_put [OF st(1)] by blast
  have "dd_consistent hash U (lmap (dd_lunMap dd)) (ids i) (blk b)"
    using con b(2) assms(2) by (fastforce simp: dd_consistent_def i(3) b(4))
  moreover have "used b \<le> card (dom (ids i))" using us fin assms(4) by (simp add: b(5) i(3) domIff)
  ultimately have "inv (dd\<lparr>dd_idStore := i, dd_blockStore := b\<rparr>)"
    using assms(1) b(3) i(2) by (simp add: inv_iff dd_open_def)
  moreover have "blocks (dd\<lparr>dd_idStore := i, dd_blockStore := b\<rparr>) = blocks dd"
    using con b(2) by (auto simp: dd_blocks_def b(4) dd_consistent_def)
  ultimately show ?thesis using b(1,4) i(1) by auto
qed

lemma write_block:
  assumes "inv dd" "k < length (lmap (dd_lunMap dd))" "length buf = 4096" "buf \<in> U"
  shows "\<exists>dd'. dd_WriteAt1 lops iops bops dd buf (4096 * int k) = Ret (4096, None, dd') \<and> inv dd' \<and>
    blocks dd' = (blocks dd)[k := buf] \<and> length (lmap (dd_lunMap dd')) = length (lmap (dd_lunMap dd))"
proof -
  have st: "linv (dd_lunMap dd)" "iinv (dd_idStore dd)" "binv (dd_blockStore dd)"
    and op: "dd_open iops (lmap (dd_lunMap dd)) dd" and inj: "inj_on hash U"
    and con: "dd_consistent hash U (lmap (dd_lunMap dd)) (ids (dd_idStore dd)) (blk (dd_blockStore dd))"
    using assms(1) by (simp_all add: inv_iff)
  have bnd: "4096 * int k + 4096 \<le> dd_size dd" "dd_size dd < 2 ^ 63"
    using lun_bound [OF st(1)] op assms(2) by (simp_all add: dd_open_def)
  have blk0: "word_of_int (4096 * int k sdiv 4096) = (of_nat k :: u64)" by simp
  have body: "dd_WriteAt1 lops iops bops dd buf (4096 * int k) =
    go_bind (ids_GetID iops (dd_idStore dd) buf) (\<lambda>(dedupID, hash, err).
      if err = Some (ids_GetErrNotPresent iops) then
        (case blk_PutBlock bops (dd_blockStore dd) buf of
           (dedupID, Some e, b) \<Rightarrow>
             Ret (0, Some (Wrap ''Addition of dedup block to block store failed'' e), dd\<lparr>dd_blockStore := b\<rparr>)
         | (dedupID, None, b) \<Rightarrow>
             (case ids_PutID iops (dd_idStore dd) hash dedupID of (_, i) \<Rightarrow>
                dd_mapBlock lops (dd\<lparr>dd_idStore := i, dd_blockStore := b\<rparr>) (of_nat k) dedupID 4096))
      else if err \<noteq> None
      then Ret (0, map_option (Wrap ''ID store lookup of write block failed'') err, dd)
      else dd_mapBlock lops dd (of_nat k) dedupID 4096)"
    using op bnd assms(3) blk0 by (simp add: dd_WriteAt1_def dd_open_def Let_def in64_def)
  consider (zero) "IsZeros buf" | (hit) i where "\<not> IsZeros buf" "ids (dd_idStore dd) (hash buf) = Some i"
    | (miss) "\<not> IsZeros buf" "ids (dd_idStore dd) (hash buf) = None" by blast
  then show ?thesis
  proof cases
    case zero
    then have "zeros 4096 = buf" using assms(3) by (auto simp: IsZeros_iff intro: replicate_eqI [symmetric])
    then have "blk (dd_blockStore dd) zeroBlockID = Some buf" using blk_zero [OF st(3)] by simp
    then show ?thesis
      using map_block [OF assms(1,2), of zeroBlockID buf 4096] ids_zero [OF st(2) zero] by (auto simp: body)
  next
    case hit
    then have "blk (dd_blockStore dd) i = Some buf"
      using con inj assms(4) by (fastforce simp: dd_consistent_def dest: inj_onD)
    then show ?thesis
      using map_block [OF assms(1,2), of i buf 4096] ids_hit [OF st(2) hit] by (auto simp: body)
  next
    case miss
    obtain i b s where s: "blk_PutBlock bops (dd_blockStore dd) buf = (i, None, b)"
      "ids_PutID iops (dd_idStore dd) (hash buf) i = (None, s)"
      "inv (dd\<lparr>dd_idStore := s, dd_blockStore := b\<rparr>)" "blk b i = Some buf"
      "blocks (dd\<lparr>dd_idStore := s, dd_blockStore := b\<rparr>) = blocks dd"
      using store_block [OF assms(1,4,3) miss(2)] by blast
    show ?thesis
      using map_block [OF s(3), of k i buf 4096] assms(2) s ids_miss [OF st(2) miss] by (auto simp: body)
  qed
qed

lemma write_block_content:
  assumes "inv dd" "k < length (lmap (dd_lunMap dd))" "length buf = 4096" "buf \<in> U"
  obtains dd' where "dd_WriteAt1 lops iops bops dd buf (4096 * int k) = Ret (4096, None, dd')" "inv dd'"
    "dd_content lmap blk dd' = blit (dd_content lmap blk dd) (4096 * k) buf"
    "length (lmap (dd_lunMap dd')) = length (lmap (dd_lunMap dd))"
proof -
  obtain dd' where dd': "dd_WriteAt1 lops iops bops dd buf (4096 * int k) = Ret (4096, None, dd')" "inv dd'"
    "blocks dd' = (blocks dd)[k := buf]" "length (lmap (dd_lunMap dd')) = length (lmap (dd_lunMap dd))"
    using write_block [OF assms] by blast
  moreover have "blit (concat (blocks dd)) (4096 * k) buf = concat ((blocks dd)[k := buf])"
    using blit_concat_blocks [OF blocks_len [OF assms(1)], of k buf] assms(2,3) by (simp add: dd_blocks_def)
  ultimately show thesis using that by (simp add: dd_content_def)
qed

lemma write_loop:
  "inv dd \<Longrightarrow> k + n \<le> length (lmap (dd_lunMap dd)) \<Longrightarrow> j + 4096 * n \<le> length buf \<Longrightarrow>
   \<forall>m < n. chunk buf (j + 4096 * m) 4096 \<in> U \<Longrightarrow>
   \<exists>errs dd'. dd_writeLoop lops iops bops n dd buf (4096 * int k) (int j) = Ret (errs, dd') \<and>
     getFirstError errs = None \<and> inv dd' \<and>
     dd_content lmap blk dd' = blit (dd_content lmap blk dd) (4096 * k) (chunk buf j (4096 * n))"
proof (induction n arbitrary: dd k j)
  case 0
  then show ?case by simp
next
  case (Suc n)
  have bs: "dd_blockSize dd = 4096" and bnd: "4096 * length (lmap (dd_lunMap dd)) < 2 ^ 63"
    using Suc.prems(1) lun_bound by (auto simp: inv_iff dd_open_def)
  have "chunk buf j 4096 \<in> U" using Suc.prems(4) by (metis add_0_right mult_0_right zero_less_Suc)
  then obtain d1 where d1: "dd_WriteAt1 lops iops bops dd (chunk buf j 4096) (4096 * int k) = Ret (4096, None, d1)"
    "inv d1" "dd_content lmap blk d1 = blit (dd_content lmap blk dd) (4096 * k) (chunk buf j 4096)"
    "length (lmap (dd_lunMap d1)) = length (lmap (dd_lunMap dd))"
    using write_block_content [OF Suc.prems(1), of k "chunk buf j 4096"] Suc.prems(2,3) by auto
  have bs1: "dd_blockSize d1 = 4096" using d1(2) by (simp add: inv_iff dd_open_def)
  have U: "\<forall>m < n. chunk buf (j + 4096 + 4096 * m) 4096 \<in> U"
    using Suc.prems(4) by (metis Suc_less_eq add.assoc mult_Suc_right)
  obtain errs d2 where d2: "dd_writeLoop lops iops bops n d1 buf (4096 * int (Suc k)) (int (j + 4096)) = Ret (errs, d2)"
    "getFirstError errs = None" "inv d2"
    "dd_content lmap blk d2 = blit (dd_content lmap blk d1) (4096 * Suc k) (chunk buf (j + 4096) (4096 * n))"
    using Suc.IH [OF d1(2), of "Suc k" "j + 4096"] Suc.prems(2,3) d1(4) U by auto
  have pos: "wrap64 (4096 * int k + 4096) = 4096 * int (Suc k)"
    using bnd Suc.prems(2) by (intro wrap64_id [THEN trans]) (auto simp: in64_def)
  have "blit (dd_content lmap blk dd) (4096 * k) (chunk buf j (4096 * Suc n)) = dd_content lmap blk d2"
    using blit_append [of "4096 * k" "chunk buf j 4096" "chunk buf (j + 4096) (4096 * n)" "dd_content lmap blk dd"]
      Suc.prems content_length [OF Suc.prems(1)]
    by (simp add: d2(4) d1(3) chunk_append_chunk algebra_simps)
  then show ?case
    using d1(1) d2 pos Suc.prems(3) by (simp add: bs bs1 add.commute)
qed

lemma aligned_request:
  assumes "inv dd" "whole_blocks DefaultBlockSizeBytes (length (dd_content lmap blk dd)) pos n"
  obtains k m where "pos = 4096 * int k" "n = 4096 * m" "0 < m" "k + m \<le> length (lmap (dd_lunMap dd))"
    "pos + int n \<le> dd_size dd" "dd_size dd < 2 ^ 63"
proof -
  have "4096 dvd pos" "0 \<le> pos" using assms(2) by (simp_all add: whole_blocks_def DefaultBlockSizeBytes_def)
  then have "pos = 4096 * int (nat (pos div 4096))" by (simp add: pos_imp_zdiv_nonneg_iff)
  then obtain k where k: "pos = 4096 * int k" by blast
  have "int 4096 dvd int n" using assms(2) by (simp add: whole_blocks_def DefaultBlockSizeBytes_def)
  then obtain m where m: "n = 4096 * m" unfolding int_dvd_int_iff by (elim dvdE)
  have "dd_size dd < 2 ^ 63" "dd_size dd = 4096 * int (length (lmap (dd_lunMap dd)))"
    using assms(1) lun_bound [of "dd_lunMap dd"] by (auto simp: inv_iff dd_open_def)
  then show thesis
    using that [OF k m] assms(2) content_length [OF assms(1)] by (auto simp: whole_blocks_def k m)
qed

lemma write_law_dd:
  assumes "inv dd" "whole_blocks DefaultBlockSizeBytes (length (dd_content lmap blk dd)) pos (length buf)"
    and "dd_takes U dd buf pos"
  shows "\<exists>dd'. dd_WriteAt lops iops bops dd buf pos = Ret (int (length buf), None, dd') \<and> inv dd' \<and>
    dd_content lmap blk dd' = blit (dd_content lmap blk dd) (nat pos) buf"
proof -
  obtain k m where km: "pos = 4096 * int k" "length buf = 4096 * m" "0 < m" "k + m \<le> length (lmap (dd_lunMap dd))"
    "pos + int (length buf) \<le> dd_size dd" "dd_size dd < 2 ^ 63"
    by (rule aligned_request [OF assms(1,2)])
  have op: "\<not> dd_cancelled dd" "dd_blockSize dd = 4096" using assms(1) by (simp_all add: inv_iff dd_open_def)
  have U: "\<forall>j < m. chunk buf (4096 * j) 4096 \<in> U" using assms(3) km(2) by (simp add: dd_takes_def)
  show ?thesis
  proof (cases "m = 1")
    case True
    then have "buf \<in> U" "length buf = 4096" using U km(2) by (auto simp: chunk_def)
    then obtain dd' where "dd_WriteAt1 lops iops bops dd buf (4096 * int k) = Ret (4096, None, dd')" "inv dd'"
      "dd_content lmap blk dd' = blit (dd_content lmap blk dd) (4096 * k) buf"
      using write_block_content [OF assms(1), of k buf] km(4) True by auto
    moreover have "nat pos = 4096 * k" using km(1) by simp
    ultimately show ?thesis using km(1,2) True op(2) by (auto simp: dd_WriteAt_def)
  next
    case False
    have w: "wrap64 (pos + int (length buf)) = pos + int (length buf)"
      using km(1,5,6) by (intro wrap64_id) (simp add: in64_def)
    obtain errs dd' where "dd_writeLoop lops iops bops m dd buf (4096 * int k) 0 = Ret (errs, dd')"
      "getFirstError errs = None" "inv dd'"
      "dd_content lmap blk dd' = blit (dd_content lmap blk dd) (4096 * k) (chunk buf 0 (4096 * m))"
      using write_loop [OF assms(1) km(4), of 0 buf] U km(2) by auto
    moreover have "nat pos = 4096 * k" "chunk buf 0 (4096 * m) = buf" using km(1,2) by (simp_all add: chunk_def)
    ultimately show ?thesis
      using km False op w by (auto simp: dd_WriteAt_def Let_def)
  qed
qed

text \<open>The fetches fill the buffer with the blocks that the IDs name.\<close>

lemma fetch_blocks:
  assumes "binv b"
  shows "\<forall>k \<in> set js. blk b k \<noteq> None \<Longrightarrow> j + 4096 * length js \<le> length buf \<Longrightarrow>
   \<exists>errs. dd_fetch bops b 4096 js buf (int j) =
     Ret (errs, blit buf j (concat (map (\<lambda>k. the (blk b k)) js))) \<and> getFirstError errs = None"
proof (induction js arbitrary: buf j)
  case Nil
  then show ?case by simp
next
  case (Cons k js)
  obtain c where c: "blk b k = Some c" using Cons.prems(1) by auto
  have len: "length c = 4096" using blk_len [OF assms c] .
  have cl: "length (concat (map (\<lambda>k. the (blk b k)) js)) = 4096 * length js"
    using length_concat_blocks [of "map (\<lambda>k. the (blk b k)) js" 4096] blk_len [OF assms] Cons.prems(1) by fastforce
  have get: "blk_GetBlock bops b k (chunk buf j 4096) = Ret (None, c)"
    using blk_get [OF assms c] Cons.prems(2) by simp
  obtain errs where errs: "dd_fetch bops b 4096 js (blit buf j c) (int (j + 4096)) =
      Ret (errs, blit (blit buf j c) (j + 4096) (concat (map (\<lambda>k. the (blk b k)) js)))" "getFirstError errs = None"
    using Cons.IH [of "j + 4096" "blit buf j c"] Cons.prems len by auto
  have "blit buf j (c @ concat (map (\<lambda>k. the (blk b k)) js)) =
      blit (blit buf j c) (j + 4096) (concat (map (\<lambda>k. the (blk b k)) js))"
    using blit_append [of j c "concat (map (\<lambda>k. the (blk b k)) js)" buf] cl len Cons.prems(2) by simp
  then show ?case using get errs c Cons.prems(2) by (simp add: add.commute)
qed

lemma chunk_map: "chunk (map f xs) i n = map f (chunk xs i n)"
  by (simp add: chunk_def drop_map take_map)

lemma read_law_dd:
  assumes "inv dd" "whole_blocks DefaultBlockSizeBytes (length (dd_content lmap blk dd)) pos (length buf)"
  shows "dd_ReadAt lops bops dd buf pos =
    Ret (int (length buf), None, chunk (dd_content lmap blk dd) (nat pos) (length buf), dd)"
proof -
  obtain k m where km: "pos = 4096 * int k" "length buf = 4096 * m" "0 < m" "k + m \<le> length (lmap (dd_lunMap dd))"
    "pos + int (length buf) \<le> dd_size dd" "dd_size dd < 2 ^ 63"
    by (rule aligned_request [OF assms])
  have op: "\<not> dd_cancelled dd" "dd_blockSize dd = 4096" "linv (dd_lunMap dd)" "binv (dd_blockStore dd)"
    and dom: "set (lmap (dd_lunMap dd)) \<subseteq> dom (blk (dd_blockStore dd))"
    using assms(1) by (simp_all add: inv_iff dd_open_def dd_consistent_def)
  have w: "wrap64 (pos + int (length buf)) = pos + int (length buf)"
    using km(1,5,6) by (intro wrap64_id) (simp add: in64_def)
  have u: "unat (of_nat k :: u64) = k" using km lun_bound [OF op(3)] by (simp add: unat_of_nat)
  have p: "nat pos = 4096 * k" "word_of_int (pos sdiv 4096) = (of_nat k :: u64)" using km(1) by simp_all
  let ?ids = "chunk (lmap (dd_lunMap dd)) k m"
  have c: "chunk (dd_content lmap blk dd) (4096 * k) (4096 * m) =
      concat (map (\<lambda>i. the (blk (dd_blockStore dd) i)) ?ids)"
    using chunk_concat_blocks [OF blocks_len [OF assms(1)], of k m]
    by (simp add: dd_content_def dd_blocks_def chunk_map)
  show ?thesis
  proof (cases "m = 1")
    case True
    let ?i = "lmap (dd_lunMap dd) ! k"
    have k: "k < length (lmap (dd_lunMap dd))" using km(4) True by simp
    then have "?i \<in> dom (blk (dd_blockStore dd))" using dom by (meson nth_mem subsetD)
    then obtain x where x: "blk (dd_blockStore dd) ?i = Some x" by blast
    have len: "length buf = 4096" using km(2) True by simp
    have "?ids = [?i]" using k True by (simp add: chunk_def take_Suc hd_drop_conv_nth)
    then have "chunk (dd_content lmap blk dd) (nat pos) (length buf) = x"
      using c x p(1) True len by simp
    moreover have "lun_GetID lops (dd_lunMap dd) (of_nat k) = Ret (?i, None)"
      using lun_get [OF op(3), of "of_nat k"] k u by simp
    moreover have "blk_GetBlock bops (dd_blockStore dd) ?i buf = Ret (None, x)" using blk_get [OF op(4) x len] .
    ultimately show ?thesis
      using km(1,5) len op(1,2) w p(2) by (simp add: dd_ReadAt_def Let_def)
  next
    case False
    have "lun_GetIDs lops (dd_lunMap dd) (of_nat k) (replicate m 0) = Ret (?ids, None)"
      using lun_gets [OF op(3), of "of_nat k" "replicate m 0"] km(4) u by simp
    moreover have "\<forall>i \<in> set ?ids. blk (dd_blockStore dd) i \<noteq> None"
      using dom by (auto simp: chunk_def dest!: in_set_takeD in_set_dropD)
    moreover have "length (concat (map (\<lambda>i. the (blk (dd_blockStore dd) i)) ?ids)) = length buf"
      unfolding c [symmetric] using km(2,4) content_length [OF assms(1)] by simp
    moreover have "length ?ids = m" using km(4) by simp
    ultimately obtain errs where "dd_fetch bops (dd_blockStore dd) 4096 ?ids buf 0 =
        Ret (errs, chunk (dd_content lmap blk dd) (4096 * k) (4096 * m))" "getFirstError errs = None"
      "lun_GetIDs lops (dd_lunMap dd) (of_nat k) (replicate m 0) = Ret (?ids, None)"
      using fetch_blocks [OF op(4), of ?ids 0 buf] km(2) c by (auto simp: blit_def)
    then show ?thesis
      using km False op(1,2) w p by (simp add: dd_ReadAt_def Let_def)
  qed
qed

end

sublocale dedup_device \<subseteq> block_device "dedup_ops lops iops bops" inv "dd_content lmap blk" "dd_takes U"
proof (unfold_locales, goal_cases)
  case (3 d)
  then show ?case using content_length [OF 3] lun_bound [of "dd_lunMap d"] by (simp add: inv_iff)
next
  case (4 d pos buf)
  then show ?case using read_law_dd [OF 4] by (simp add: dedup_ops_def)
next
  case (5 d pos buf)
  then show ?case using write_law_dd by (simp add: dedup_ops_def)
next
  case (7 d)
  then have st: "linv (dd_lunMap d)" "iinv (dd_idStore d)" "binv (dd_blockStore d)" by (simp_all add: inv_iff)
  obtain l i b where
    "lun_Flush lops (dd_lunMap d) = (None, l)" "linv l" "lmap l = lmap (dd_lunMap d)"
    "ids_Flush iops (dd_idStore d) = (None, i)" "iinv i" "ids i = ids (dd_idStore d)"
    "blk_Flush bops (dd_blockStore d) = (None, b)" "binv b" "blk b = blk (dd_blockStore d)"
    "used b = used (dd_blockStore d)"
    using lun_flush [OF st(1)] ids_flush [OF st(2)] blk_flush [OF st(3)] by metis
  with 7 show ?case
    by (auto simp: dedup_ops_def dd_Flush_def inv_iff dd_open_def dd_content_def dd_blocks_def)
qed (auto simp: dedup_ops_def DefaultBlockSizeBytes_def dd_Size_def dd_Trim_def content_length
      inv_iff dd_open_def)

end
