(* ===== verification/Mmap_Lun.thy ===== *)
theory Mmap_Lun
  imports Dedup_Laws OsFile
begin

text \<open>
  The LUN map of \<^verbatim>\<open>src/pkg/devices/dedupdisk/impls/mmaplunmap.go\<close>: a file of 64 bit dedup IDs,
  mapped into memory and read through an unsafe cast of the mapping to \<^verbatim>\<open>[]uint64\<close>. The mapping
  package is a parameter: \<open>gmap\<close> answers a file's contents with the mapping or an error, \<open>gsync\<close>
  is the error of its \<open>Sync\<close>.
\<close>

section \<open>Definitions\<close>

record mmapLUNmap =
  lm_file :: osfile
  lm_rawBytes :: bytes
  lm_size :: i64

definition lm_ids :: "mmapLUNmap \<Rightarrow> u64 list" where
  "lm_ids lm = longs (length (lm_rawBytes lm) div 8) (lm_rawBytes lm)"

text \<open>The loop that fills a new map with the ID of the zero block.\<close>

fun lm_fill :: "nat \<Rightarrow> bufw \<Rightarrow> goerr option \<times> bufw" where
  "lm_fill 0 w = (None, w)"
| "lm_fill (Suc n) w =
     (case bw_WriteBytes w (put_le 8 zeroBlockID) of
        (Some e, w) \<Rightarrow> (Some e, w)
      | (None, w) \<Rightarrow> lm_fill n w)"

definition NewMmapLUNmap :: "(bytes \<Rightarrow> goerr + bytes) \<Rightarrow> goerr + osfile \<Rightarrow> goerr option \<Rightarrow> i64 \<Rightarrow> i64 \<Rightarrow>
    (goerr + mmapLUNmap) go" where
  "NewMmapLUNmap gmap opened statErr lunBlockSize ifCreateSize =
    (if lunBlockSize = 0 then Panic
     else let idCount = ifCreateSize sdiv lunBlockSize in Ret
    (case opened of
       Inl e \<Rightarrow> Inl (Wrap ''Could not open backing file'' e)
     | Inr f \<Rightarrow>
    (case statErr of
       Some e \<Rightarrow> Inl (Wrap ''Could not stat backing file'' e)
     | None \<Rightarrow>
    (let created =
       (if length (fdata f) < 1 then
          (case lm_fill (nat idCount) (bw_new f) of
             (Some e, _) \<Rightarrow> Inl (Wrap ''Could not zero fill backing file, write failed'' e)
           | (None, w) \<Rightarrow>
          (case bw_Flush w of
             (Some e, _) \<Rightarrow> Inl (Wrap ''Could not zero fill backing file, flush failed'' e)
           | (None, w) \<Rightarrow>
          (case file_Sync (bw_file w) of
             Some e \<Rightarrow> Inl (Wrap ''Could not zero fill backing file, sync failed'' e)
           | None \<Rightarrow> Inr (bw_file w))))
        else Inr f)
     in case created of
          Inl e \<Rightarrow> Inl e
        | Inr f \<Rightarrow>
          (case gmap (fdata f) of
             Inl e \<Rightarrow> Inl (Wrap ''Could not mmap backing file'' e)
           | Inr raw \<Rightarrow> Inr \<lparr>lm_file = f, lm_rawBytes = raw, lm_size = idCount * lunBlockSize\<rparr>)))))"

definition lm_GetID :: "mmapLUNmap \<Rightarrow> u64 \<Rightarrow> (u64 \<times> goerr option) go" where
  "lm_GetID lm block =
     (if block > of_nat (length (lm_ids lm)) then Ret (0, Some (Wrap ''Out of bounds read'' EOF))
      else go_bind (go_index (lm_ids lm) (uint block)) (\<lambda>dedupID. Ret (dedupID, None)))"

definition lm_GetIDs :: "mmapLUNmap \<Rightarrow> u64 \<Rightarrow> u64 list \<Rightarrow> (u64 list \<times> goerr option) go" where
  "lm_GetIDs lm startBlock dedupIDs =
     (let end = startBlock + of_nat (length dedupIDs) in
      if end > of_nat (length (lm_ids lm)) then Ret (dedupIDs, Some (Wrap ''Out of bounds read'' EOF))
      else go_bind (go_slice (lm_ids lm) (uint startBlock) (uint end)) (\<lambda>s.
        Ret (go_copy dedupIDs s, None)))"

definition lm_PutID :: "mmapLUNmap \<Rightarrow> u64 \<Rightarrow> u64 \<Rightarrow> (goerr option \<times> mmapLUNmap) go" where
  "lm_PutID lm block dedupID =
     (if block > word_of_int (lm_size lm) then Ret (Some (Wrap ''Out of bounds write'' UnexpectedEOF), lm)
      else if unat block < length (lm_ids lm)
      then Ret (None, lm\<lparr>lm_rawBytes := blit (lm_rawBytes lm) (8 * unat block) (put_le 8 dedupID)\<rparr>)
      else Panic)"

definition lm_Size :: "mmapLUNmap \<Rightarrow> i64" where
  "lm_Size lm = lm_size lm"

definition lm_Flush :: "(bytes \<Rightarrow> goerr option) \<Rightarrow> mmapLUNmap \<Rightarrow> goerr option \<times> mmapLUNmap" where
  "lm_Flush gsync lm = (gsync (lm_rawBytes lm), lm)"

definition lm_Close :: "(bytes \<Rightarrow> goerr option) \<Rightarrow> mmapLUNmap \<Rightarrow> goerr option \<times> mmapLUNmap" where
  "lm_Close gsync lm =
     (let (flushErr, lm) = lm_Flush gsync lm; (err, f) = file_Close (lm_file lm);
          err = (if err = None \<and> flushErr \<noteq> None then flushErr else err)
      in (map_option (Wrap ''Could not close backing file'') err, lm\<lparr>lm_file := f\<rparr>))"

definition mmap_lun_ops :: "(bytes \<Rightarrow> goerr option) \<Rightarrow> mmapLUNmap lun_ops" where
  "mmap_lun_ops gsync = \<lparr>lun_GetID = lm_GetID, lun_GetIDs = lm_GetIDs, lun_PutID = lm_PutID,
     lun_Size = lm_Size, lun_Flush = lm_Flush gsync, lun_Close = lm_Close gsync\<rparr>"

section \<open>The contract\<close>

text \<open>The mapping has one entry per block of the LUN, and syncing it succeeds.\<close>

definition lm_inv :: "(bytes \<Rightarrow> goerr option) \<Rightarrow> mmapLUNmap \<Rightarrow> bool" where
  "lm_inv gsync lm \<longleftrightarrow> (\<forall>raw. gsync raw = None) \<and> 8 dvd length (lm_rawBytes lm) \<and>
     lm_size lm = 4096 * int (length (lm_ids lm)) \<and> lm_size lm < 2 ^ 63"

lemma length_lm_ids [simp]: "length (lm_ids lm) = length (lm_rawBytes lm) div 8"
  by (simp add: lm_ids_def)

interpretation mlm: lun_map "mmap_lun_ops gsync" "lm_inv gsync" lm_ids for gsync
proof (unfold_locales, goal_cases)
  case (3 l k)
  then show ?case
    by (auto simp: mmap_lun_ops_def lm_GetID_def go_index_def uint_less_int_iff word_less_nat_alt unat_of_nat lm_inv_def)
next
  case (4 l k ids0)
  then have u: "unat (k + of_nat (length ids0)) = unat k + length ids0"
    by (simp add: lm_inv_def unat_word_ariths unat_of_nat)
  moreover have "uint (k + of_nat (length ids0)) = uint k + int (length ids0)"
    using arg_cong [OF u, of int] by simp
  moreover have "int (unat k + length ids0) \<le> int (length (lm_ids l))" using 4 by (simp only: of_nat_le_iff)
  ultimately show ?case
    using 4 by (auto simp: mmap_lun_ops_def lm_GetIDs_def Let_def word_less_nat_alt unat_of_nat lm_inv_def go_copy_same)
next
  case (5 l k i)
  let ?n = "length (lm_rawBytes l) div 8"
  have n: "4096 * ?n < 2 ^ 63" "lm_size l = int (4096 * ?n)" using 5(1) by (auto simp: lm_inv_def)
  then have "unat (word_of_int (lm_size l) :: u64) = 4096 * ?n"
    unfolding n(2) by (simp only: of_int_of_nat_eq unat_of_nat) simp
  then have "\<not> k > word_of_int (lm_size l)" using 5(2) by (simp add: word_less_nat_alt)
  with 5 show ?case
    by (auto simp: mmap_lun_ops_def lm_PutID_def lm_inv_def lm_ids_def longs_store)
qed (auto simp: mmap_lun_ops_def lm_inv_def lm_Size_def lm_Flush_def)

end
