(* ===== verification/Pebble_Ids.thy ===== *)
theory Pebble_Ids
  imports Dedup_Laws Sha1
begin

text \<open>
  The ID store of \<^verbatim>\<open>src/pkg/devices/dedupdisk/impls/pebbleidstore.go\<close>: a database from SHA-1 hashes
  to 64 bit dedup IDs, with the zero block answered without it. The database package is a
  parameter, a record of its operations; \<open>kv_ok\<close> is what its documentation promises of them: a key
  reads as the value last set, and a key never set as \<open>ErrNotFound\<close>.
\<close>

section \<open>Definitions\<close>

record 'k kv_ops =
  kv_Get :: "'k \<Rightarrow> bytes \<Rightarrow> goerr + bytes"
  kv_Set :: "'k \<Rightarrow> bytes \<Rightarrow> bytes \<Rightarrow> goerr option \<times> 'k"
  kv_Flush :: "'k \<Rightarrow> goerr option \<times> 'k"
  kv_Close :: "'k \<Rightarrow> goerr option \<times> 'k"

record 'k pebbleIDStore =
  pi_dbPath :: string
  pi_db :: 'k
  pi_closeOnce :: bool

text \<open>The constructor, given what opening the database answers.\<close>

definition NewPebbleIDStore :: "goerr + 'k \<Rightarrow> string \<Rightarrow> goerr + 'k pebbleIDStore" where
  "NewPebbleIDStore opened dbPath =
     (case opened of
        Inl e \<Rightarrow> Inl (Wrap ''Could not open database'' e)
      | Inr db \<Rightarrow> Inr \<lparr>pi_dbPath = dbPath, pi_db = db, pi_closeOnce = False\<rparr>)"

definition pi_GetID :: "'k kv_ops \<Rightarrow> 'k pebbleIDStore \<Rightarrow> bytes \<Rightarrow> (u64 \<times> bytes \<times> goerr option) go" where
  "pi_GetID kv ps block =
     (if IsZeros block then Ret (zeroBlockID, [], None)
      else let sha1Hash = sha1 block in
      case kv_Get kv (pi_db ps) sha1Hash of
        Inl e \<Rightarrow>
          (if e = ErrNotFound then Ret (0, sha1Hash, Some ErrNotPresent)
           else Ret (0, [], Some (Wrap ''Database get failed'' e)))
      | Inr rawVal \<Rightarrow>
          (if length rawVal < 8 then Panic else Ret (get_le (take 8 rawVal), [], None)))"

definition pi_PutID :: "'k kv_ops \<Rightarrow> 'k pebbleIDStore \<Rightarrow> bytes \<Rightarrow> u64 \<Rightarrow> goerr option \<times> 'k pebbleIDStore" where
  "pi_PutID kv ps sha1Hash dedupID =
     (case kv_Set kv (pi_db ps) sha1Hash (put_le 8 dedupID) of
        (err, db) \<Rightarrow> (map_option (Wrap ''Database put failed'') err, ps\<lparr>pi_db := db\<rparr>))"

definition pi_Flush :: "'k kv_ops \<Rightarrow> 'k pebbleIDStore \<Rightarrow> goerr option \<times> 'k pebbleIDStore" where
  "pi_Flush kv ps = (case kv_Flush kv (pi_db ps) of (err, db) \<Rightarrow> (err, ps\<lparr>pi_db := db\<rparr>))"

definition pi_Close :: "'k kv_ops \<Rightarrow> 'k pebbleIDStore \<Rightarrow> goerr option \<times> 'k pebbleIDStore" where
  "pi_Close kv ps =
     (if pi_closeOnce ps then (None, ps)
      else (case kv_Close kv (pi_db ps) of (err, db) \<Rightarrow> (err, ps\<lparr>pi_db := db, pi_closeOnce := True\<rparr>)))"

definition pebble_id_ops :: "'k kv_ops \<Rightarrow> 'k pebbleIDStore id_ops" where
  "pebble_id_ops kv = \<lparr>ids_GetID = pi_GetID kv, ids_PutID = pi_PutID kv, ids_GetErrNotPresent = ErrNotPresent,
     ids_Flush = pi_Flush kv, ids_Close = pi_Close kv\<rparr>"

section \<open>The database\<close>

definition kv_ok :: "'k kv_ops \<Rightarrow> ('k \<Rightarrow> bool) \<Rightarrow> ('k \<Rightarrow> bytes \<Rightarrow> bytes option) \<Rightarrow> bool" where
  "kv_ok kv kinv kmap \<longleftrightarrow>
     (\<forall>d k. kinv d \<longrightarrow> kv_Get kv d k = (case kmap d k of None \<Rightarrow> Inl ErrNotFound | Some v \<Rightarrow> Inr v)) \<and>
     (\<forall>d k v. kinv d \<longrightarrow> (\<exists>d'. kv_Set kv d k v = (None, d') \<and> kinv d' \<and> kmap d' = (kmap d)(k \<mapsto> v))) \<and>
     (\<forall>d. kinv d \<longrightarrow> (\<exists>d'. kv_Flush kv d = (None, d') \<and> kinv d' \<and> kmap d' = kmap d))"

text \<open>A database that keeps the promise: an association list.\<close>

definition list_kv :: "(bytes \<times> bytes) list kv_ops" where
  "list_kv = \<lparr>kv_Get = (\<lambda>d k. case map_of d k of None \<Rightarrow> Inl ErrNotFound | Some v \<Rightarrow> Inr v),
     kv_Set = (\<lambda>d k v. (None, (k, v) # d)), kv_Flush = (\<lambda>d. (None, d)), kv_Close = (\<lambda>d. (None, d))\<rparr>"

lemma list_kv_ok: "kv_ok list_kv (\<lambda>_. True) map_of"
  by (simp add: kv_ok_def list_kv_def)

section \<open>The contract\<close>

definition pi_inv :: "'k kv_ops \<Rightarrow> ('k \<Rightarrow> bool) \<Rightarrow> ('k \<Rightarrow> bytes \<Rightarrow> bytes option) \<Rightarrow> 'k pebbleIDStore \<Rightarrow> bool" where
  "pi_inv kv kinv kmap ps \<longleftrightarrow> kv_ok kv kinv kmap \<and> kinv (pi_db ps) \<and>
     (\<forall>k v. kmap (pi_db ps) k = Some v \<longrightarrow> length v = 8)"

definition pi_ids :: "('k \<Rightarrow> bytes \<Rightarrow> bytes option) \<Rightarrow> 'k pebbleIDStore \<Rightarrow> bytes \<Rightarrow> u64 option" where
  "pi_ids kmap ps h = map_option get_le (kmap (pi_db ps) h)"

interpretation pids: id_store "pebble_id_ops kv" "pi_inv kv kinv kmap" "pi_ids kmap" sha1 for kv kinv kmap
proof (unfold_locales, goal_cases)
  case (4 i h k)
  then obtain d where "kv_Set kv (pi_db i) h (put_le 8 k) = (None, d)" "kinv d" "kmap d = (kmap (pi_db i))(h \<mapsto> put_le 8 k)"
    unfolding pi_inv_def kv_ok_def by blast
  with 4 show ?case
    by (auto simp: pebble_id_ops_def pi_PutID_def pi_inv_def pi_ids_def fun_eq_iff)
next
  case (5 i)
  then obtain d where "kv_Flush kv (pi_db i) = (None, d)" "kinv d" "kmap d = kmap (pi_db i)"
    unfolding pi_inv_def kv_ok_def by blast
  with 5 show ?case
    by (auto simp: pebble_id_ops_def pi_Flush_def pi_inv_def pi_ids_def fun_eq_iff)
qed (auto simp: pebble_id_ops_def pi_GetID_def pi_inv_def kv_ok_def pi_ids_def)

end
