(* ===== verification/File_Blocks.thy ===== *)
theory File_Blocks
  imports Dedup_Laws OsFile
begin

text \<open>
  The block store of \<^verbatim>\<open>src/pkg/devices/dedupdisk/impls/fileblkstore.go\<close>: a file of blocks, the
  next free ID and position under a mutex, and the set of writes in progress. A read of a block
  whose write is in progress would wait on the condition variable while it holds the read lock,
  and \<open>Wait\<close> unlocks the write lock, which the run-time system treats as fatal; that is a panic
  here. The background sync has no effect on the contents; it is in theory \<open>Background\<close>.
\<close>

section \<open>Definitions\<close>

record fileBlockStore =
  fb_file :: osfile
  fb_pendingWrites :: "u64 set"
  fb_nextID :: u64
  fb_nextPos :: i64
  fb_blockSize :: u64
  fb_zeroBlock :: bytes

definition NewFileBlockStore :: "goerr + osfile \<Rightarrow> goerr option \<Rightarrow> i64 \<Rightarrow> (goerr + fileBlockStore) go" where
  "NewFileBlockStore opened statErr blockSize =
     (if blockSize < 0 then Panic
      else (case opened of
        Inl e \<Rightarrow> Ret (Inl (Wrap ''Could not open backing file'' e))
      | Inr f \<Rightarrow>
      (case statErr of
        Some e \<Rightarrow> Ret (Inl (Wrap ''Could not stat backing file'' e))
      | None \<Rightarrow>
      (if blockSize = 0 then Panic
       else Ret (Inr \<lparr>fb_file = f, fb_pendingWrites = {},
              fb_nextID = word_of_int (int (length (fdata f)) sdiv blockSize), fb_nextPos = 0,
              fb_blockSize = word_of_int blockSize, fb_zeroBlock = zeros (nat blockSize)\<rparr>)))))"

definition fb_GetBlock :: "fileBlockStore \<Rightarrow> u64 \<Rightarrow> bytes \<Rightarrow> (goerr option \<times> bytes) go" where
  "fb_GetBlock fbs dedupID buf =
     (if dedupID = zeroBlockID then Ret (None, go_copy buf (fb_zeroBlock fbs))
      else if dedupID \<in> fb_pendingWrites fbs then Panic
      else (case file_ReadAt (fb_file fbs) buf (sint (dedupID * fb_blockSize fbs)) of
              (_, err, buf) \<Rightarrow> Ret (err, buf)))"

text \<open>\<open>PutBlock\<close> in its three parts: claim an ID and a position under the lock, write without the
  lock, and mark the write as finished under the lock.\<close>

definition fb_claim :: "fileBlockStore \<Rightarrow> i64 \<times> u64 \<times> fileBlockStore" where
  "fb_claim fbs = (fb_nextPos fbs, fb_nextID fbs,
     fbs\<lparr>fb_nextPos := wrap64 (fb_nextPos fbs + sint (fb_blockSize fbs)), fb_nextID := fb_nextID fbs + 1,
         fb_pendingWrites := insert (fb_nextID fbs) (fb_pendingWrites fbs)\<rparr>)"

definition fb_write :: "fileBlockStore \<Rightarrow> bytes \<Rightarrow> i64 \<Rightarrow> goerr option \<times> fileBlockStore" where
  "fb_write fbs buf pos = (case file_WriteAt (fb_file fbs) buf pos of (_, err, f) \<Rightarrow> (err, fbs\<lparr>fb_file := f\<rparr>))"

definition fb_finish :: "fileBlockStore \<Rightarrow> u64 \<Rightarrow> fileBlockStore" where
  "fb_finish fbs dedupID = fbs\<lparr>fb_pendingWrites := fb_pendingWrites fbs - {dedupID}\<rparr>"

definition fb_PutBlock :: "fileBlockStore \<Rightarrow> bytes \<Rightarrow> u64 \<times> goerr option \<times> fileBlockStore" where
  "fb_PutBlock fbs buf =
     (let (pos, dedupID, fbs) = fb_claim fbs; (err, fbs) = fb_write fbs buf pos; fbs = fb_finish fbs dedupID
      in if err \<noteq> None then (0, err, fbs) else (dedupID, None, fbs))"

text \<open>\<open>PutBlockAt\<close> marks, and returns, ID 0 whatever block it writes.\<close>

definition fb_PutBlockAt :: "fileBlockStore \<Rightarrow> bytes \<Rightarrow> u64 \<Rightarrow> u64 \<times> goerr option \<times> fileBlockStore" where
  "fb_PutBlockAt fbs buf blockID =
     (let dedupID = 0;
          fbs = fbs\<lparr>fb_pendingWrites := insert dedupID (fb_pendingWrites fbs)\<rparr>;
          (err, fbs) = fb_write fbs buf (sint (blockID * fb_blockSize fbs));
          fbs = fb_finish fbs dedupID
      in (dedupID, err, fbs))"

definition fb_Flush :: "fileBlockStore \<Rightarrow> goerr option \<times> fileBlockStore" where
  "fb_Flush fbs = (file_Sync (fb_file fbs), fbs)"

definition fb_Close :: "fileBlockStore \<Rightarrow> goerr option \<times> fileBlockStore" where
  "fb_Close fbs = (case file_Close (fb_file fbs) of (err, f) \<Rightarrow> (err, fbs\<lparr>fb_file := f\<rparr>))"

definition file_blk_ops :: "fileBlockStore blk_ops" where
  "file_blk_ops = \<lparr>blk_GetBlock = fb_GetBlock, blk_PutBlock = fb_PutBlock, blk_Flush = fb_Flush,
     blk_Close = fb_Close\<rparr>"

section \<open>Concurrent writers\<close>

text \<open>Callers of \<open>PutBlock\<close> between their parts: the blocks claimed and not yet written, those
  written and not yet finished, and those whose call has returned, each by its ID.\<close>

record put_state =
  ps_store :: fileBlockStore
  ps_claimed :: "u64 \<rightharpoonup> i64 \<times> bytes"
  ps_written :: "u64 \<rightharpoonup> bytes"
  ps_returned :: "u64 \<rightharpoonup> bytes"

inductive put_step :: "put_state \<Rightarrow> put_state \<Rightarrow> bool" where
  put_claim: "fb_claim (ps_store s) = (pos, dedupID, fbs) \<Longrightarrow> length buf = 4096 \<Longrightarrow>
    unat (fb_nextID (ps_store s)) < 2 ^ 50 \<Longrightarrow>
    put_step s (s\<lparr>ps_store := fbs, ps_claimed := (ps_claimed s)(dedupID \<mapsto> (pos, buf))\<rparr>)"
| put_write: "ps_claimed s dedupID = Some (pos, buf) \<Longrightarrow> fb_write (ps_store s) buf pos = (None, fbs) \<Longrightarrow>
    put_step s (s\<lparr>ps_store := fbs, ps_claimed := (ps_claimed s)(dedupID := None),
      ps_written := (ps_written s)(dedupID \<mapsto> buf)\<rparr>)"
| put_finish: "ps_written s dedupID = Some buf \<Longrightarrow>
    put_step s (s\<lparr>ps_store := fb_finish (ps_store s) dedupID, ps_written := (ps_written s)(dedupID := None),
      ps_returned := (ps_returned s)(dedupID \<mapsto> buf)\<rparr>)"

section \<open>The contract\<close>

definition fb_fresh :: "fileBlockStore \<Rightarrow> bool" where
  "fb_fresh fbs \<longleftrightarrow> healthy (fb_file fbs) \<and> fb_blockSize fbs = 4096 \<and> fb_zeroBlock fbs = zeros 4096 \<and>
     fb_nextPos fbs = 4096 * uint (fb_nextID fbs) \<and> unat (fb_nextID fbs) \<le> 2 ^ 50"

definition fb_inv :: "fileBlockStore \<Rightarrow> bool" where
  "fb_inv fbs \<longleftrightarrow> fb_fresh fbs \<and> fb_pendingWrites fbs = {} \<and>
     length (fdata (fb_file fbs)) = 4096 * unat (fb_nextID fbs)"

definition fb_block :: "fileBlockStore \<Rightarrow> u64 \<Rightarrow> bytes option" where
  "fb_block fbs k =
     (if k = zeroBlockID then Some (zeros 4096)
      else if unat k < unat (fb_nextID fbs) then Some (chunk (fdata (fb_file fbs)) (4096 * unat k) 4096)
      else None)"

definition fb_used :: "fileBlockStore \<Rightarrow> nat" where
  "fb_used fbs = unat (fb_nextID fbs)"

lemma block_pos:
  assumes "unat (k :: u64) = n" "n < 2 ^ 50"
  shows "sint (k * 4096) = 4096 * int n"
proof -
  have "unat (k * 4096) = n * 4096" using assms by (simp add: unat_word_ariths)
  then have "sint (k * 4096) = int (n * 4096)" using sint_of_small [of "k * 4096"] assms(2) by (simp only:) simp
  then show ?thesis by simp
qed

lemma not_zeroBlockID: "unat (k :: u64) \<le> 2 ^ 50 \<Longrightarrow> k \<noteq> zeroBlockID"
  by (auto simp: zeroBlockID_def unsigned_minus_1_eq_mask mask_eq_exp_minus_1)

lemma nextID_Suc: "unat (k :: u64) < 2 ^ 50 \<Longrightarrow> unat (k + 1) = Suc (unat k)"
  by (simp add: unat_word_ariths)

lemma fb_read:
  assumes "healthy (fb_file fbs)" "fb_blockSize fbs = 4096" "unat k < 2 ^ 50" "k \<notin> fb_pendingWrites fbs"
    and "4096 * unat k + 4096 \<le> length (fdata (fb_file fbs))" "length buf = 4096"
  shows "fb_GetBlock fbs k buf = Ret (None, chunk (fdata (fb_file fbs)) (4096 * unat k) 4096)"
proof -
  obtain n where n: "unat k = n" by blast
  have "file_ReadAt (fb_file fbs) buf (4096 * int n) = (4096, None, chunk (fdata (fb_file fbs)) (4096 * n) 4096)"
    using file_ReadAt_in [OF assms(1), of "4096 * int n" buf] assms(5,6) by (simp add: n nat_mult_distrib)
  then show ?thesis
    using assms not_zeroBlockID [of k] by (simp add: fb_GetBlock_def block_pos [OF n] n)
qed

lemma fb_claim_fresh:
  assumes "fb_fresh fbs" "unat (fb_nextID fbs) < 2 ^ 50"
  shows "fb_claim fbs = (4096 * int (unat (fb_nextID fbs)), fb_nextID fbs,
    fbs\<lparr>fb_nextPos := 4096 * uint (fb_nextID fbs + 1), fb_nextID := fb_nextID fbs + 1,
      fb_pendingWrites := insert (fb_nextID fbs) (fb_pendingWrites fbs)\<rparr>)"
    "fb_fresh (fbs\<lparr>fb_nextPos := 4096 * uint (fb_nextID fbs + 1), fb_nextID := fb_nextID fbs + 1,
      fb_pendingWrites := P\<rparr>)"
proof -
  have u: "uint (fb_nextID fbs + 1) = uint (fb_nextID fbs) + 1"
    using arg_cong [OF nextID_Suc [OF assms(2)], of int] by simp
  have "uint (fb_nextID fbs) < 2 ^ 50" using assms(2) by (simp add: uint_less_int_iff [of _ "2 ^ 50", simplified])
  then have "wrap64 (4096 * uint (fb_nextID fbs) + 4096) = 4096 * uint (fb_nextID fbs) + 4096"
    by (intro wrap64_id) (simp add: in64_def)
  then show "fb_claim fbs = (4096 * int (unat (fb_nextID fbs)), fb_nextID fbs,
    fbs\<lparr>fb_nextPos := 4096 * uint (fb_nextID fbs + 1), fb_nextID := fb_nextID fbs + 1,
      fb_pendingWrites := insert (fb_nextID fbs) (fb_pendingWrites fbs)\<rparr>)"
    using assms(1) u by (simp add: fb_claim_def fb_fresh_def)
  show "fb_fresh (fbs\<lparr>fb_nextPos := 4096 * uint (fb_nextID fbs + 1), fb_nextID := fb_nextID fbs + 1,
      fb_pendingWrites := P\<rparr>)"
    using assms nextID_Suc [OF assms(2)] by (simp add: fb_fresh_def)
qed

interpretation fbs: block_store file_blk_ops fb_inv fb_block fb_used "2 ^ 50"
proof (unfold_locales, goal_cases)
  case (2 b k c)
  then show ?case by (auto simp: fb_inv_def fb_block_def split: if_splits)
next
  case (3 b k c buf)
  show ?case
  proof (cases "k = zeroBlockID")
    case True
    then show ?thesis using 3
      by (auto simp: file_blk_ops_def fb_GetBlock_def fb_block_def fb_inv_def fb_fresh_def go_copy_same)
  next
    case False
    then show ?thesis using 3 fb_read [of b k buf]
      by (auto simp: file_blk_ops_def fb_block_def fb_inv_def fb_fresh_def split: if_splits)
  qed
next
  case (4 b buf)
  let ?k = "fb_nextID b"
  let ?b = "b\<lparr>fb_nextPos := 4096 * uint (?k + 1), fb_nextID := ?k + 1, fb_pendingWrites := {},
    fb_file := (fb_file b)\<lparr>fdata := fdata (fb_file b) @ buf\<rparr>\<rparr>"
  have inv: "fb_fresh b" "fb_pendingWrites b = {}" "length (fdata (fb_file b)) = 4096 * unat ?k"
    "unat ?k < 2 ^ 50" "healthy (fb_file b)"
    using 4 by (auto simp: fb_inv_def fb_used_def fb_fresh_def)
  have "fb_PutBlock b buf = (?k, None, ?b)"
    using inv by (simp add: fb_PutBlock_def fb_claim_fresh fb_write_def fb_finish_def file_WriteAt_healthy nat_mult_distrib
        store_append [of "fdata (fb_file b)", unfolded inv(3)])
  moreover have "fb_inv ?b"
    using fb_claim_fresh(2) [OF inv(1,4), of "{}"] inv 4(2) nextID_Suc [OF inv(4)]
    by (simp add: fb_inv_def fb_fresh_def)
  moreover have "fb_block ?b = (fb_block b)(?k \<mapsto> buf)"
    using inv(3) 4(2) nextID_Suc [OF inv(4)] not_zeroBlockID [of ?k] inv(4)
    by (auto simp: fb_block_def fun_eq_iff chunk_def less_Suc_eq word_unat_eq_iff)
  moreover have "fb_block b ?k = None" using inv(4) not_zeroBlockID [of ?k] by (simp add: fb_block_def)
  ultimately show ?case using nextID_Suc [OF inv(4)] by (simp add: file_blk_ops_def fb_used_def)
qed (auto simp: file_blk_ops_def fb_block_def fb_Flush_def fb_inv_def fb_fresh_def file_Sync_healthy)

section \<open>Concurrent writers keep apart\<close>

text \<open>The bytes of a block that was written.\<close>

definition stored :: "fileBlockStore \<Rightarrow> u64 \<Rightarrow> bytes \<Rightarrow> bool" where
  "stored fbs k buf \<longleftrightarrow> length buf = 4096 \<and> 4096 * unat k + 4096 \<le> length (fdata (fb_file fbs)) \<and>
     chunk (fdata (fb_file fbs)) (4096 * unat k) 4096 = buf"

definition put_inv :: "put_state \<Rightarrow> bool" where
  "put_inv s \<longleftrightarrow> fb_fresh (ps_store s) \<and>
     (\<forall>k pos buf. ps_claimed s k = Some (pos, buf) \<longrightarrow>
        unat k < unat (fb_nextID (ps_store s)) \<and> pos = 4096 * int (unat k) \<and> length buf = 4096 \<and>
        ps_written s k = None \<and> ps_returned s k = None) \<and>
     (\<forall>k buf. ps_written s k = Some buf \<longrightarrow>
        unat k < unat (fb_nextID (ps_store s)) \<and> stored (ps_store s) k buf \<and> ps_returned s k = None) \<and>
     (\<forall>k buf. ps_returned s k = Some buf \<longrightarrow>
        unat k < unat (fb_nextID (ps_store s)) \<and> stored (ps_store s) k buf \<and> k \<notin> fb_pendingWrites (ps_store s))"

lemma stored_write:
  assumes "fb_fresh fbs" "fb_write fbs buf (4096 * int n) = (None, fbs')" "unat k = n" "length buf = 4096"
  shows "stored fbs' k buf" "stored fbs j c \<Longrightarrow> j \<noteq> k \<Longrightarrow> stored fbs' j c"
    "fb_fresh fbs'" "fb_nextID fbs' = fb_nextID fbs" "fb_pendingWrites fbs' = fb_pendingWrites fbs"
proof -
  have fbs': "fbs' = fbs\<lparr>fb_file := (fb_file fbs)\<lparr>fdata := store (fdata (fb_file fbs)) (4096 * n) buf\<rparr>\<rparr>"
    using assms(1,2) by (auto simp: fb_write_def fb_fresh_def file_WriteAt_healthy nat_mult_distrib)
  have ne: "buf \<noteq> []" using assms(4) by auto
  show "stored fbs' k buf"
    using assms(3,4) ne chunk_store_same [of "fdata (fb_file fbs)" "4096 * n" buf]
    by (simp add: stored_def fbs' length_store)
  show "stored fbs' j c" if "stored fbs j c" "j \<noteq> k"
  proof -
    have "unat j \<noteq> n" using that(2) assms(3) by (auto simp: word_unat_eq_iff)
    then have "4096 * unat j + 4096 \<le> 4096 * n \<or> 4096 * n + length buf \<le> 4096 * unat j"
      using assms(4) by linarith
    then show ?thesis
      using that(1) ne chunk_store_disjoint [of "4096 * unat j" 4096 "fdata (fb_file fbs)" "4096 * n" buf]
      by (auto simp: stored_def fbs' length_store)
  qed
  show "fb_fresh fbs'" "fb_nextID fbs' = fb_nextID fbs" "fb_pendingWrites fbs' = fb_pendingWrites fbs"
    using assms(1) by (simp_all add: fbs' fb_fresh_def)
qed

lemma put_inv_claim:
  assumes inv: "put_inv s" and room: "unat (fb_nextID (ps_store s)) < 2 ^ 50" and len: "length buf = 4096"
    and claim: "fb_claim (ps_store s) = (pos, dedupID, fbs)"
  shows "put_inv (s\<lparr>ps_store := fbs, ps_claimed := (ps_claimed s)(dedupID \<mapsto> (pos, buf))\<rparr>)"
proof -
  have fresh: "fb_fresh (ps_store s)" using inv by (simp add: put_inv_def)
  have c: "pos = 4096 * int (unat (fb_nextID (ps_store s)))" "dedupID = fb_nextID (ps_store s)"
    "fbs = (ps_store s)\<lparr>fb_nextPos := 4096 * uint (fb_nextID (ps_store s) + 1), fb_nextID := fb_nextID (ps_store s) + 1,
      fb_pendingWrites := insert (fb_nextID (ps_store s)) (fb_pendingWrites (ps_store s))\<rparr>"
    using claim fb_claim_fresh(1) [OF fresh room] by auto
  have st: "stored fbs k b \<longleftrightarrow> stored (ps_store s) k b" for k b using c by (auto simp: stored_def)
  have new: "ps_written s (fb_nextID (ps_store s)) = None" "ps_returned s (fb_nextID (ps_store s)) = None"
    using inv unfolding put_inv_def by (metis less_irrefl option.exhaust)+
  have "fb_fresh fbs" using fb_claim_fresh(2) [OF fresh room] c by auto
  then show ?thesis
    using inv len c st new nextID_Suc [OF room] by (auto simp: put_inv_def less_Suc_eq)
qed

lemma put_inv_write:
  assumes inv: "put_inv s" and cl: "ps_claimed s k = Some (pos, buf)"
    and wr: "fb_write (ps_store s) buf pos = (None, fbs)"
  shows "put_inv (s\<lparr>ps_store := fbs, ps_claimed := (ps_claimed s)(k := None), ps_written := (ps_written s)(k \<mapsto> buf)\<rparr>)"
proof -
  have k: "fb_fresh (ps_store s)" "pos = 4096 * int (unat k)" "length buf = 4096"
    "unat k < unat (fb_nextID (ps_store s))" "ps_written s k = None" "ps_returned s k = None"
    using inv cl by (auto simp: put_inv_def)
  note w = stored_write [OF k(1) wr [unfolded k(2)] refl k(3)]
  have old: "stored fbs j c" if "ps_written s j = Some c \<or> ps_returned s j = Some c" for j c
    using that w(2) inv k(5,6) by (cases "j = k") (auto simp: put_inv_def)
  show ?thesis
    unfolding put_inv_def
  proof (intro conjI allI impI, goal_cases)
    case 1
    show ?case using w(3) by simp
  qed (use inv k w(1,4,5) old in \<open>auto simp: put_inv_def split: if_splits\<close>)
qed

lemma put_inv_step:
  assumes "put_step s t" "put_inv s"
  shows "put_inv t"
  using assms
proof cases
  case (put_claim pos k fbs buf)
  then show ?thesis using put_inv_claim [OF assms(2)] by simp
next
  case (put_write k pos buf fbs)
  then show ?thesis using put_inv_write [OF assms(2)] by simp
next
  case (put_finish k buf)
  have st: "stored (fb_finish f k) j b \<longleftrightarrow> stored f j b" for f j b by (simp add: stored_def fb_finish_def)
  show ?thesis
    using put_finish assms(2)
    by (auto simp: put_inv_def st) (auto simp: fb_finish_def fb_fresh_def)
qed

lemma put_inv_steps: "put_step\<^sup>*\<^sup>* s t \<Longrightarrow> put_inv s \<Longrightarrow> put_inv t"
  by (induction rule: rtranclp_induct) (auto intro: put_inv_step)

section \<open>Properties\<close>

definition empty_store :: fileBlockStore where
  "empty_store = \<lparr>fb_file = new_file [], fb_pendingWrites = {}, fb_nextID = 0, fb_nextPos = 0,
     fb_blockSize = 4096, fb_zeroBlock = zeros 4096\<rparr>"

definition no_puts :: "fileBlockStore \<Rightarrow> put_state" where
  "no_puts fbs = \<lparr>ps_store = fbs, ps_claimed = Map.empty, ps_written = Map.empty, ps_returned = Map.empty\<rparr>"


lemma two_puts_run:
  "\<exists>s. put_step\<^sup>*\<^sup>* (no_puts empty_store) s \<and> ps_returned s 0 = Some (replicate 4096 1) \<and>
     ps_returned s 1 = Some (replicate 4096 2)"
proof -
  let ?a = "replicate 4096 1" and ?b = "replicate 4096 2"
  define f0 where "f0 = empty_store"
  define f1 where "f1 = snd (snd (fb_claim f0))"
  define f2 where "f2 = snd (snd (fb_claim f1))"
  define f3 where "f3 = snd (fb_write f2 ?b 4096)"
  define f4 where "f4 = snd (fb_write f3 ?a 0)"
  note fs = f0_def f1_def f2_def f3_def f4_def empty_store_def fb_claim_def fb_write_def file_WriteAt_healthy
  define s1 where "s1 = (no_puts f0)\<lparr>ps_store := f1, ps_claimed := [0 \<mapsto> (0, ?a)]\<rparr>"
  define s2 where "s2 = s1\<lparr>ps_store := f2, ps_claimed := (ps_claimed s1)(1 \<mapsto> (4096, ?b))\<rparr>"
  define s3 where "s3 = s2\<lparr>ps_store := f3, ps_claimed := (ps_claimed s2)(1 := None),
    ps_written := (ps_written s2)(1 \<mapsto> ?b)\<rparr>"
  define s4 where "s4 = s3\<lparr>ps_store := f4, ps_claimed := (ps_claimed s3)(0 := None),
    ps_written := (ps_written s3)(0 \<mapsto> ?a)\<rparr>"
  define s5 where "s5 = s4\<lparr>ps_store := fb_finish (ps_store s4) 0, ps_written := (ps_written s4)(0 := None),
    ps_returned := (ps_returned s4)(0 \<mapsto> ?a)\<rparr>"
  define s6 where "s6 = s5\<lparr>ps_store := fb_finish (ps_store s5) 1, ps_written := (ps_written s5)(1 := None),
    ps_returned := (ps_returned s5)(1 \<mapsto> ?b)\<rparr>"
  have "put_step (no_puts f0) s1"
    unfolding s1_def using put_claim [of "no_puts f0" 0 0 f1 ?a] by (simp add: no_puts_def fs)
  moreover have "put_step s1 s2"
    unfolding s2_def by (rule put_claim) (simp_all add: s1_def no_puts_def fs wrap64_id in64_def)
  moreover have "put_step s2 s3"
    unfolding s3_def by (rule put_write [of _ _ 4096]) (simp_all add: s2_def s1_def no_puts_def fs)
  moreover have "put_step s3 s4"
    unfolding s4_def by (rule put_write [of _ _ 0]) (simp_all add: s3_def s2_def s1_def no_puts_def fs)
  moreover have "put_step s4 s5"
    unfolding s5_def by (rule put_finish) (simp add: s4_def)
  moreover have "put_step s5 s6"
    unfolding s6_def by (rule put_finish) (simp add: s5_def s4_def s3_def)
  ultimately have "put_step\<^sup>*\<^sup>* (no_puts f0) s6"
    by (meson converse_rtranclp_into_rtranclp r_into_rtranclp)
  moreover have "ps_returned s6 0 = Some ?a" "ps_returned s6 1 = Some ?b" by (simp_all add: s6_def s5_def)
  ultimately show ?thesis by (auto simp: f0_def)
qed

lemma empty_store_fresh: "fb_fresh empty_store"
  by (simp add: fb_fresh_def empty_store_def)


text \<open>
  C23: a block store that is opened on a file with blocks does not continue at its end: the
  constructor sets the next ID from the file's length and leaves the next position at 0. The first
  block put into it overwrites block 0, and the ID it returns reads as end of file.
\<close>

theorem reopened_store_overwrites:
  assumes "healthy f" "length (fdata f) = 4096 * n" "0 < n" "n < 2 ^ 50"
    and "length buf = 4096" "length buf' = 4096"
  shows "\<exists>fbs fbs'. NewFileBlockStore (Inr f) None 4096 = Ret (Inr fbs) \<and>
    fb_PutBlock fbs buf = (of_nat n, None, fbs') \<and>
    fb_GetBlock fbs' 0 buf' = Ret (None, buf) \<and>
    fb_GetBlock fbs' (of_nat n) buf' = Ret (Some EOF, buf')"
proof -
  let ?fbs = "\<lparr>fb_file = f, fb_pendingWrites = {}, fb_nextID = of_nat n, fb_nextPos = 0,
    fb_blockSize = 4096, fb_zeroBlock = zeros 4096\<rparr>"
  let ?fbs' = "?fbs\<lparr>fb_nextPos := 4096, fb_nextID := of_nat n + 1, fb_file := f\<lparr>fdata := blit (fdata f) 0 buf\<rparr>\<rparr>"
  have n: "unat (of_nat n :: u64) = n" using assms(4) by (simp add: unat_of_nat)
  have "NewFileBlockStore (Inr f) None 4096 = Ret (Inr ?fbs)"
    using assms(2) by (simp add: NewFileBlockStore_def)
  moreover have "fb_PutBlock ?fbs buf = (of_nat n, None, ?fbs')"
    using assms by (simp add: fb_PutBlock_def fb_claim_def fb_write_def fb_finish_def file_WriteAt_healthy store_blit in64_def)
  moreover have "fb_GetBlock ?fbs' 0 buf' = Ret (None, buf)"
    using assms fb_read [of ?fbs' 0 buf'] by (simp add: chunk_def blit_def)
  moreover have "fb_GetBlock ?fbs' (of_nat n) buf' = Ret (Some EOF, buf')"
  proof -
    have "file_ReadAt (fb_file ?fbs') buf' (4096 * int n) = (0, Some EOF, buf')"
      using assms by (intro file_ReadAt_past_end) auto
    then show ?thesis
      using not_zeroBlockID [of "of_nat n"] block_pos [OF n assms(4)] n assms(4) by (simp add: fb_GetBlock_def)
  qed
  ultimately show ?thesis by blast
qed

theorem reopened_store_overwrites_witness:
  "\<exists>fbs fbs'. NewFileBlockStore (Inr (new_file (replicate 4096 1))) None 4096 = Ret (Inr fbs) \<and>
    fb_PutBlock fbs (replicate 4096 2) = (1, None, fbs') \<and>
    fb_GetBlock fbs' 0 (zeros 4096) = Ret (None, replicate 4096 2) \<and>
    fb_GetBlock fbs' 1 (zeros 4096) = Ret (Some EOF, zeros 4096)"
  using reopened_store_overwrites [of "new_file (replicate 4096 1)" 1 "replicate 4096 2" "zeros 4096"] by simp

end
