(* ===== verification/Dedup_Disk.thy ===== *)
theory Dedup_Disk
  imports Mmap_Lun Pebble_Ids File_Blocks
begin

text \<open>
  The dedup device as the daemon builds it (\<^verbatim>\<open>src/cmd/usbdsrvd/dedup.go\<close>): over the mapped LUN map,
  the database ID store and the file block store. The contracts of the three are put together, and
  the properties of the device follow.
\<close>

section \<open>Definitions\<close>

type_synonym 'k dedupdisk = "(mmapLUNmap, 'k pebbleIDStore, fileBlockStore) dedup"

definition dedupdisk_ops :: "(bytes \<Rightarrow> goerr option) \<Rightarrow> 'k kv_ops \<Rightarrow> 'k dedupdisk dev_ops" where
  "dedupdisk_ops gsync kv = dedup_ops (mmap_lun_ops gsync) (pebble_id_ops kv) file_blk_ops"

text \<open>The constructor chain of the daemon. The files and the database are what the operating system
  and the packages answer when they are opened.\<close>

definition dedupDiskFromCfg :: "(bytes \<Rightarrow> goerr option) \<Rightarrow> 'k kv_ops \<Rightarrow> (bytes \<Rightarrow> goerr + bytes) \<Rightarrow>
    goerr + osfile \<Rightarrow> goerr option \<Rightarrow> goerr + 'k \<Rightarrow> goerr + osfile \<Rightarrow> goerr option \<Rightarrow>
    string \<Rightarrow> i64 \<Rightarrow> (goerr + 'k dedupdisk) go" where
  "dedupDiskFromCfg gsync kv gmap lunFile lunStat db blkFile blkStat dbPath storageBytes =
     (let blockSize = DefaultBlockSizeBytes in
      go_bind (NewMmapLUNmap gmap lunFile lunStat blockSize storageBytes) (\<lambda>lunMap.
      case lunMap of
        Inl e \<Rightarrow> Ret (Inl (Wrap ''dedupDiskFromCfg: Could not create LUN map; Details'' e))
      | Inr lunMap \<Rightarrow>
      (case NewPebbleIDStore db dbPath of
        Inl e \<Rightarrow> Ret (Inl (Wrap ''dedupDiskFromCfg: Could not create ID store; Details'' e))
      | Inr idStore \<Rightarrow>
      go_bind (NewFileBlockStore blkFile blkStat blockSize) (\<lambda>blockStore.
      case blockStore of
        Inl e \<Rightarrow> Ret (Inl (Wrap ''dedupDiskFromCfg: Could not create block store; Details'' e))
      | Inr blockStore \<Rightarrow>
        Ret (Inr (NewDedupDisk (mmap_lun_ops gsync) (pebble_id_ops kv) lunMap idStore blockStore))))))"

text \<open>The contents and the invariant, relative to a collision free set of blocks.\<close>

definition ddisk_content :: "'k dedupdisk \<Rightarrow> bytes" where
  "ddisk_content dd = dd_content lm_ids fb_block dd"

definition ddisk_inv :: "(bytes \<Rightarrow> goerr option) \<Rightarrow> 'k kv_ops \<Rightarrow> ('k \<Rightarrow> bool) \<Rightarrow>
    ('k \<Rightarrow> bytes \<Rightarrow> bytes option) \<Rightarrow> bytes set \<Rightarrow> 'k dedupdisk \<Rightarrow> bool" where
  "ddisk_inv gsync kv kinv kmap U dd \<longleftrightarrow>
     lm_inv gsync (dd_lunMap dd) \<and> pi_inv kv kinv kmap (dd_idStore dd) \<and> fb_inv (dd_blockStore dd) \<and>
     dd_open (pebble_id_ops kv) (lm_ids (dd_lunMap dd)) dd \<and> inj_on sha1 U \<and> finite U \<and> card U \<le> 2 ^ 50 \<and>
     dd_consistent sha1 U (lm_ids (dd_lunMap dd)) (pi_ids kmap (dd_idStore dd)) (fb_block (dd_blockStore dd)) \<and>
     fb_used (dd_blockStore dd) \<le> card (dom (pi_ids kmap (dd_idStore dd)))"

section \<open>The contract\<close>

interpretation ddk: dedup_device "mmap_lun_ops gsync" "lm_inv gsync" lm_ids "pebble_id_ops kv"
  "pi_inv kv kinv kmap" "pi_ids kmap" sha1 file_blk_ops fb_inv fb_block fb_used "2 ^ 50" U
  "ddisk_inv gsync kv kinv kmap U" for gsync kv kinv kmap U
  by unfold_locales (simp add: ddisk_inv_def)

lemma concat_replicate_zeros: "concat (replicate n (replicate m x)) = replicate (m * n) x"
  by (induction n) (auto simp: replicate_add)

lemma lm_fill_ok:
  assumes "bw_ok w"
  obtains w' where "lm_fill n w = (None, w')" "bw_ok w'"
    "bw_content w' = bw_content w @ concat (map (put_le 8) (replicate n zeroBlockID))"
  using assms
proof (induction n arbitrary: w thesis)
  case 0
  then show ?case by simp
next
  case (Suc n)
  obtain w1 where w1: "bw_WriteBytes w (put_le 8 zeroBlockID) = (None, w1)" "bw_ok w1"
    "bw_content w1 = bw_content w @ put_le 8 zeroBlockID"
    by (rule bw_WriteBytes_ok [OF Suc.prems(2)])
  show ?case
    by (rule Suc.IH [OF _ w1(2)]) (use w1 Suc.prems(1) in auto)
qed

text \<open>A LUN map on a new file maps every block to the zero block.\<close>

lemma NewMmapLUNmap_new:
  assumes "healthy f" "fdata f = []" "fpos f = 0" "0 \<le> sz" "sz < 2 ^ 63" "\<And>raw. gmap raw = Inr raw"
  obtains lm where "NewMmapLUNmap gmap (Inr f) None 4096 sz = Ret (Inr lm)"
    "lm_ids lm = replicate (nat (sz div 4096)) zeroBlockID" "lm_size lm = 4096 * (sz div 4096)"
    "8 dvd length (lm_rawBytes lm)"
proof -
  let ?n = "nat (sz div 4096)" and ?ids = "replicate (nat (sz div 4096)) zeroBlockID"
  have "bw_ok (bw_new f)" using assms(1-3) by (simp add: bw_ok_new)
  then obtain w where w: "lm_fill ?n (bw_new f) = (None, w)" "bw_ok w"
    "bw_content w = concat (map (put_le 8) ?ids)"
    by (rule lm_fill_ok [where n = ?n]) (use assms(2) in \<open>simp add: bw_content_new\<close>)
  obtain w' where w': "bw_Flush w = (None, w')" "bw_ok w'" "fdata (bw_file w') = concat (map (put_le 8) ?ids)"
    using bw_Flush_ok [OF w(2)] w(3) by metis
  have len: "length (concat (map (put_le 8) ?ids)) = 8 * ?n"
    using length_concat_blocks [of "map (put_le 8) ?ids" 8] by simp
  let ?lm = "\<lparr>lm_file = bw_file w', lm_rawBytes = concat (map (put_le 8) ?ids), lm_size = sz div 4096 * 4096\<rparr>"
  have "NewMmapLUNmap gmap (Inr f) None 4096 sz = Ret (Inr ?lm)"
    using assms w w' by (simp add: NewMmapLUNmap_def bw_ok_def file_Sync_healthy Let_def)
  moreover have "lm_ids ?lm = ?ids"
    using longs_concat [of ?ids] len by (simp add: lm_ids_def)
  ultimately show thesis using that [of ?lm] len by simp
qed

lemma write_block_ops:
  assumes "ddisk_inv gsync kv kinv kmap U dd" "k < length (lm_ids (dd_lunMap dd))"
    and "pi_GetID kv (dd_idStore dd) buf = Ret (j, [], None)" "fb_block (dd_blockStore dd) j = Some c"
    and "length buf \<le> 4096"
  shows "\<exists>l. dd_WriteAt (mmap_lun_ops gsync) (pebble_id_ops kv) file_blk_ops dd buf (4096 * int k) =
      Ret (int (length buf), None, dd\<lparr>dd_lunMap := l\<rparr>) \<and>
    ddisk_content (dd\<lparr>dd_lunMap := l\<rparr>) = blit (ddisk_content dd) (4096 * k) c \<and>
    ddisk_inv gsync kv kinv kmap U (dd\<lparr>dd_lunMap := l\<rparr>)"
proof -
  have op: "dd_open (pebble_id_ops kv) (lm_ids (dd_lunMap dd)) dd" and lm: "lm_inv gsync (dd_lunMap dd)"
    using assms(1) by (simp_all add: ddisk_inv_def)
  have sz: "4096 * int k + 4096 \<le> dd_size dd" "dd_size dd < 2 ^ 63"
    using op assms(2) mlm.lun_bound [OF lm] by (simp_all add: dd_open_def)
  obtain dd' where m: "dd_mapBlock (mmap_lun_ops gsync) dd (of_nat k) j (int (length buf)) = Ret (int (length buf), None, dd')"
    "ddisk_inv gsync kv kinv kmap U dd'" "dd_blocks lm_ids fb_block dd' = (dd_blocks lm_ids fb_block dd)[k := c]"
    using ddk.map_block [OF assms(1,2,4)] by blast
  then obtain l where l: "dd' = dd\<lparr>dd_lunMap := l\<rparr>"
    by (auto simp: dd_mapBlock_def go_bind_Ret_iff split: if_splits)
  have len: "length c = 4096" using fbs.blk_len [of "dd_blockStore dd" j c] assms(1,4) by (simp add: ddisk_inv_def)
  have "dd_WriteAt (mmap_lun_ops gsync) (pebble_id_ops kv) file_blk_ops dd buf (4096 * int k) =
      dd_mapBlock (mmap_lun_ops gsync) dd (of_nat k) j (int (length buf))"
    using op sz assms(3,5) by (simp add: dd_WriteAt_def dd_WriteAt1_def dd_open_def Let_def in64_def pebble_id_ops_def)
  moreover have "ddisk_content dd' = blit (ddisk_content dd) (4096 * k) c"
    using blit_concat_blocks [OF ddk.blocks_len [OF assms(1)], of k c] assms(2) len m(3)
    by (simp add: ddisk_content_def dd_content_def) (simp add: dd_blocks_def)
  ultimately show ?thesis using m l by auto
qed

lemma dedupDiskFromCfg_new:
  assumes "healthy f" "fdata f = []" "fpos f = 0" "healthy g" "fdata g = []" "0 \<le> sz" "sz < 2 ^ 63"
    and "\<And>raw. gmap raw = Inr raw" "\<And>raw. gsync raw = None" "kv_ok kv kinv kmap" "kinv db" "kmap db = Map.empty"
    and "inj_on sha1 U" "finite U" "card U \<le> 2 ^ 50"
  shows "\<exists>dd. dedupDiskFromCfg gsync kv gmap (Inr f) None (Inr db) (Inr g) None path sz = Ret (Inr dd) \<and>
    ddisk_inv gsync kv kinv kmap U dd \<and> ddisk_content dd = zeros (4096 * nat (sz div 4096)) \<and>
    dd_Size dd = 4096 * (sz div 4096)"
proof -
  let ?n = "nat (sz div 4096)"
  obtain lm where lm: "NewMmapLUNmap gmap (Inr f) None 4096 sz = Ret (Inr lm)"
    "lm_ids lm = replicate ?n zeroBlockID" "lm_size lm = 4096 * (sz div 4096)" "8 dvd length (lm_rawBytes lm)"
    by (rule NewMmapLUNmap_new [OF assms(1-3,6,7), of gmap]) (use assms(8) in auto)
  let ?i = "\<lparr>pi_dbPath = path, pi_db = db, pi_closeOnce = False\<rparr>"
  let ?b = "\<lparr>fb_file = g, fb_pendingWrites = {}, fb_nextID = 0, fb_nextPos = 0, fb_blockSize = 4096,
    fb_zeroBlock = zeros 4096\<rparr>"
  let ?dd = "NewDedupDisk (mmap_lun_ops gsync) (pebble_id_ops kv) lm ?i ?b"
  have n: "0 \<le> sz div 4096" "4096 * (sz div 4096) < 2 ^ 63" using assms(6,7) by auto
  have "dedupDiskFromCfg gsync kv gmap (Inr f) None (Inr db) (Inr g) None path sz = Ret (Inr ?dd)"
    using lm(1) assms(5)
    by (simp add: dedupDiskFromCfg_def DefaultBlockSizeBytes_def NewPebbleIDStore_def NewFileBlockStore_def)
  moreover have lmi: "lm_inv gsync lm" using lm(2-4) n assms(9) by (simp add: lm_inv_def flip: length_lm_ids)
  moreover have "pi_inv kv kinv kmap ?i" "pi_ids kmap ?i = Map.empty"
    using assms(10-12) by (auto simp: pi_inv_def pi_ids_def)
  moreover have "fb_inv ?b" "fb_block ?b zeroBlockID = Some (zeros 4096)" "fb_used ?b = 0"
    using assms(4,5) by (simp_all add: fb_inv_def fb_fresh_def fb_block_def fb_used_def)
  ultimately show ?thesis
    using lm(2,3) assms(13-15) n
    by (intro exI [of _ ?dd])
      (auto simp: ddisk_inv_def NewDedupDisk_def dd_open_def mmap_lun_ops_def lm_Size_def DefaultBlockSizeBytes_def
        dd_consistent_def ddisk_content_def dd_content_def dd_blocks_def dd_Size_def concat_replicate_zeros)
qed

section \<open>Properties\<close>

text \<open>
  The daemon's constructor chain on new files and an empty database gives a dedup device of the
  configured size, rounded down to whole blocks, that reads as zeros and keeps its invariant, for
  every set of block contents on which SHA-1 has no collisions.
\<close>

theorem dedupdisk_new:
  assumes "healthy f" "fdata f = []" "fpos f = 0" "healthy g" "fdata g = []" "0 \<le> sz" "sz < 2 ^ 63"
    and "\<And>raw. gmap raw = Inr raw" "\<And>raw. gsync raw = None" "kv_ok kv kinv kmap" "kinv db" "kmap db = Map.empty"
    and "inj_on sha1 U" "finite U" "card U \<le> 2 ^ 50"
  shows "\<exists>dd. dedupDiskFromCfg gsync kv gmap (Inr f) None (Inr db) (Inr g) None path sz = Ret (Inr dd) \<and>
    ddisk_inv gsync kv kinv kmap U dd \<and> ddisk_content dd = zeros (4096 * nat (sz div 4096)) \<and>
    dd_Size dd = 4096 * (sz div 4096)"
  by (rule dedupDiskFromCfg_new [OF assms])

theorem dedupdisk_new_witness:
  "\<exists>dd. dedupDiskFromCfg (\<lambda>_. None) list_kv Inr (Inr (new_file [])) None (Inr []) (Inr (new_file [])) None ''ids'' 8192
      = Ret (Inr dd) \<and>
    ddisk_inv (\<lambda>_. None) list_kv (\<lambda>_. True) map_of {replicate 4096 7} dd \<and> ddisk_content dd = zeros 8192"
  using dedupdisk_new [of "new_file []" "new_file []" 8192 Inr "\<lambda>_. None" list_kv "\<lambda>_. True" map_of "[]"
      "{replicate 4096 7}" "''ids''"] list_kv_ok
  by auto

text \<open>The device of the examples: two blocks, the first of them written.\<close>

definition dd0 :: "(bytes \<times> bytes) list dedupdisk" where
  "dd0 = NewDedupDisk (mmap_lun_ops (\<lambda>_. None)) (pebble_id_ops list_kv)
     \<lparr>lm_file = new_file [], lm_rawBytes = put_le 8 (0 :: u64) @ put_le 8 zeroBlockID, lm_size = 8192\<rparr>
     \<lparr>pi_dbPath = ''ids'', pi_db = [(sha1 (replicate 4096 7), put_le 8 (0 :: u64))], pi_closeOnce = False\<rparr>
     \<lparr>fb_file = new_file (replicate 4096 7), fb_pendingWrites = {}, fb_nextID = 1, fb_nextPos = 4096,
      fb_blockSize = 4096, fb_zeroBlock = zeros 4096\<rparr>"

lemma dd0_ids: "lm_ids (dd_lunMap dd0) = [0, zeroBlockID]"
  using longs_concat [of "[0, zeroBlockID]"] by (simp add: dd0_def NewDedupDisk_def lm_ids_def numeral_2_eq_2)

lemma dd0_inv:
  "ddisk_inv (\<lambda>_. None) list_kv (\<lambda>_. True) map_of {replicate 4096 7} dd0"
  "ddisk_content dd0 = replicate 4096 7 @ zeros 4096"
  "pi_ids map_of (dd_idStore dd0) (sha1 (replicate 4096 7)) = Some 0"
proof -
  have z: "(0 :: u64) \<noteq> zeroBlockID" by (simp add: zeroBlockID_def)
  have d: "dom (pi_ids map_of (dd_idStore dd0)) = {sha1 (replicate 4096 7)}"
    by (auto simp: pi_ids_def dd0_def NewDedupDisk_def split: if_splits)
  have b: "fb_block (dd_blockStore dd0) 0 = Some (replicate 4096 7)"
    "fb_block (dd_blockStore dd0) zeroBlockID = Some (zeros 4096)"
    using z by (auto simp: fb_block_def dd0_def NewDedupDisk_def chunk_def)
  show k: "pi_ids map_of (dd_idStore dd0) (sha1 (replicate 4096 7)) = Some 0"
    by (simp add: pi_ids_def dd0_def NewDedupDisk_def)
  have "lm_inv (\<lambda>_. None) (dd_lunMap dd0)" by (simp add: lm_inv_def dd0_def NewDedupDisk_def)
  moreover have "pi_inv list_kv (\<lambda>_. True) map_of (dd_idStore dd0)"
    using list_kv_ok by (auto simp: pi_inv_def dd0_def NewDedupDisk_def split: if_splits)
  moreover have "fb_inv (dd_blockStore dd0)" "fb_used (dd_blockStore dd0) = 1"
    by (simp_all add: fb_inv_def fb_fresh_def fb_used_def dd0_def NewDedupDisk_def)
  moreover have "dd_open (pebble_id_ops list_kv) (lm_ids (dd_lunMap dd0)) dd0"
    unfolding dd_open_def dd0_ids
    by (simp add: dd0_def NewDedupDisk_def DefaultBlockSizeBytes_def mmap_lun_ops_def lm_Size_def)
  moreover have "dd_consistent sha1 {replicate 4096 7} (lm_ids (dd_lunMap dd0)) (pi_ids map_of (dd_idStore dd0))
      (fb_block (dd_blockStore dd0))"
  proof -
    have "h = sha1 (replicate 4096 7) \<and> k = 0" if "pi_ids map_of (dd_idStore dd0) h = Some k" for h k
      using that d k by (metis domI option.inject singletonD)
    then show ?thesis unfolding dd_consistent_def dd0_ids using b by auto
  qed
  ultimately show "ddisk_inv (\<lambda>_. None) list_kv (\<lambda>_. True) map_of {replicate 4096 7} dd0"
    using d by (simp add: ddisk_inv_def)
  show "ddisk_content dd0 = replicate 4096 7 @ zeros 4096"
    unfolding ddisk_content_def dd_content_def dd_blocks_def dd0_ids using b by simp
qed



text \<open>
  C21: deduplication. Writing a block whose contents are zeros or already stored stores nothing: the
  block store and the ID store stay as they are, and only the LUN map changes so that the block
  reads as written.
\<close>

theorem duplicate_write_stores_nothing:
  assumes "ddisk_inv gsync kv kinv kmap U dd" "k < length (lm_ids (dd_lunMap dd))" "length buf = 4096"
    and "IsZeros buf \<or> (buf \<in> U \<and> pi_ids kmap (dd_idStore dd) (sha1 buf) \<noteq> None)"
  shows "\<exists>l. dd_WriteAt (mmap_lun_ops gsync) (pebble_id_ops kv) file_blk_ops dd buf (4096 * int k) =
      Ret (4096, None, dd\<lparr>dd_lunMap := l\<rparr>) \<and>
    ddisk_content (dd\<lparr>dd_lunMap := l\<rparr>) = blit (ddisk_content dd) (4096 * k) buf"
proof -
  have i: "pi_inv kv kinv kmap (dd_idStore dd)" and b: "fb_inv (dd_blockStore dd)" and inj: "inj_on sha1 U"
    and con: "dd_consistent sha1 U (lm_ids (dd_lunMap dd)) (pi_ids kmap (dd_idStore dd)) (fb_block (dd_blockStore dd))"
    using assms(1) by (simp_all add: ddisk_inv_def)
  have "\<exists>j. pi_GetID kv (dd_idStore dd) buf = Ret (j, [], None) \<and> fb_block (dd_blockStore dd) j = Some buf"
  proof (cases "IsZeros buf")
    case True
    then have "buf = zeros 4096" using assms(3) by (auto simp: IsZeros_iff intro: replicate_eqI)
    then show ?thesis
      using pids.ids_zero [OF i True] fbs.blk_zero [OF b] by (auto simp: pebble_id_ops_def)
  next
    case False
    then obtain j where j: "pi_ids kmap (dd_idStore dd) (sha1 buf) = Some j" "buf \<in> U" using assms(4) by auto
    then have "fb_block (dd_blockStore dd) j = Some buf"
      using con inj by (fastforce simp: dd_consistent_def dest: inj_onD)
    then show ?thesis
      using pids.ids_hit [OF i False j(1)] by (auto simp: pebble_id_ops_def)
  qed
  then obtain j where "pi_GetID kv (dd_idStore dd) buf = Ret (j, [], None)" "fb_block (dd_blockStore dd) j = Some buf"
    by blast
  from write_block_ops [OF assms(1,2) this] assms(3) show ?thesis by auto
qed

theorem duplicate_write_stores_nothing_witness:
  "\<exists>l. dd_WriteAt (mmap_lun_ops (\<lambda>_. None)) (pebble_id_ops list_kv) file_blk_ops dd0 (replicate 4096 7) (4096 * int 1) =
      Ret (4096, None, dd0\<lparr>dd_lunMap := l\<rparr>) \<and>
    ddisk_content (dd0\<lparr>dd_lunMap := l\<rparr>) = replicate 8192 7"
  using duplicate_write_stores_nothing [OF dd0_inv(1), of 1 "replicate 4096 7"]
  by (auto simp: dd0_ids dd0_inv(2,3) blit_def simp flip: replicate_add)

text \<open>
  C24: a write of no bytes at a block boundary is not empty: it replaces the whole block by zeros,
  because the empty buffer counts as a zero block and one block is mapped whatever the length.
\<close>

theorem empty_write_zeroes_block:
  assumes "ddisk_inv gsync kv kinv kmap U dd" "k < length (lm_ids (dd_lunMap dd))"
  shows "\<exists>dd'. dd_WriteAt (mmap_lun_ops gsync) (pebble_id_ops kv) file_blk_ops dd [] (4096 * int k) = Ret (0, None, dd') \<and>
    ddisk_content dd' = blit (ddisk_content dd) (4096 * k) (zeros 4096)"
proof -
  have "pi_inv kv kinv kmap (dd_idStore dd)" "fb_inv (dd_blockStore dd)" using assms(1) by (simp_all add: ddisk_inv_def)
  then have "pi_GetID kv (dd_idStore dd) [] = Ret (zeroBlockID, [], None)"
    "fb_block (dd_blockStore dd) zeroBlockID = Some (zeros 4096)"
    using pids.ids_zero [of kv kinv kmap "dd_idStore dd" "[]"] fbs.blk_zero by (simp_all add: IsZeros_iff pebble_id_ops_def)
  from write_block_ops [OF assms this] show ?thesis by auto
qed

theorem empty_write_zeroes_block_witness:
  "\<exists>dd'. dd_WriteAt (mmap_lun_ops (\<lambda>_. None)) (pebble_id_ops list_kv) file_blk_ops dd0 [] (4096 * int 0) = Ret (0, None, dd') \<and>
    ddisk_content dd' = zeros 8192"
  using empty_write_zeroes_block [OF dd0_inv(1), of 0]
  by (auto simp: dd0_ids dd0_inv(2) blit_def simp flip: replicate_add)

text \<open>
  C25: the bounds checks of the LUN map are off. A lookup panics on exactly the block behind the
  last one, an update on every block from there up to the LUN's size in bytes; other blocks out of
  range are errors, blocks in range succeed.
\<close>

theorem lun_map_bounds:
  assumes "lm_inv gsync lm"
  shows "(lm_GetID lm block = Panic) = (unat block = length (lm_ids lm)) \<and>
    (lm_PutID lm block k = Panic) = (length (lm_ids lm) \<le> unat block \<and> int (unat block) \<le> lm_size lm)"
proof -
  let ?n = "length (lm_ids lm)"
  have n: "lm_size lm = int (4096 * ?n)" "4096 * ?n < 2 ^ 63" using assms by (auto simp: lm_inv_def)
  have u: "unat (of_nat ?n :: u64) = ?n" "unat (of_nat (4096 * ?n) :: u64) = 4096 * ?n"
    using n(2) by (simp_all only: unat_of_nat) simp_all
  have "(lm_GetID lm block = Panic) = (unat block = ?n)"
    using u(1) by (auto simp: lm_GetID_def go_index_def uint_less_int_iff word_less_nat_alt simp del: length_lm_ids)
  moreover have "(lm_PutID lm block k = Panic) = (?n \<le> unat block \<and> int (unat block) \<le> lm_size lm)"
    using u(2) unfolding lm_PutID_def n(1) of_int_of_nat_eq word_less_nat_alt of_nat_le_iff by auto
  ultimately show ?thesis ..
qed

theorem lun_map_bounds_witness:
  "lm_GetID (dd_lunMap dd0) 2 = Panic \<and> lm_PutID (dd_lunMap dd0) 8192 0 = Panic"
  using lun_map_bounds [of "\<lambda>_. None" "dd_lunMap dd0" 2 0] lun_map_bounds [of "\<lambda>_. None" "dd_lunMap dd0" 8192 0]
    dd0_inv(1) by (simp add: ddisk_inv_def dd0_def NewDedupDisk_def)

text \<open>
  Closing is final. After \<open>Close\<close> every read, write and flush is refused with the shutdown error
  and changes nothing, and a second \<open>Close\<close> does nothing.
\<close>

lemma dedup_closed:
  assumes "dd_closeOnce dd = False" "dd_Close lops iops bops dd = Ret (err, dd')"
  shows "dd_ReadAt lops bops dd' buf pos = Ret (- 1, Some ErrShutdown, buf, dd') \<and>
    dd_WriteAt lops iops bops dd' buf pos = Ret (- 1, Some ErrShutdown, dd') \<and>
    dd_Flush lops iops bops dd' = Ret (Some ErrShutdown, dd') \<and> dd_Close lops iops bops dd' = Ret (None, dd')"
proof -
  have "dd_cancelled dd'" "dd_closeOnce dd'"
    using assms by (auto simp: dd_Close_def dd_close_def Let_def split: prod.splits)
  then show ?thesis
    by (simp add: dd_ReadAt_def dd_WriteAt_def dd_WriteAt1_def dd_Flush_def dd_Close_def Let_def)
qed

end
