(* ===== verification/Strconv.thy ===== *)
theory Strconv
  imports Prelude
begin

text \<open>
  What usbd uses of the standard library's \<^verbatim>\<open>strconv\<close>, \<^verbatim>\<open>strings\<close> and \<^verbatim>\<open>path/filepath\<close>: decimal
  numbers in object names (\<open>Itoa\<close>, \<open>Atoi\<close>), numbers in another base in metadata (\<open>FormatInt\<close>,
  \<open>ParseInt\<close>), trimming, and path names.
\<close>

section \<open>Numbers\<close>

text \<open>Digits in a base between 2 and 36, most significant first; letters are lower case.\<close>

definition digit_char :: "nat \<Rightarrow> char" where
  "digit_char d = (if d < 10 then char_of (48 + d) else char_of (87 + d))"

definition char_digit :: "char \<Rightarrow> nat option" where
  "char_digit c =
     (let k = (of_char c :: nat) in
      if 48 \<le> k \<and> k \<le> 57 then Some (k - 48)
      else if 97 \<le> k \<and> k \<le> 122 then Some (k - 87)
      else if 65 \<le> k \<and> k \<le> 90 then Some (k - 55)
      else None)"

fun digits :: "nat \<Rightarrow> nat \<Rightarrow> string" where
  "digits b n = (if b \<le> 1 \<or> n < b then [digit_char n] else digits b (n div b) @ [digit_char (n mod b)])"

declare digits.simps [simp del]

text \<open>The value of a digit string; \<^const>\<open>None\<close> when a character is no digit of the base.\<close>

definition undigits :: "nat \<Rightarrow> string \<Rightarrow> nat option" where
  "undigits b s = fold (\<lambda>c acc. case (acc, char_digit c) of
       (Some n, Some d) \<Rightarrow> if d < b then Some (n * b + d) else None
     | _ \<Rightarrow> None) s (Some 0)"

definition FormatInt :: "i64 \<Rightarrow> nat \<Rightarrow> string" where
  "FormatInt i base = (if i < 0 then ''-'' @ digits base (nat (- i)) else digits base (nat i))"

text \<open>\<^verbatim>\<open>ParseInt(s, base, 64)\<close>: an optional sign, at least one digit, a value in range.\<close>

definition ParseInt :: "string \<Rightarrow> nat \<Rightarrow> goerr + i64" where
  "ParseInt s base =
     (case s of
        [] \<Rightarrow> Inl (Msg ''invalid syntax'')
      | c # cs \<Rightarrow>
        (let neg = (c = CHR ''-''); ds = (if c = CHR ''-'' \<or> c = CHR ''+'' then cs else s) in
         if ds = [] then Inl (Msg ''invalid syntax'')
         else (case undigits base ds of
                 None \<Rightarrow> Inl (Msg ''invalid syntax'')
               | Some n \<Rightarrow>
                 (let i = (if neg then - int n else int n) in
                  if in64 i then Inr i else Inl (Msg ''value out of range'')))))"

definition Itoa :: "int \<Rightarrow> string" where
  "Itoa i = FormatInt i 10"

definition Atoi :: "string \<Rightarrow> goerr + int" where
  "Atoi s = ParseInt s 10"

text \<open>\<^verbatim>\<open>hex.EncodeToString\<close> and \<^verbatim>\<open>hex.DecodeString\<close>.\<close>

definition hex_Encode :: "bytes \<Rightarrow> string" where
  "hex_Encode bs = concat (map (\<lambda>b. [digit_char (unat b div 16), digit_char (unat b mod 16)]) bs)"

fun hex_Decode :: "string \<Rightarrow> goerr + bytes" where
  "hex_Decode [] = Inr []"
| "hex_Decode [c] = Inl (Msg ''encoding/hex: odd length hex string'')"
| "hex_Decode (c # d # cs) =
     (case (char_digit c, char_digit d) of
        (Some h, Some l) \<Rightarrow>
          (if h < 16 \<and> l < 16
           then (case hex_Decode cs of Inl e \<Rightarrow> Inl e | Inr bs \<Rightarrow> Inr (of_nat (16 * h + l) # bs))
           else Inl (Msg ''encoding/hex: invalid byte''))
      | _ \<Rightarrow> Inl (Msg ''encoding/hex: invalid byte''))"

section \<open>Strings and paths\<close>

definition TrimPrefix :: "string \<Rightarrow> string \<Rightarrow> string" where
  "TrimPrefix s p = (if take (length p) s = p then drop (length p) s else s)"

definition TrimSuffix :: "string \<Rightarrow> string \<Rightarrow> string" where
  "TrimSuffix s p =
     (if length p \<le> length s \<and> drop (length s - length p) s = p then take (length s - length p) s else s)"

text \<open>From package \<^verbatim>\<open>strings\<close>, on ASCII strings.\<close>

definition lower_char :: "char \<Rightarrow> char" where
  "lower_char c = (let n = of_char c :: nat in if 65 \<le> n \<and> n \<le> 90 then char_of (n + 32) else c)"

definition ToLower :: "string \<Rightarrow> string" where
  "ToLower s = map lower_char s"

fun Contains :: "string \<Rightarrow> string \<Rightarrow> bool" where
  "Contains [] sub = (sub = [])"
| "Contains (c # cs) sub = (take (length sub) (c # cs) = sub \<or> Contains cs sub)"

definition HasPrefix :: "string \<Rightarrow> string \<Rightarrow> bool" where
  "HasPrefix s p = (take (length p) s = p)"

definition HasSuffix :: "string \<Rightarrow> string \<Rightarrow> bool" where
  "HasSuffix s p = (length p \<le> length s \<and> drop (length s - length p) s = p)"

definition is_space :: "char \<Rightarrow> bool" where
  "is_space c = (let n = of_char c :: nat in n = 32 \<or> 9 \<le> n \<and> n \<le> 13)"

definition TrimSpace :: "string \<Rightarrow> string" where
  "TrimSpace s = rev (dropWhile is_space (rev (dropWhile is_space s)))"

text \<open>\<^verbatim>\<open>filepath.Ext\<close>: from the last dot of the last path element on.\<close>

definition Ext :: "string \<Rightarrow> string" where
  "Ext path =
     (let r = rev path; pre = takeWhile (\<lambda>c. c \<noteq> CHR ''.'' \<and> c \<noteq> CHR ''/'') r in
      case drop (length pre) r of
        [] \<Rightarrow> []
      | c # _ \<Rightarrow> if c = CHR ''.'' then rev (pre @ [c]) else [])"

text \<open>\<^verbatim>\<open>filepath.Join\<close> of a directory in shortest form and a plain name.\<close>

definition path_Join :: "string \<Rightarrow> string \<Rightarrow> string" where
  "path_Join dir name = (if dir = [] then name else if dir = ''/'' then ''/'' @ name else dir @ ''/'' @ name)"

section \<open>Facts\<close>

lemma char_digit_char: "d < 36 \<Longrightarrow> char_digit (digit_char d) = Some d"
  by (auto simp: digit_char_def char_digit_def Let_def)

lemma digits_not_nil [simp]: "digits b n \<noteq> []"
  by (subst digits.simps) simp

lemma undigits_snoc:
  "undigits b (s @ [c]) = (case (undigits b s, char_digit c) of
     (Some n, Some d) \<Rightarrow> if d < b then Some (n * b + d) else None | _ \<Rightarrow> None)"
  by (simp add: undigits_def)

lemma undigits_digits:
  assumes "2 \<le> b" "b \<le> 36"
  shows "undigits b (digits b n) = Some n"
proof (induction n rule: less_induct)
  case (less n)
  show ?case
  proof (cases "n < b")
    case True
    then show ?thesis
      using assms by (subst digits.simps) (simp add: undigits_def char_digit_char)
  next
    case False
    then have "undigits b (digits b (n div b)) = Some (n div b)"
      using less [of "n div b"] assms by simp
    moreover have "n mod b < b" "n mod b < 36"
      using assms mod_less_divisor [of b n] by linarith+
    moreover have "digits b n = digits b (n div b) @ [digit_char (n mod b)]"
      using False assms by (subst digits.simps) simp
    ultimately show ?thesis
      using assms by (simp add: undigits_snoc char_digit_char mult.commute)
  qed
qed

text \<open>Only digits and lower case letters occur.\<close>

lemma set_digits:
  assumes "2 \<le> b" "b \<le> 36" "c \<in> set (digits b n)"
  shows "\<exists>d < b. c = digit_char d"
  using assms(3)
proof (induction n rule: less_induct)
  case (less n)
  show ?case
  proof (cases "n < b")
    case True
    then show ?thesis using less.prems by (subst (asm) digits.simps) auto
  next
    case False
    then have "c \<in> set (digits b (n div b)) \<or> c = digit_char (n mod b)"
      using less.prems assms(1) by (subst (asm) digits.simps) auto
    then show ?thesis
      using less.IH [of "n div b"] False assms(1) mod_less_divisor [of b n]
      by (elim disjE) (auto intro!: exI [of _ "n mod b"])
  qed
qed

lemma digit_char_plain:
  "d < 36 \<Longrightarrow> digit_char d \<notin> {CHR ''-'', CHR ''+'', CHR ''.'', CHR ''/''}"
proof -
  assume "d < 36"
  then have "char_digit (digit_char d) = Some d" by (rule char_digit_char)
  then show ?thesis by (auto simp: char_digit_def)
qed

lemma ParseInt_FormatInt:
  assumes "2 \<le> base" "base \<le> 36" "in64 i"
  shows "ParseInt (FormatInt i base) base = Inr i"
proof (cases "i < 0")
  case True
  then show ?thesis using assms by (simp add: ParseInt_def FormatInt_def undigits_digits)
next
  case False
  obtain c cs where c: "digits base (nat i) = c # cs" by (cases "digits base (nat i)") auto
  then obtain d where "d < base" "c = digit_char d" using set_digits [OF assms(1,2), of c "nat i"] by auto
  then have "c \<noteq> CHR ''-''" "c \<noteq> CHR ''+''" using digit_char_plain [of d] assms(2) by auto
  then show ?thesis
    using False assms c undigits_digits [OF assms(1,2), of "nat i"] by (simp add: ParseInt_def FormatInt_def)
qed

lemma Atoi_Itoa: "in64 i \<Longrightarrow> Atoi (Itoa i) = Inr i"
  by (simp add: Atoi_def Itoa_def ParseInt_FormatInt)

lemma Ext_digits:
  assumes "2 \<le> b" "b \<le> 36"
  shows "Ext (digits b n) = []"
proof -
  have "takeWhile (\<lambda>c. c \<noteq> CHR ''.'' \<and> c \<noteq> CHR ''/'') (rev (digits b n)) = rev (digits b n)"
    unfolding takeWhile_eq_all_conv
  proof
    fix c
    assume "c \<in> set (rev (digits b n))"
    then obtain d where "d < b" "c = digit_char d" using set_digits [OF assms, of c n] by auto
    then show "c \<noteq> CHR ''.'' \<and> c \<noteq> CHR ''/''" using digit_char_plain [of d] assms(2) by auto
  qed
  then show ?thesis unfolding Ext_def Let_def by (simp only:) simp
qed

lemma TrimPrefix_append [simp]: "TrimPrefix (p @ s) p = s"
  by (simp add: TrimPrefix_def)

lemma TrimSuffix_nil [simp]: "TrimSuffix s [] = s"
  by (simp add: TrimSuffix_def)

lemma digits_inj: "2 \<le> b \<Longrightarrow> b \<le> 36 \<Longrightarrow> digits b m = digits b n \<longleftrightarrow> m = n"
  by (metis option.inject undigits_digits)

lemma hex_Decode_Encode: "hex_Decode (hex_Encode bs) = Inr bs"
proof (induction bs)
  case Nil
  then show ?case by (simp add: hex_Encode_def)
next
  case (Cons b bs)
  have "unat b < 256" using unsigned_less [of b] by simp
  then have "unat b div 16 < 16" by simp
  moreover have "(of_nat (16 * (unat b div 16) + unat b mod 16) :: u8) = b" by simp
  ultimately show ?case using Cons by (simp add: hex_Encode_def char_digit_char del: of_nat_add of_nat_mult)
qed

end
