(* ===== verification/Stow.thy ===== *)
theory Stow
  imports Strconv OsFile
begin

text \<open>
  What the object store device runs on. The object storage package and the semaphore package are
  parameters, records of their operations with the promises of their documentation as predicates
  (\<open>stow_ok\<close>, \<open>sema_ok\<close>). The cache directory is a map from path names to files; a handle is the
  path of an open file, and the nil handle is \<^const>\<open>None\<close>. The clock is an arbitrary sequence.
\<close>

section \<open>Containers and semaphores\<close>

text \<open>Metadata maps names to strings or to values of other types.\<close>

datatype mdval = MdString string | MdOther

type_synonym metadata = "(string \<times> mdval) list"

text \<open>A reader is the bytes it yields and how it ends, \<^const>\<open>None\<close> for the end of file.\<close>

type_synonym strm = "bytes \<times> goerr option"

record ('c, 'i) stow_ops =
  ct_Name :: "'c \<Rightarrow> string"
  ct_Put :: "'c \<Rightarrow> string \<Rightarrow> strm \<Rightarrow> i64 \<Rightarrow> metadata \<Rightarrow> (goerr + 'i) \<times> 'c"
  ct_Item :: "'c \<Rightarrow> string \<Rightarrow> 'i option \<times> goerr option"
  ct_Items :: "'c \<Rightarrow> string \<Rightarrow> nat \<Rightarrow> goerr + 'i list \<times> bool"
  it_Name :: "'i \<Rightarrow> string"
  it_Size :: "'c \<Rightarrow> 'i \<Rightarrow> goerr + i64"
  it_Open :: "'c \<Rightarrow> 'i \<Rightarrow> goerr + strm"
  it_ETag :: "'c \<Rightarrow> 'i \<Rightarrow> goerr + string"
  it_Metadata :: "'c \<Rightarrow> 'i \<Rightarrow> goerr + metadata"

record 's sema_ops =
  sm_P :: "'s \<Rightarrow> bool \<times> 's"
  sm_V :: "'s \<Rightarrow> bool \<times> 's"

text \<open>
  A container is a map from names to objects. Putting a stream that has the announced number of
  bytes stores them under the name; a proper item of that name has their size and opens to them.
  Listing a prefix answers all items of the prefix, one per name and proper, when the limit is not
  exceeded.
\<close>

definition stow_ok :: "('c, 'i) stow_ops \<Rightarrow> ('c \<Rightarrow> bool) \<Rightarrow> ('c \<Rightarrow> string \<Rightarrow> bytes option) \<Rightarrow> ('i \<Rightarrow> bool) \<Rightarrow> bool" where
  "stow_ok st cinv cmap proper \<longleftrightarrow>
     (\<forall>c name bs. cinv c \<longrightarrow> int (length bs) < 2 ^ 63 \<longrightarrow> (\<exists>it c'. ct_Put st c name (bs, None) (int (length bs)) [] = (Inr it, c') \<and>
        cinv c' \<and> cmap c' = (cmap c)(name \<mapsto> bs) \<and> it_Name st it = name \<and> ct_Name st c' = ct_Name st c)) \<and>
     (\<forall>c it bs. cinv c \<longrightarrow> proper it \<longrightarrow> cmap c (it_Name st it) = Some bs \<longrightarrow>
        it_Size st c it = Inr (int (length bs)) \<and> it_Open st c it = Inr (bs, None)) \<and>
     (\<forall>c prefix n. cinv c \<longrightarrow> finite {nm. cmap c nm \<noteq> None \<and> take (length prefix) nm = prefix} \<longrightarrow>
        card {nm. cmap c nm \<noteq> None \<and> take (length prefix) nm = prefix} < n \<longrightarrow>
        (\<exists>its. ct_Items st c prefix n = Inr (its, True) \<and> distinct (map (it_Name st) its) \<and> (\<forall>it \<in> set its. proper it) \<and>
           set (map (it_Name st) its) = {nm. cmap c nm \<noteq> None \<and> take (length prefix) nm = prefix}))"

text \<open>The items that \<open>Put\<close> answers are proper, which not every container promises.\<close>

definition put_proper :: "('c, 'i) stow_ops \<Rightarrow> ('i \<Rightarrow> bool) \<Rightarrow> bool" where
  "put_proper st proper \<longleftrightarrow> (\<forall>c name data sz md it c'. ct_Put st c name data sz md = (Inr it, c') \<longrightarrow> proper it)"

lemma stow_Put:
  assumes "stow_ok st cinv cmap proper" "cinv c" "int (length bs) < 2 ^ 63"
  shows "\<exists>it c'. ct_Put st c name (bs, None) (int (length bs)) [] = (Inr it, c') \<and> cinv c' \<and>
    cmap c' = (cmap c)(name \<mapsto> bs) \<and> it_Name st it = name \<and> ct_Name st c' = ct_Name st c"
  using assms(1) [unfolded stow_ok_def, THEN conjunct1, rule_format, OF assms(2,3)] .

lemma stow_Items:
  assumes "stow_ok st cinv cmap proper" "cinv c" "finite {nm. cmap c nm \<noteq> None \<and> take (length prefix) nm = prefix}"
    and "card {nm. cmap c nm \<noteq> None \<and> take (length prefix) nm = prefix} < n"
  shows "\<exists>its. ct_Items st c prefix n = Inr (its, True) \<and> distinct (map (it_Name st) its) \<and> (\<forall>it \<in> set its. proper it) \<and>
    set (map (it_Name st) its) = {nm. cmap c nm \<noteq> None \<and> take (length prefix) nm = prefix}"
  using assms(1) [unfolded stow_ok_def, THEN conjunct2, THEN conjunct2, rule_format, OF assms(2-4)] .

text \<open>A counting semaphore with \<open>free\<close> units of \<open>cap\<close>: \<open>P\<close> takes one or reports that there is none,
  \<open>V\<close> gives one back.\<close>

definition sema_ok :: "'s sema_ops \<Rightarrow> ('s \<Rightarrow> nat) \<Rightarrow> nat \<Rightarrow> bool" where
  "sema_ok sm free cap \<longleftrightarrow>
     (\<forall>s. 0 < free s \<longrightarrow> (\<exists>s'. sm_P sm s = (True, s') \<and> Suc (free s') = free s)) \<and>
     (\<forall>s. free s = 0 \<longrightarrow> (\<exists>s'. sm_P sm s = (False, s') \<and> free s' = 0)) \<and>
     (\<forall>s. free s < cap \<longrightarrow> (\<exists>s'. sm_V sm s = (True, s') \<and> free s' = Suc (free s)))"

section \<open>The world of a device\<close>

text \<open>\<open>fs_new\<close> says how files created from now on behave; the flags say which calls fail.\<close>

record osfs =
  fs_files :: "string \<Rightarrow> osfile option"
  fs_new :: osfile
  fs_createErr :: bool
  fs_removeErr :: bool
  fs_openErr :: bool
  fs_readFileErr :: bool
  fs_writeFileErr :: bool

record ('c, 's) world =
  w_cont :: 'c
  w_sema :: 's
  w_fs :: osfs
  w_time :: "nat \<Rightarrow> i64"
  w_tick :: nat

definition w_now :: "('c, 's) world \<Rightarrow> i64 \<times> ('c, 's) world" where
  "w_now w = (w_time w (w_tick w), w\<lparr>w_tick := Suc (w_tick w)\<rparr>)"

definition w_set :: "('c, 's) world \<Rightarrow> string \<Rightarrow> osfile option \<Rightarrow> ('c, 's) world" where
  "w_set w path f = w\<lparr>w_fs := (w_fs w)\<lparr>fs_files := (fs_files (w_fs w))(path := f)\<rparr>\<rparr>"

abbreviation w_file :: "('c, 's) world \<Rightarrow> string \<Rightarrow> osfile option" where
  "w_file w \<equiv> fs_files (w_fs w)"

definition os_Create :: "('c, 's) world \<Rightarrow> string \<Rightarrow> goerr option \<times> ('c, 's) world" where
  "os_Create w path =
     (if fs_createErr (w_fs w) then (Some (OsFault ''open''), w)
      else (None, w_set w path (Some ((fs_new (w_fs w))\<lparr>fdata := [], fpos := 0, fclosed := False\<rparr>))))"

definition os_Remove :: "('c, 's) world \<Rightarrow> string \<Rightarrow> goerr option \<times> ('c, 's) world" where
  "os_Remove w path =
     (if w_file w path = None then (Some ErrNotExist, w)
      else if fs_removeErr (w_fs w) then (Some (OsFault ''remove''), w)
      else (None, w_set w path None))"

text \<open>\<^verbatim>\<open>os.OpenFile(path, os.O_RDWR, 0666)\<close> on an existing file.\<close>

definition os_Open :: "('c, 's) world \<Rightarrow> string \<Rightarrow> goerr option \<times> ('c, 's) world" where
  "os_Open w path =
     (case w_file w path of
        None \<Rightarrow> (Some ErrNotExist, w)
      | Some f \<Rightarrow>
        (if fs_openErr (w_fs w) then (Some (OsFault ''open''), w)
         else (None, w_set w path (Some (f\<lparr>fpos := 0, fclosed := False\<rparr>)))))"

definition os_ReadFile :: "('c, 's) world \<Rightarrow> string \<Rightarrow> goerr + bytes" where
  "os_ReadFile w path =
     (case w_file w path of
        None \<Rightarrow> Inl ErrNotExist
      | Some f \<Rightarrow> if fs_readFileErr (w_fs w) then Inl (OsFault ''read'') else Inr (fdata f))"

definition os_WriteFile :: "('c, 's) world \<Rightarrow> string \<Rightarrow> bytes \<Rightarrow> goerr option \<times> ('c, 's) world" where
  "os_WriteFile w path bs =
     (if fs_writeFileErr (w_fs w) then (Some (OsFault ''write''), w)
      else (None, w_set w path (Some (new_file bs))))"

text \<open>Operations on a handle. Those of the nil handle fail.\<close>

definition h_file :: "('c, 's) world \<Rightarrow> string option \<Rightarrow> osfile option" where
  "h_file w h = (case h of None \<Rightarrow> None | Some path \<Rightarrow> w_file w path)"

definition h_ReadAt :: "('c, 's) world \<Rightarrow> string option \<Rightarrow> bytes \<Rightarrow> i64 \<Rightarrow> int \<times> goerr option \<times> bytes" where
  "h_ReadAt w h buf off =
     (case h_file w h of None \<Rightarrow> (0, Some OsInvalid, buf) | Some f \<Rightarrow> file_ReadAt f buf off)"

definition h_WriteAt :: "('c, 's) world \<Rightarrow> string option \<Rightarrow> bytes \<Rightarrow> i64 \<Rightarrow> int \<times> goerr option \<times> ('c, 's) world" where
  "h_WriteAt w h buf off =
     (case h_file w h of
        None \<Rightarrow> (0, Some OsInvalid, w)
      | Some f \<Rightarrow> (case file_WriteAt f buf off of (n, err, f) \<Rightarrow> (n, err, w_set w (the h) (Some f))))"

definition h_Sync :: "('c, 's) world \<Rightarrow> string option \<Rightarrow> goerr option" where
  "h_Sync w h = (case h_file w h of None \<Rightarrow> Some OsInvalid | Some f \<Rightarrow> file_Sync f)"

definition h_Close :: "('c, 's) world \<Rightarrow> string option \<Rightarrow> goerr option \<times> ('c, 's) world" where
  "h_Close w h =
     (case h_file w h of
        None \<Rightarrow> (Some OsInvalid, w)
      | Some f \<Rightarrow> (case file_Close f of (err, f) \<Rightarrow> (err, w_set w (the h) (Some f))))"

text \<open>What a reader over \<open>ReadAt\<close> (\<^verbatim>\<open>strms.NewReadAtReader\<close>) yields: the file from its start.\<close>

definition h_stream :: "('c, 's) world \<Rightarrow> string option \<Rightarrow> strm" where
  "h_stream w h =
     (case h_file w h of
        None \<Rightarrow> ([], Some OsInvalid)
      | Some f \<Rightarrow>
        if fclosed f then ([], Some OsClosed)
        else if frderr f then ([], Some (OsFault ''read'')) else (fdata f, None))"

section \<open>Facts\<close>

lemma w_set_simps [simp]:
  "w_file (w_set w p f) = (w_file w)(p := f)" "w_cont (w_set w p f) = w_cont w" "w_sema (w_set w p f) = w_sema w"
  "w_time (w_set w p f) = w_time w" "w_tick (w_set w p f) = w_tick w"
  "fs_new (w_fs (w_set w p f)) = fs_new (w_fs w)" "fs_createErr (w_fs (w_set w p f)) = fs_createErr (w_fs w)"
  "fs_removeErr (w_fs (w_set w p f)) = fs_removeErr (w_fs w)"
  by (simp_all add: w_set_def)

end
