(* ===== verification/Sparse.thy ===== *)
theory Sparse
  imports OsFile
begin

text \<open>
  \<open>sparseCopy\<close> of \<^verbatim>\<open>src/pkg/devices/objstore/storeparams.go\<close>: a copy of a stream into a file that
  skips long runs of zeros by seeking. Its exact effect is determined: the bytes of the stream,
  plus one zero byte whenever the stream does not end in a zero.
\<close>

section \<open>Definitions\<close>

definition minSeqSparseZeros :: nat where
  "minSeqSparseZeros = 4096"

text \<open>The loop that writes pending zeros one by one; it returns how many it wrote.\<close>

fun sparse_zeros :: "nat \<Rightarrow> bufw \<Rightarrow> int \<Rightarrow> int \<times> goerr option \<times> bufw" where
  "sparse_zeros 0 out n = (n, None, out)"
| "sparse_zeros (Suc k) out n =
     (case bw_WriteByte out 0 of
        (Some e, out) \<Rightarrow> (n, Some e, out)
      | (None, out) \<Rightarrow> sparse_zeros k out (n + 1))"

text \<open>The end of the stream: flush, seek over all but one of the pending zeros, write a zero.\<close>

definition sparse_end :: "bufw \<Rightarrow> nat \<Rightarrow> int \<Rightarrow> int \<times> goerr option \<times> bufw" where
  "sparse_end out pendZeros n =
     (case bw_Flush out of
        (Some e, out) \<Rightarrow> (n, Some e, out)
      | (None, out) \<Rightarrow>
        (case (if 1 < pendZeros then file_SeekCur (bw_file out) (pendZeros - 1) else (None, bw_file out)) of
           (Some e, f) \<Rightarrow> (n, Some e, out\<lparr>bw_file := f\<rparr>)
         | (None, f) \<Rightarrow>
           (case file_Write f [0] of
              (_, Some e, f) \<Rightarrow> (n + int pendZeros, Some e, out\<lparr>bw_file := f\<rparr>)
            | (_, None, f) \<Rightarrow>
              (case bw_Flush (out\<lparr>bw_file := f\<rparr>) of (err, out) \<Rightarrow> (n + int pendZeros, err, out)))))"

text \<open>The loop over the bytes of the stream; \<open>rderr\<close> is how the stream ends, \<^const>\<open>None\<close> for the end
  of file.\<close>

fun sparse_loop :: "bytes \<Rightarrow> goerr option \<Rightarrow> bufw \<Rightarrow> nat \<Rightarrow> int \<Rightarrow> int \<times> goerr option \<times> bufw" where
  "sparse_loop [] rderr out pendZeros n =
     (case rderr of Some e \<Rightarrow> (n, Some e, out) | None \<Rightarrow> sparse_end out pendZeros n)"
| "sparse_loop (cur # rest) rderr out pendZeros n =
     (if cur = 0 then sparse_loop rest rderr out (Suc pendZeros) n
      else
        (case (if 0 < pendZeros
               then (if minSeqSparseZeros \<le> pendZeros
                     then (case bw_Flush out of
                             (Some e, out) \<Rightarrow> (n, Some e, out)
                           | (None, out) \<Rightarrow>
                             (case file_SeekCur (bw_file out) pendZeros of
                                (Some e, f) \<Rightarrow> (n, Some e, out\<lparr>bw_file := f\<rparr>)
                              | (None, f) \<Rightarrow> (n + int pendZeros, None, out\<lparr>bw_file := f\<rparr>)))
                     else sparse_zeros pendZeros out n)
               else (n, None, out)) of
           (n, Some e, out) \<Rightarrow> (n, Some e, out)
         | (n, None, out) \<Rightarrow>
           (case bw_WriteByte out cur of
              (Some e, out) \<Rightarrow> (n, Some e, out)
            | (None, out) \<Rightarrow> sparse_loop rest rderr out 0 (n + 1))))"

definition sparseCopy :: "osfile \<Rightarrow> bytes \<Rightarrow> goerr option \<Rightarrow> int \<times> goerr option \<times> osfile" where
  "sparseCopy f src rderr =
     (case sparse_loop src rderr (bw_new f) 0 0 of (n, err, out) \<Rightarrow> (n, err, bw_file out))"

section \<open>Writers over files with a hole at the end\<close>

text \<open>What the file will hold once the buffer is written behind the position.\<close>

definition sw_content :: "bufw \<Rightarrow> bytes" where
  "sw_content w = fdata (bw_file w) @ zeros (fpos (bw_file w) - length (fdata (bw_file w))) @ bw_buf w"

definition sw_ok :: "bufw \<Rightarrow> bool" where
  "sw_ok w \<longleftrightarrow> bw_err w = None \<and> healthy (bw_file w) \<and> length (fdata (bw_file w)) \<le> fpos (bw_file w)"

lemma sw_Flush:
  assumes "sw_ok w"
  obtains w' where "bw_Flush w = (None, w')" "sw_ok w'" "sw_content w' = sw_content w" "bw_buf w' = []"
proof (cases "bw_buf w = []")
  case True
  with assms show ?thesis by (intro that [of w]) (auto simp: bw_Flush_def sw_ok_def)
next
  case False
  let ?f = "bw_file w"
  let ?w = "w\<lparr>bw_file := ?f\<lparr>fdata := store (fdata ?f) (fpos ?f) (bw_buf w), fpos := fpos ?f + length (bw_buf w)\<rparr>,
    bw_buf := [], bw_err := None\<rparr>"
  have "bw_Flush w = (None, ?w)"
    using False assms by (simp add: bw_Flush_def sw_ok_def file_Write_healthy)
  moreover have "sw_ok ?w" "sw_content ?w = sw_content w"
    using False assms by (auto simp: sw_ok_def sw_content_def store_hole length_store)
  ultimately show ?thesis using that by simp
qed

lemma sw_WriteByte:
  assumes "sw_ok w"
  obtains w' where "bw_WriteByte w c = (None, w')" "sw_ok w'" "sw_content w' = sw_content w @ [c]"
proof (cases "bufioSize \<le> length (bw_buf w)")
  case True
  obtain w' where w': "bw_Flush w = (None, w')" "sw_ok w'" "sw_content w' = sw_content w"
    using sw_Flush [OF assms] by metis
  then show ?thesis
    using True assms that [of "w'\<lparr>bw_buf := bw_buf w' @ [c]\<rparr>"]
    by (auto simp: bw_WriteByte_def sw_ok_def sw_content_def)
next
  case False
  then show ?thesis
    using assms that [of "w\<lparr>bw_buf := bw_buf w @ [c]\<rparr>"]
    by (auto simp: bw_WriteByte_def sw_ok_def sw_content_def)
qed

lemma sw_Seek:
  assumes "sw_ok w" "bw_buf w = []"
  shows "file_SeekCur (bw_file w) k = (None, (bw_file w)\<lparr>fpos := fpos (bw_file w) + k\<rparr>)"
    "sw_ok (w\<lparr>bw_file := (bw_file w)\<lparr>fpos := fpos (bw_file w) + k\<rparr>\<rparr>)"
    "sw_content (w\<lparr>bw_file := (bw_file w)\<lparr>fpos := fpos (bw_file w) + k\<rparr>\<rparr>) = sw_content w @ zeros k"
  using assms by (simp_all add: sw_ok_def sw_content_def file_SeekCur_healthy flip: replicate_add)

lemma sparse_zeros_ok:
  "sw_ok w \<Longrightarrow> \<exists>w'. sparse_zeros k w n = (n + int k, None, w') \<and> sw_ok w' \<and> sw_content w' = sw_content w @ zeros k"
proof (induction k arbitrary: w n)
  case (Suc k)
  obtain w1 where w1: "bw_WriteByte w 0 = (None, w1)" "sw_ok w1" "sw_content w1 = sw_content w @ [0]"
    using sw_WriteByte [OF Suc.prems] by metis
  then show ?case using Suc.IH [OF w1(2), of "n + 1"] by (auto simp: algebra_simps)
qed simp

lemma sparse_end_ok:
  assumes "sw_ok w"
  shows "\<exists>w'. sparse_end w k n = (n + int k, None, w') \<and> healthy (bw_file w') \<and>
    fdata (bw_file w') = sw_content w @ zeros (max 1 k)"
proof -
  obtain w1 where w1: "bw_Flush w = (None, w1)" "sw_ok w1" "sw_content w1 = sw_content w" "bw_buf w1 = []"
    using sw_Flush [OF assms] by metis
  define w2 where "w2 = w1\<lparr>bw_file := (bw_file w1)\<lparr>fpos := fpos (bw_file w1) + (k - 1)\<rparr>\<rparr>"
  have w2: "(if 1 < k then file_SeekCur (bw_file w1) (k - 1) else (None, bw_file w1)) = (None, bw_file w2)"
    "sw_ok w2" "sw_content w2 = sw_content w @ zeros (k - 1)" "bw_buf w2 = []" "bw_err w2 = None"
    using sw_Seek [OF w1(2,4), of "k - 1"] w1 by (auto simp: w2_def sw_ok_def)
  have "file_Write (bw_file w2) [0] = (1, None, (bw_file w2)\<lparr>fdata := sw_content w2 @ [0],
      fpos := fpos (bw_file w2) + 1\<rparr>)"
    using w2(2,4) by (simp add: file_Write_healthy sw_ok_def sw_content_def store_hole)
  moreover have "sw_content w2 @ [0] = sw_content w @ zeros (max 1 k)"
    using w2(3) by (cases k) (auto simp: replicate_append_same max_def)
  moreover have "healthy (bw_file w2)" "bw_err w1 = None" using w2(2) w1(2) by (simp_all add: sw_ok_def)
  ultimately show ?thesis
    using w1 w2(1) by (auto simp: sparse_end_def bw_Flush_def)
qed

text \<open>The loop, from any writer and any number of pending zeros.\<close>

lemma sparse_loop_ok:
  "sw_ok w \<Longrightarrow> \<exists>w'. sparse_loop src None w k n = (n + int (k + length src), None, w') \<and> healthy (bw_file w') \<and>
     fdata (bw_file w') = sw_content w @ zeros k @ src @
       (if (if src = [] then 0 < k else last src = 0) then [] else [0])"
proof (induction src arbitrary: w k n)
  case Nil
  then show ?case
    using sparse_end_ok [OF Nil, of k n] by (cases k) (auto simp: max_def)
next
  case (Cons c cs)
  show ?case
  proof (cases "c = 0")
    case True
    then show ?thesis
      using Cons.IH [OF Cons.prems, of "Suc k" n]
      by (auto simp: replicate_append_same algebra_simps)
  next
    case False
    define r where "r = (if 0 < k
         then (if minSeqSparseZeros \<le> k
               then (case bw_Flush w of
                       (Some e, out) \<Rightarrow> (n, Some e, out)
                     | (None, out) \<Rightarrow>
                       (case file_SeekCur (bw_file out) k of
                          (Some e, f) \<Rightarrow> (n, Some e, out\<lparr>bw_file := f\<rparr>)
                        | (None, f) \<Rightarrow> (n + int k, None, out\<lparr>bw_file := f\<rparr>)))
               else sparse_zeros k w n)
         else (n, None, w))"
    have "\<exists>w1. r = (n + int k, None, w1) \<and> sw_ok w1 \<and> sw_content w1 = sw_content w @ zeros k"
    proof (cases "minSeqSparseZeros \<le> k")
      case True
      obtain w1 where "bw_Flush w = (None, w1)" "sw_ok w1" "sw_content w1 = sw_content w" "bw_buf w1 = []"
        using sw_Flush [OF Cons.prems] by metis
      then show ?thesis
        using True sw_Seek [of w1 k] by (auto simp: r_def minSeqSparseZeros_def)
    qed (use Cons.prems sparse_zeros_ok [OF Cons.prems, of k n] in \<open>auto simp: r_def\<close>)
    then obtain w1 where w1: "r = (n + int k, None, w1)" "sw_ok w1" "sw_content w1 = sw_content w @ zeros k"
      by blast
    obtain w2 where w2: "bw_WriteByte w1 c = (None, w2)" "sw_ok w2" "sw_content w2 = sw_content w1 @ [c]"
      using sw_WriteByte [OF w1(2)] by metis
    have "sparse_loop (c # cs) None w k n = sparse_loop cs None w2 0 (n + int k + 1)"
      using False w1(1) w2(1) unfolding r_def by simp
    then show ?thesis
      using Cons.IH [OF w2(2), of 0 "n + int k + 1"] False w1(3) w2(3)
      by (auto simp: algebra_simps)
  qed
qed

lemma sparseCopy_new:
  assumes "healthy f" "fdata f = []" "fpos f = 0"
  shows "\<exists>f'. sparseCopy f src None = (int (length src), None, f') \<and> healthy f' \<and>
    fdata f' = (if src \<noteq> [] \<and> last src = 0 then src else src @ [0])"
proof -
  have "sw_ok (bw_new f)" "sw_content (bw_new f) = []"
    using assms by (simp_all add: sw_ok_def bw_new_def sw_content_def)
  then show ?thesis
    using sparse_loop_ok [of "bw_new f" src 0 0] by (auto simp: sparseCopy_def)
qed

end
