(* ===== verification/Storeparams.thy ===== *)
theory Storeparams
  imports Stow Sparse
begin

text \<open>
  The local cache files of the object store device,
  \<^verbatim>\<open>src/pkg/devices/objstore/storeparams.go\<close>: creating, downloading, re-using, uploading and
  removing them, and the quota on their number.
\<close>

section \<open>Definitions\<close>

definition osbdPrefix :: string where "osbdPrefix = ''osbd''"
definition devicePrefix :: string where "devicePrefix = ''-dev_''"
definition blockPrefix :: string where "blockPrefix = ''-blk_''"

record ('c, 'i, 's) storeParams =
  sp_container :: "('c, 'i) stow_ops"
  sp_segmentBytes :: i64
  sp_cacheDir :: string
  sp_thickProvision :: bool
  sp_persistCache :: bool
  sp_quotaSema :: "'s sema_ops option"

definition itemName :: "('c, 'i, 's) storeParams \<Rightarrow> ('c, 's) world \<Rightarrow> string \<Rightarrow> string" where
  "itemName sp w segID = osbdPrefix @ devicePrefix @ ct_Name (sp_container sp) (w_cont w) @ blockPrefix @ segID"

definition eTagFileName :: "string \<Rightarrow> string" where
  "eTagFileName assocFilename = assocFilename @ ''.etag''"

definition claimCapacity :: "('c, 'i, 's) storeParams \<Rightarrow> ('c, 's) world \<Rightarrow> goerr option \<times> ('c, 's) world" where
  "claimCapacity sp w =
     (case sp_quotaSema sp of
        None \<Rightarrow> (None, w)
      | Some sm \<Rightarrow>
        (case sm_P sm (w_sema w) of (ok, s) \<Rightarrow> (if ok then None else Some ErrCapacityClaim, w\<lparr>w_sema := s\<rparr>)))"

definition releaseCapacity :: "('c, 'i, 's) storeParams \<Rightarrow> ('c, 's) world \<Rightarrow> ('c, 's) world go" where
  "releaseCapacity sp w =
     (case sp_quotaSema sp of
        None \<Rightarrow> Ret w
      | Some sm \<Rightarrow> (case sm_V sm (w_sema w) of (ok, s) \<Rightarrow> if ok then Ret (w\<lparr>w_sema := s\<rparr>) else Panic))"

text \<open>\<open>createFile\<close> keeps the claimed capacity when it fails.\<close>

definition createFile :: "('c, 'i, 's) storeParams \<Rightarrow> string \<Rightarrow> ('c, 's) world \<Rightarrow>
    string option \<times> goerr option \<times> ('c, 's) world" where
  "createFile sp segID w =
     (case claimCapacity sp w of
        (Some e, w) \<Rightarrow> (None, Some (Wrap ''Not enough capacity to create file'' e), w)
      | (None, w) \<Rightarrow>
     (let fpath = path_Join (sp_cacheDir sp) (itemName sp w segID) in
      case os_Create w fpath of
        (Some e, w) \<Rightarrow> (None, Some (Wrap ''Could not create new object local file'' e), w)
      | (None, w) \<Rightarrow>
     (if sp_thickProvision sp then
        (case file_Write (the (w_file w fpath)) (zeros (nat (sp_segmentBytes sp))) of
           (_, Some e, f) \<Rightarrow> (None, Some (Wrap ''Could not write zeros to new object local file'' e),
                            snd (os_Remove (w_set w fpath (Some f)) fpath))
         | (_, None, f) \<Rightarrow> (Some fpath, None, w_set w fpath (Some f)))
      else
        (case h_WriteAt w (Some fpath) [0] (sp_segmentBytes sp - 1) of
           (_, Some e, w) \<Rightarrow> (None, Some (Wrap ''Could not allocate new sparse object local file'' e),
                            snd (os_Remove w fpath))
         | (_, None, w) \<Rightarrow> (Some fpath, None, w)))))"

text \<open>\<open>cachedFile\<close>: re-use the local file of an earlier run when its tag matches the remote one, else
  clear the way for a download.\<close>

definition cachedFile :: "('c, 'i, 's) storeParams \<Rightarrow> 'i \<Rightarrow> string \<Rightarrow> i64 \<Rightarrow> ('c, 's) world \<Rightarrow>
    string option \<times> goerr option \<times> ('c, 's) world" where
  "cachedFile sp item fpath remoteSize w =
     (let eTagPath = eTagFileName fpath;
          dataExists = (w_file w fpath \<noteq> None);
          eTagExists = (w_file w eTagPath \<noteq> None);
          rmDataFile = (\<lambda>w. case os_Remove w fpath of
            (err, w) \<Rightarrow> (map_option (Wrap ''Could not remove local cache file'') err, w));
          rmETagFile = (\<lambda>w. case os_Remove w eTagPath of
            (err, w) \<Rightarrow> (map_option (Wrap ''Could not remove local cache eTag metadata file'') err, w))
      in
      if dataExists \<and> \<not> eTagExists then (case rmDataFile w of (err, w) \<Rightarrow> (None, err, w))
      else if \<not> dataExists \<and> eTagExists then (case rmETagFile w of (err, w) \<Rightarrow> (None, err, w))
      else if \<not> sp_persistCache sp \<and> (dataExists \<or> eTagExists)
      then (None, Some (Msg ''Local cache and/or eTag metadata files exist but cache persistence is not enabled''), w)
      else if dataExists \<and> eTagExists then
        (case os_ReadFile w eTagPath of
           Inl e \<Rightarrow> (None, Some (Wrap ''Could not read eTag metadata file'' e), w)
         | Inr fileETagBytes \<Rightarrow>
           (case it_ETag (sp_container sp) (w_cont w) item of
              Inl e \<Rightarrow> (None, Some (Wrap ''Could not get remote item eTag metadata'' e), w)
            | Inr itemETag \<Rightarrow>
              (let fileETag = map (\<lambda>b. char_of (unat b)) fileETagBytes in
               if fileETag \<noteq> '''' \<and> fileETag = itemETag \<and> int (length (fdata (the (w_file w fpath)))) = remoteSize
               then (case os_Open w fpath of
                       (Some e, w) \<Rightarrow> (None, Some (Wrap ''Could not open locally cached data file'' e), w)
                     | (None, w) \<Rightarrow> (Some fpath, None, w))
               else (case rmDataFile w of (rmDataErr, w) \<Rightarrow>
                     (case rmETagFile w of (rmETagErr, w) \<Rightarrow>
                        (None, if rmDataErr \<noteq> None then rmDataErr else rmETagErr, w))))))
      else (None, None, w))"

text \<open>
  The transfer of a download into a new file. The reader is limited to one byte more than the
  announced size, so that a longer object is noticed. The results are the number of bytes, the
  error, whether the limit was used up, and the file.
\<close>

definition copyObject :: "bool \<Rightarrow> osfile \<Rightarrow> strm \<Rightarrow> i64 \<Rightarrow> int \<times> goerr option \<times> bool \<times> osfile" where
  "copyObject thick f data remoteSize =
     (let limit = nat (remoteSize + 1); src = take limit (fst data);
          full = limit \<le> length (fst data);
          rderr = (if full then None else snd data)
      in if thick
         then (case file_Write f src of (n, err, f) \<Rightarrow> (n, if err \<noteq> None then err else rderr, full, f))
         else (case sparseCopy f src rderr of (n, err, f) \<Rightarrow> (n, err, full, f)))"

text \<open>
  \<open>downloadFile\<close>. Every failure after the claim releases the capacity; a download that fails leaves
  its file behind, because the deferred clean-up sees the nil result.
\<close>

definition downloadBody :: "('c, 'i, 's) storeParams \<Rightarrow> 'i \<Rightarrow> ('c, 's) world \<Rightarrow>
    string option \<times> goerr option \<times> ('c, 's) world" where
  "downloadBody sp item w =
     (case it_Size (sp_container sp) (w_cont w) item of
        Inl e \<Rightarrow> (None, Some (Wrap ''Could not obtain size'' e), w)
      | Inr remoteSize \<Rightarrow>
     (if remoteSize = 0 then (None, None, w)
      else if remoteSize \<noteq> sp_segmentBytes sp then (None, Some (Msg ''Store reported object was wrong size''), w)
      else
     (let fpath = path_Join (sp_cacheDir sp) (it_Name (sp_container sp) item) in
      case cachedFile sp item fpath remoteSize w of
        (_, Some e, w) \<Rightarrow> (None, Some (Wrap ''Local cache is unusable'' e), w)
      | (Some path, None, w) \<Rightarrow> (Some path, None, w)
      | (None, None, w) \<Rightarrow>
     (case os_Create w fpath of
        (Some e, w) \<Rightarrow> (None, Some (Wrap ''Could not create download object local file'' e), w)
      | (None, w) \<Rightarrow>
     (case it_Open (sp_container sp) (w_cont w) item of
        Inl e \<Rightarrow> (None, Some (Wrap ''Could not open object for downloading'' e), w)
      | Inr data \<Rightarrow>
     (case copyObject (sp_thickProvision sp) (the (w_file w fpath)) data remoteSize of
        (downloadedBytes, err, full, f) \<Rightarrow>
       (let w = w_set w fpath (Some f) in
        if err \<noteq> None then (None, map_option (Wrap ''Could not download object'') err, w)
        else if full then (None, Some (Msg ''Object contained more than the expected bytes of data''), w)
        else if downloadedBytes \<noteq> remoteSize then (None, Some (Msg ''Store download was wrong size''), w)
        else (Some fpath, None, w))))))))"

definition downloadFile :: "('c, 'i, 's) storeParams \<Rightarrow> 'i \<Rightarrow> ('c, 's) world \<Rightarrow>
    (string option \<times> goerr option \<times> ('c, 's) world) go" where
  "downloadFile sp item w =
     (case claimCapacity sp w of
        (Some e, w) \<Rightarrow> Ret (None, Some (Wrap ''Not enough capacity to download file'' e), w)
      | (None, w) \<Rightarrow>
        (case downloadBody sp item w of
           (h, None, w) \<Rightarrow> Ret (h, None, w)
         | (_, Some e, w) \<Rightarrow> go_bind (releaseCapacity sp w) (\<lambda>w. Ret (None, Some e, w))))"

text \<open>\<open>removeFile\<close>; the name of the nil file is a nil dereference.\<close>

definition removeFile :: "('c, 'i, 's) storeParams \<Rightarrow> string option \<Rightarrow> ('c, 's) world \<Rightarrow>
    (goerr option \<times> ('c, 's) world) go" where
  "removeFile sp file w =
     (case file of
        None \<Rightarrow> Panic
      | Some fpath \<Rightarrow>
        (case h_Close w file of
           (Some e, w) \<Rightarrow> Ret (Some (Wrap ''Could not close local cache file before deleting it'' e), w)
         | (None, w) \<Rightarrow>
        (case os_Remove w fpath of
           (Some e, w) \<Rightarrow> Ret (Some (Wrap ''Could not remove local cache file'' e), w)
         | (None, w) \<Rightarrow>
        (if sp_persistCache sp
         then (case os_Remove w (eTagFileName fpath) of
                 (Some e, w) \<Rightarrow> if errIs e ErrNotExist then Ret (None, w)
                   else Ret (Some (Wrap ''Could not remove local file'' e), w)
               | (None, w) \<Rightarrow> Ret (None, w))
         else Ret (None, w)))))"

definition persistEtag :: "('c, 'i, 's) storeParams \<Rightarrow> string \<Rightarrow> 'i \<Rightarrow> ('c, 's) world \<Rightarrow> goerr option \<times> ('c, 's) world" where
  "persistEtag sp assocFilename item w =
     (case it_ETag (sp_container sp) (w_cont w) item of
        Inl e \<Rightarrow> (Some (Wrap ''Could not get eTag from remote object'' e), w)
      | Inr eTag \<Rightarrow>
        (if eTag = '''' then (None, w)
         else (case os_WriteFile w (eTagFileName assocFilename) (map (\<lambda>c. of_nat (of_char c)) eTag) of
                 (err, w) \<Rightarrow> (map_option (Wrap ''Could not write eTag metadata file for cache persistence'') err, w))))"

text \<open>
  \<open>syncFile\<close>: \<open>optBuf\<close> is the capacity of the optional buffer, \<open>early\<close> says whether an unlock function
  was passed. The buffered way insists on exactly \<open>segmentBytes\<close> bytes, the other one hands the
  file to the container as it is.
\<close>

definition syncFile :: "('c, 'i, 's) storeParams \<Rightarrow> string option \<Rightarrow> string \<Rightarrow> nat option \<Rightarrow> bool \<Rightarrow> ('c, 's) world \<Rightarrow>
    'i option \<times> goerr option \<times> ('c, 's) world" where
  "syncFile sp file segID optBuf early w =
     (case h_Sync w file of
        Some e \<Rightarrow> (None, Some (Wrap ''Failed to fsync local file'' e), w)
      | None \<Rightarrow>
     (let src = h_stream w file;
          buffered = (early \<and> (case optBuf of None \<Rightarrow> False | Some n \<Rightarrow> sp_segmentBytes sp \<le> int n)) in
      if buffered \<and> snd src \<noteq> None
      then (None, map_option (Wrap ''Could not buffer file for transmission to remote object store'') (snd src), w)
      else if buffered \<and> int (length (fst src)) \<noteq> sp_segmentBytes sp
      then (None, Some (Msg ''Fewer bytes than expected were read while buffering file''), w)
      else
     (case ct_Put (sp_container sp) (w_cont w) (itemName sp w segID) src (sp_segmentBytes sp) [] of
        (Inl e, c) \<Rightarrow> (None, Some (Wrap ''Could not upload to remote item'' e), w\<lparr>w_cont := c\<rparr>)
      | (Inr item, c) \<Rightarrow>
       (let w = w\<lparr>w_cont := c\<rparr> in
        if sp_persistCache sp
        then (case persistEtag sp (the file) item w of (err, w) \<Rightarrow> (Some item, err, w))
        else (Some item, None, w)))))"

end
