(* ===== verification/Segment.thy ===== *)
theory Segment
  imports Storeparams Zeros
begin

text \<open>
  The segments of the object store device, \<^verbatim>\<open>src/pkg/devices/objstore/segment.go\<close>: each is cached in
  at most one local file and stored in at most one remote item. The mutexes of a segment order its
  operations, which are atomic here; the sequence of operations on a segment is arbitrary.
\<close>

section \<open>Definitions\<close>

record 'i segment =
  sg_ID :: int
  sg_localFile :: "string option"
  sg_remoteItem :: "'i option"
  sg_atomicDirty :: bool
  sg_atomicBacked :: bool
  sg_lastRead :: i64
  sg_lastWrite :: i64

definition seg_Dirty :: "'i segment \<Rightarrow> bool" where
  "seg_Dirty seg = sg_atomicDirty seg"

definition seg_Backed :: "'i segment \<Rightarrow> bool" where
  "seg_Backed seg = sg_atomicBacked seg"

text \<open>Times: 0 is the zero time, before every other; counters below 1 mean the zero time.\<close>

definition loadTime :: "i64 \<Rightarrow> int" where
  "loadTime nsec = (if nsec < 1 then 0 else nsec)"

definition seg_LastRead :: "'i segment \<Rightarrow> int" where
  "seg_LastRead seg = loadTime (sg_lastRead seg)"

definition seg_LastWrite :: "'i segment \<Rightarrow> int" where
  "seg_LastWrite seg = loadTime (sg_lastWrite seg)"

definition seg_LastOp :: "'i segment \<Rightarrow> int" where
  "seg_LastOp seg =
     (if seg_LastRead seg < seg_LastWrite seg then seg_LastRead seg else seg_LastWrite seg)"

text \<open>\<open>loadFile\<close>: the handle of the local file, which is created or downloaded when needed.\<close>

definition loadFile :: "('c, 'i, 's) storeParams \<Rightarrow> bool \<Rightarrow> 'i segment \<Rightarrow> ('c, 's) world \<Rightarrow>
    (string option \<times> goerr option \<times> 'i segment \<times> ('c, 's) world) go" where
  "loadFile sp createWrite seg w =
     (if sg_localFile seg \<noteq> None then Ret (sg_localFile seg, None, seg, w)
      else
        (case sg_remoteItem seg of
           None \<Rightarrow>
             (if createWrite
              then (case createFile sp (Itoa (sg_ID seg)) w of
                      (h, None, w) \<Rightarrow> Ret (h, None, seg\<lparr>sg_localFile := h, sg_atomicBacked := True\<rparr>, w)
                    | (h, Some e, w) \<Rightarrow> Ret (None, Some e, seg\<lparr>sg_localFile := h\<rparr>, w))
              else Ret (None, None, seg, w))
         | Some item \<Rightarrow>
             go_bind (downloadFile sp item w) (\<lambda>(h, err, w).
               case err of
                 None \<Rightarrow> Ret (h, None, seg\<lparr>sg_localFile := h, sg_atomicBacked := True\<rparr>, w)
               | Some e \<Rightarrow> Ret (None, Some e, seg\<lparr>sg_localFile := h\<rparr>, w))))"

definition seg_ReadAt :: "('c, 'i, 's) storeParams \<Rightarrow> 'i segment \<Rightarrow> bytes \<Rightarrow> i64 \<Rightarrow> ('c, 's) world \<Rightarrow>
    (int \<times> goerr option \<times> bytes \<times> 'i segment \<times> ('c, 's) world) go" where
  "seg_ReadAt sp seg buf pos w =
     (case w_now w of (now, w) \<Rightarrow>
      go_bind (loadFile sp False (seg\<lparr>sg_lastRead := now\<rparr>) w) (\<lambda>(data, err, seg, w).
      case err of
        Some e \<Rightarrow> Ret (0, Some (Wrap ''Could not load segment data for reading'' e), buf, seg, w)
      | None \<Rightarrow>
        (case data of
           None \<Rightarrow>
             (let past = wrap64 (pos + int (length buf)) > sp_segmentBytes sp;
                  bufLen = (if past then sp_segmentBytes sp - pos else int (length buf))
              in go_bind (go_slice buf 0 bufLen) (\<lambda>s.
                 case ZeroFill s of
                   None \<Rightarrow> Panic
                 | Some z \<Rightarrow> Ret (bufLen, if past then Some EOF else None, blit buf 0 z, seg, w)))
         | Some _ \<Rightarrow>
             (case h_ReadAt w data buf pos of (n, err, buf) \<Rightarrow> Ret (n, err, buf, seg, w)))))"

definition seg_WriteAt :: "('c, 'i, 's) storeParams \<Rightarrow> 'i segment \<Rightarrow> bytes \<Rightarrow> i64 \<Rightarrow> ('c, 's) world \<Rightarrow>
    (int \<times> goerr option \<times> 'i segment \<times> ('c, 's) world) go" where
  "seg_WriteAt sp seg buf pos w =
     (case w_now w of (now, w) \<Rightarrow>
      (let seg = seg\<lparr>sg_lastWrite := now\<rparr> in
       if IsZeros buf \<and> sg_localFile seg = None then Ret (int (length buf), None, seg, w)
       else go_bind (loadFile sp True seg w) (\<lambda>(data, err, seg, w).
         case err of
           Some e \<Rightarrow> Ret (0, Some (Wrap ''Could not load segment data for writing'' e), seg, w)
         | None \<Rightarrow>
           (case h_WriteAt w data buf pos of
              (count, err, w) \<Rightarrow>
                Ret (count, err, if 0 < count then seg\<lparr>sg_atomicDirty := True\<rparr> else seg, w)))))"

definition seg_flush :: "('c, 'i, 's) storeParams \<Rightarrow> 'i segment \<Rightarrow> nat option \<Rightarrow> bool \<Rightarrow> ('c, 's) world \<Rightarrow>
    goerr option \<times> 'i segment \<times> ('c, 's) world" where
  "seg_flush sp seg optBuf early w =
     (if sg_localFile seg = None
      then (Some (Msg ''Segment found to be dirty during flush request but is missing a backing data file''), seg, w)
      else (case syncFile sp (sg_localFile seg) (Itoa (sg_ID seg)) optBuf early w of
              (item, err, w) \<Rightarrow> (err, seg\<lparr>sg_atomicDirty := False, sg_remoteItem := item\<rparr>, w)))"

definition seg_Flush :: "('c, 'i, 's) storeParams \<Rightarrow> 'i segment \<Rightarrow> nat option \<Rightarrow> ('c, 's) world \<Rightarrow>
    goerr option \<times> 'i segment \<times> ('c, 's) world" where
  "seg_Flush sp seg optBuf w =
     (if \<not> seg_Dirty seg then (None, seg, w) else seg_flush sp seg optBuf True w)"

text \<open>\<open>DeleteFile\<close>; its messages take the name of the local file, which panics on the nil file.\<close>

definition DeleteFile :: "('c, 'i, 's) storeParams \<Rightarrow> 'i segment \<Rightarrow> ('c, 's) world \<Rightarrow>
    (goerr option \<times> 'i segment \<times> ('c, 's) world) go" where
  "DeleteFile sp seg w =
     (if \<not> seg_Backed seg then Ret (None, seg, w)
      else
        (case (if seg_Dirty seg then seg_flush sp seg None False w else (None, seg, w)) of
           (Some e, seg, w) \<Rightarrow>
             (if sg_localFile seg = None then Panic
              else Ret (Some (Wrap ''Flush during DeleteFile failed'' e), seg, w))
         | (None, seg, w) \<Rightarrow>
             go_bind (removeFile sp (sg_localFile seg) w) (\<lambda>(err, w).
             case err of
               Some e \<Rightarrow> Ret (Some (Wrap ''Could not remove local file'' e), seg, w)
             | None \<Rightarrow>
               go_bind (releaseCapacity sp w) (\<lambda>w.
                 Ret (None, seg\<lparr>sg_atomicBacked := False, sg_localFile := None\<rparr>, w)))))"

text \<open>
  \<open>loadSegments\<close>: one segment per whole \<open>segmentBytes\<close> of the device, each with the remote item whose
  name carries its number. The range check lets the number \<open>count\<close> through, which then panics.
\<close>

fun assignItems :: "('c, 'i) stow_ops \<Rightarrow> string \<Rightarrow> int \<Rightarrow> 'i list \<Rightarrow> 'i segment list \<Rightarrow> (goerr + 'i segment list) go" where
  "assignItems st prefix count [] segments = Ret (Inr segments)"
| "assignItems st prefix count (item # items) segments =
     (let segIDStr = TrimPrefix (it_Name st item) prefix; segIDStr = TrimSuffix segIDStr (Ext segIDStr) in
      case Atoi segIDStr of
        Inl e \<Rightarrow> Ret (Inl (Wrap ''Could not parse name into block ID'' e))
      | Inr segID \<Rightarrow>
        (if segID < 0 \<or> count < segID then Ret (Inl (Msg ''Parsed ID was not in expected range''))
         else if nat segID < length segments
         then assignItems st prefix count items
                (segments[nat segID := (segments ! nat segID)\<lparr>sg_remoteItem := Some item\<rparr>])
         else Panic))"

definition newSegment :: "nat \<Rightarrow> 'i segment" where
  "newSegment i = \<lparr>sg_ID = int i, sg_localFile = None, sg_remoteItem = None, sg_atomicDirty = False,
     sg_atomicBacked = False, sg_lastRead = 0, sg_lastWrite = 0\<rparr>"

definition loadSegments :: "('c, 'i, 's) storeParams \<Rightarrow> i64 \<Rightarrow> ('c, 's) world \<Rightarrow> (goerr + 'i segment list) go" where
  "loadSegments sp totalBytes w =
     (if sp_segmentBytes sp = 0 then Panic
      else
        (let st = sp_container sp; count = totalBytes sdiv sp_segmentBytes sp;
             prefix = osbdPrefix @ devicePrefix @ ct_Name st (w_cont w) @ blockPrefix in
         if count < 0 then Panic
         else
           (case ct_Items st (w_cont w) prefix (nat (count + 1)) of
              Inl e \<Rightarrow> Ret (Inl (Wrap ''Could not enumerate items'' e))
            | Inr (items, cursorEnd) \<Rightarrow>
              (if count < int (length items) then Ret (Inl (Msg ''Enumeration revealed more than the expected items''))
               else if \<not> cursorEnd then Ret (Inl (Msg ''After enumerating the expected items more items exist''))
               else assignItems st prefix count items (map newSegment [0..<nat count])))))"

end
