(* ===== verification/Segment_Laws.thy ===== *)
theory Segment_Laws
  imports Segment
begin

text \<open>
  A segment of the object store device stands for \<open>segmentBytes\<close> bytes: those of its local file if it
  has one, else those of its remote item, else zeros. This theory shows that every operation of a
  segment keeps that reading, in a world whose container, semaphore and files behave.
\<close>

section \<open>Specification of the world\<close>

text \<open>The parameters of the specification: the invariant, the objects and the proper items of the container, the free
  units and the size of the semaphore, and the name of the container.\<close>

record ('c, 'i, 's) ospec =
  x_cinv :: "'c \<Rightarrow> bool"
  x_cmap :: "'c \<Rightarrow> string \<Rightarrow> bytes option"
  x_proper :: "'i \<Rightarrow> bool"
  x_free :: "'s \<Rightarrow> nat"
  x_cap :: nat
  x_name :: string

definition seg_prefix :: "('c, 'i, 's) ospec \<Rightarrow> string" where
  "seg_prefix X = osbdPrefix @ devicePrefix @ x_name X @ blockPrefix"

definition seg_name :: "('c, 'i, 's) ospec \<Rightarrow> nat \<Rightarrow> string" where
  "seg_name X i = osbdPrefix @ devicePrefix @ x_name X @ blockPrefix @ Itoa (int i)"

definition seg_path :: "('c, 'i, 's) ospec \<Rightarrow> ('c, 'i, 's) storeParams \<Rightarrow> nat \<Rightarrow> string" where
  "seg_path X sp i = path_Join (sp_cacheDir sp) (seg_name X i)"

definition sp_ok :: "('c, 'i, 's) storeParams \<Rightarrow> bool" where
  "sp_ok sp \<longleftrightarrow> 0 < sp_segmentBytes sp \<and> sp_segmentBytes sp < 2 ^ 63 \<and> \<not> sp_persistCache sp"

abbreviation sp_len :: "('c, 'i, 's) storeParams \<Rightarrow> nat" where
  "sp_len sp \<equiv> nat (sp_segmentBytes sp)"

definition world_ok :: "('c, 'i, 's) ospec \<Rightarrow> ('c, 'i, 's) storeParams \<Rightarrow> ('c, 's) world \<Rightarrow> bool" where
  "world_ok X sp w \<longleftrightarrow>
     stow_ok (sp_container sp) (x_cinv X) (x_cmap X) (x_proper X) \<and> x_cinv X (w_cont w) \<and>
     ct_Name (sp_container sp) (w_cont w) = x_name X \<and>
     \<not> fs_createErr (w_fs w) \<and> \<not> fs_removeErr (w_fs w) \<and> healthy (fs_new (w_fs w))"

text \<open>With \<open>n\<close> local segments the semaphore has the rest of its units free; without a quota the
  capacity is 0.\<close>

definition quota_ok :: "('c, 'i, 's) ospec \<Rightarrow> ('c, 'i, 's) storeParams \<Rightarrow> nat \<Rightarrow> ('c, 's) world \<Rightarrow> bool" where
  "quota_ok X sp n w \<longleftrightarrow>
     (case sp_quotaSema sp of
        None \<Rightarrow> x_cap X = 0
      | Some sm \<Rightarrow> sema_ok sm (x_free X) (x_cap X) \<and> 0 < x_cap X \<and> x_free X (w_sema w) + n = x_cap X)"

definition has_room :: "('c, 'i, 's) ospec \<Rightarrow> ('c, 'i, 's) storeParams \<Rightarrow> nat \<Rightarrow> bool" where
  "has_room X sp n \<longleftrightarrow> sp_quotaSema sp = None \<or> n < x_cap X"

section \<open>Specification of a segment\<close>

definition remote_content :: "('c, 'i, 's) ospec \<Rightarrow> ('c, 'i, 's) storeParams \<Rightarrow> 'i segment \<Rightarrow> ('c, 's) world \<Rightarrow> bytes" where
  "remote_content X sp seg w =
     (case sg_remoteItem seg of
        None \<Rightarrow> zeros (sp_len sp)
      | Some it \<Rightarrow> the (x_cmap X (w_cont w) (it_Name (sp_container sp) it)))"

definition seg_content :: "('c, 'i, 's) ospec \<Rightarrow> ('c, 'i, 's) storeParams \<Rightarrow> 'i segment \<Rightarrow> ('c, 's) world \<Rightarrow> bytes" where
  "seg_content X sp seg w =
     (case sg_localFile seg of
        None \<Rightarrow> remote_content X sp seg w
      | Some p \<Rightarrow> fdata (the (w_file w p)))"

definition local_ok :: "('c, 'i, 's) ospec \<Rightarrow> ('c, 'i, 's) storeParams \<Rightarrow> nat \<Rightarrow> 'i segment \<Rightarrow> ('c, 's) world \<Rightarrow> bool" where
  "local_ok X sp i seg w \<longleftrightarrow>
     (case sg_localFile seg of
        None \<Rightarrow> \<not> seg_Backed seg \<and> \<not> seg_Dirty seg \<and> w_file w (seg_path X sp i) = None
      | Some p \<Rightarrow> p = seg_path X sp i \<and> seg_Backed seg \<and>
          (\<exists>f. w_file w p = Some f \<and> healthy f \<and> length (fdata f) = sp_len sp)) \<and>
     w_file w (eTagFileName (seg_path X sp i)) = None"

definition remote_ok :: "('c, 'i, 's) ospec \<Rightarrow> ('c, 'i, 's) storeParams \<Rightarrow> nat \<Rightarrow> 'i segment \<Rightarrow> ('c, 's) world \<Rightarrow> bool" where
  "remote_ok X sp i seg w \<longleftrightarrow>
     (case sg_remoteItem seg of
        None \<Rightarrow> x_cmap X (w_cont w) (seg_name X i) = None
      | Some it \<Rightarrow> it_Name (sp_container sp) it = seg_name X i \<and>
          (\<exists>bs. x_cmap X (w_cont w) (seg_name X i) = Some bs \<and> length bs = sp_len sp))"

definition seg_ok :: "('c, 'i, 's) ospec \<Rightarrow> ('c, 'i, 's) storeParams \<Rightarrow> nat \<Rightarrow> 'i segment \<Rightarrow> ('c, 's) world \<Rightarrow> bool" where
  "seg_ok X sp i seg w \<longleftrightarrow> sg_ID seg = int i \<and> local_ok X sp i seg w \<and> remote_ok X sp i seg w \<and>
     (\<not> seg_Dirty seg \<longrightarrow> seg_content X sp seg w = remote_content X sp seg w)"

text \<open>A step that concerns segment \<open>i\<close> leaves the files and objects of the others alone.\<close>

definition only_seg :: "('c, 'i, 's) ospec \<Rightarrow> ('c, 'i, 's) storeParams \<Rightarrow> nat \<Rightarrow> ('c, 's) world \<Rightarrow> ('c, 's) world \<Rightarrow> bool" where
  "only_seg X sp i w w' \<longleftrightarrow>
     (\<forall>p. p \<noteq> seg_path X sp i \<longrightarrow> w_file w' p = w_file w p) \<and>
     (\<forall>nm. nm \<noteq> seg_name X i \<longrightarrow> x_cmap X (w_cont w') nm = x_cmap X (w_cont w) nm)"

lemma only_seg_refl [simp]: "only_seg X sp i w w"
  by (simp add: only_seg_def)

lemma only_seg_trans: "only_seg X sp i w w' \<Longrightarrow> only_seg X sp i w' w'' \<Longrightarrow> only_seg X sp i w w''"
  by (simp add: only_seg_def)

lemma seg_name_inj: "seg_name X i = seg_name X j \<longleftrightarrow> i = j"
  by (simp add: seg_name_def Itoa_def FormatInt_def digits_inj)

lemma seg_path_inj: "seg_path X sp i = seg_path X sp j \<longleftrightarrow> i = j"
  using seg_name_inj [of X i j] by (auto simp: seg_path_def path_Join_def)

lemma seg_name_last: "last (seg_name X i) \<noteq> CHR ''g''"
proof -
  have "last (digits 10 i) \<in> set (digits 10 i)" by simp
  then obtain d where "d < 10" "last (digits 10 i) = digit_char d"
    using set_digits [of 10 "last (digits 10 i)" i] by auto
  then have "char_digit (last (digits 10 i)) = Some d" using char_digit_char [of d] by simp
  then have "last (digits 10 i) \<noteq> CHR ''g''" using \<open>d < 10\<close> by (auto simp: char_digit_def)
  then show ?thesis by (simp add: seg_name_def Itoa_def FormatInt_def)
qed

lemma seg_path_not_etag: "seg_path X sp i \<noteq> eTagFileName p"
proof
  assume "seg_path X sp i = eTagFileName p"
  then have "last (seg_path X sp i) = last (eTagFileName p)" by simp
  moreover have "last (seg_path X sp i) = last (seg_name X i)"
    by (simp add: seg_path_def path_Join_def seg_name_def osbdPrefix_def)
  ultimately show False using seg_name_last [of X i] by (simp add: eTagFileName_def)
qed

lemma seg_ok_frame:
  assumes "seg_ok X sp j seg w" "only_seg X sp i w w'" "i \<noteq> j"
  shows "seg_ok X sp j seg w'" "seg_content X sp seg w' = seg_content X sp seg w"
proof -
  have f: "w_file w' (seg_path X sp j) = w_file w (seg_path X sp j)"
    "w_file w' (eTagFileName (seg_path X sp j)) = w_file w (eTagFileName (seg_path X sp j))"
    "x_cmap X (w_cont w') (seg_name X j) = x_cmap X (w_cont w) (seg_name X j)"
    using assms(2,3) seg_path_inj [of X sp i j] seg_name_inj [of X i j]
      seg_path_not_etag [of X sp i "seg_path X sp j", symmetric]
    by (auto simp: only_seg_def)
  have "remote_content X sp seg w' = remote_content X sp seg w"
    using assms(1) f(3) by (auto simp: seg_ok_def remote_ok_def remote_content_def split: option.splits)
  moreover from this show "seg_content X sp seg w' = seg_content X sp seg w"
    using assms(1) f(1) by (auto simp: seg_ok_def local_ok_def seg_content_def split: option.splits)
  ultimately show "seg_ok X sp j seg w'"
    using assms(1) f by (auto simp: seg_ok_def local_ok_def remote_ok_def split: option.splits)
qed

section \<open>Capacity\<close>

lemma claim_ok:
  assumes "quota_ok X sp n w" "has_room X sp n"
  shows "\<exists>s. claimCapacity sp w = (None, w\<lparr>w_sema := s\<rparr>) \<and> quota_ok X sp (Suc n) (w\<lparr>w_sema := s\<rparr>)"
proof (cases "sp_quotaSema sp")
  case None
  then show ?thesis using assms(1) by (intro exI [of _ "w_sema w"]) (simp add: claimCapacity_def quota_ok_def)
next
  case (Some sm)
  then have "0 < x_free X (w_sema w)" "sema_ok sm (x_free X) (x_cap X)"
    using assms by (auto simp: quota_ok_def has_room_def)
  then obtain s where "sm_P sm (w_sema w) = (True, s)" "Suc (x_free X s) = x_free X (w_sema w)"
    unfolding sema_ok_def by blast
  then show ?thesis using Some assms(1) by (auto simp: claimCapacity_def quota_ok_def)
qed

lemma claim_full:
  assumes "quota_ok X sp n w" "\<not> has_room X sp n"
  shows "\<exists>s. claimCapacity sp w = (Some ErrCapacityClaim, w\<lparr>w_sema := s\<rparr>) \<and> quota_ok X sp n (w\<lparr>w_sema := s\<rparr>)"
proof -
  obtain sm where sm: "sp_quotaSema sp = Some sm" "x_cap X \<le> n" using assms(2) by (auto simp: has_room_def)
  then have "x_free X (w_sema w) = 0" "sema_ok sm (x_free X) (x_cap X)"
    using assms(1) by (auto simp: quota_ok_def)
  then obtain s where "sm_P sm (w_sema w) = (False, s)" "x_free X s = 0" unfolding sema_ok_def by blast
  then show ?thesis using sm assms(1) by (auto simp: claimCapacity_def quota_ok_def)
qed

lemma release_ok:
  assumes "quota_ok X sp (Suc n) w"
  shows "\<exists>s. releaseCapacity sp w = Ret (w\<lparr>w_sema := s\<rparr>) \<and> quota_ok X sp n (w\<lparr>w_sema := s\<rparr>)"
proof (cases "sp_quotaSema sp")
  case None
  then show ?thesis using assms by (intro exI [of _ "w_sema w"]) (simp add: releaseCapacity_def quota_ok_def)
next
  case (Some sm)
  then have "x_free X (w_sema w) < x_cap X" "sema_ok sm (x_free X) (x_cap X)"
    using assms by (auto simp: quota_ok_def)
  then obtain s where "sm_V sm (w_sema w) = (True, s)" "x_free X s = Suc (x_free X (w_sema w))"
    unfolding sema_ok_def by blast
  then show ?thesis using Some assms by (auto simp: releaseCapacity_def quota_ok_def)
qed

lemma world_ok_simps [simp]:
  "world_ok X sp (w\<lparr>w_sema := s\<rparr>) = world_ok X sp w" "world_ok X sp (w\<lparr>w_tick := t\<rparr>) = world_ok X sp w"
  "world_ok X sp (w_set w p f) = world_ok X sp w"
  "quota_ok X sp n (w\<lparr>w_tick := t\<rparr>) = quota_ok X sp n w" "quota_ok X sp n (w_set w p f) = quota_ok X sp n w"
  "quota_ok X sp n (w\<lparr>w_cont := c\<rparr>) = quota_ok X sp n w"
  by (simp_all add: world_ok_def quota_ok_def split: option.splits)

section \<open>Files\<close>

lemma itemName_seg: "world_ok X sp w \<Longrightarrow> itemName sp w (Itoa (int i)) = seg_name X i"
  by (simp add: itemName_def seg_name_def world_ok_def)

text \<open>What a step for segment \<open>i\<close> leaves, with \<open>n\<close> units of the quota taken.\<close>

definition stepped :: "('c, 'i, 's) ospec \<Rightarrow> ('c, 'i, 's) storeParams \<Rightarrow> nat \<Rightarrow> nat \<Rightarrow> ('c, 's) world \<Rightarrow> ('c, 's) world \<Rightarrow> bool" where
  "stepped X sp i n w w' \<longleftrightarrow> world_ok X sp w' \<and> quota_ok X sp n w' \<and> only_seg X sp i w w'"

lemma stepped_refl: "world_ok X sp w \<Longrightarrow> quota_ok X sp n w \<Longrightarrow> stepped X sp i n w w"
  by (simp add: stepped_def)

lemma stepped_trans: "stepped X sp i m w w' \<Longrightarrow> stepped X sp i n w' w'' \<Longrightarrow> stepped X sp i n w w''"
  by (auto simp: stepped_def only_seg_def)

lemma stepped_sema:
  "world_ok X sp w \<Longrightarrow> quota_ok X sp n (w\<lparr>w_sema := s\<rparr>) \<Longrightarrow> stepped X sp i n w (w\<lparr>w_sema := s\<rparr>)"
  by (simp add: stepped_def only_seg_def)

lemma stepped_file:
  "world_ok X sp w \<Longrightarrow> quota_ok X sp n w \<Longrightarrow> stepped X sp i n w (w_set w (seg_path X sp i) f)"
  by (simp add: stepped_def only_seg_def)

lemma stepped_tick:
  "world_ok X sp w \<Longrightarrow> quota_ok X sp n w \<Longrightarrow> stepped X sp i n w (w\<lparr>w_tick := t\<rparr>)"
  by (simp add: stepped_def only_seg_def)

lemma w_set_set [simp]: "w_set (w_set w p x) p y = w_set w p y"
  by (simp add: w_set_def)

text \<open>A file created in a behaving world is empty and behaves.\<close>

definition created :: "('c, 's) world \<Rightarrow> osfile" where
  "created w = (fs_new (w_fs w))\<lparr>fdata := [], fpos := 0, fclosed := False\<rparr>"

lemma os_Create_ok: "world_ok X sp w \<Longrightarrow> os_Create w p = (None, w_set w p (Some (created w)))"
  by (simp add: os_Create_def world_ok_def created_def)

lemma created_ok: "world_ok X sp w \<Longrightarrow> healthy (created w)" "fdata (created w) = []" "fpos (created w) = 0"
  by (simp_all add: world_ok_def healthy_def created_def)

lemma created_sparse:
  assumes "world_ok X sp w" "sp_ok sp"
  shows "file_WriteAt (created w) [0] (sp_segmentBytes sp - 1) = (1, None, (created w)\<lparr>fdata := zeros (sp_len sp)\<rparr>)"
proof -
  have len: "nat (sp_segmentBytes sp - 1) = sp_len sp - 1" "0 < sp_len sp" using assms(2) by (auto simp: sp_ok_def)
  then have "store [] (sp_len sp - 1) [0] = zeros (sp_len sp)"
    by (simp add: store_hole replicate_append_same flip: replicate_Suc)
  then show ?thesis
    using file_WriteAt_healthy [OF created_ok(1) [OF assms(1)], of "sp_segmentBytes sp - 1" "[0]"] assms(2) len
    by (simp add: sp_ok_def created_ok)
qed

text \<open>Creating, downloading, uploading and removing the file of segment \<open>i\<close>.\<close>

lemma createFile_ok:
  assumes "world_ok X sp w" "sp_ok sp" "quota_ok X sp n w" "has_room X sp n"
  shows "\<exists>w' f. createFile sp (Itoa (int i)) w = (Some (seg_path X sp i), None, w') \<and>
    w_file w' (seg_path X sp i) = Some f \<and> healthy f \<and> fdata f = zeros (sp_len sp) \<and>
    w_cont w' = w_cont w \<and> stepped X sp i (Suc n) w w'"
proof -
  obtain s where s: "claimCapacity sp w = (None, w\<lparr>w_sema := s\<rparr>)" "quota_ok X sp (Suc n) (w\<lparr>w_sema := s\<rparr>)"
    using claim_ok [OF assms(3,4)] by blast
  let ?p = "seg_path X sp i" and ?w = "w\<lparr>w_sema := s\<rparr>"
  have w: "world_ok X sp ?w" using assms(1) by simp
  have p: "path_Join (sp_cacheDir sp) (itemName sp ?w (Itoa (int i))) = ?p"
    using itemName_seg [OF w] by (simp add: seg_path_def)
  have "file_Write (created ?w) (zeros (sp_len sp)) =
      (int (sp_len sp), None, (created ?w)\<lparr>fdata := zeros (sp_len sp), fpos := sp_len sp\<rparr>)"
    using file_Write_healthy [OF created_ok(1) [OF w], of "zeros (sp_len sp)"] store_append [of "[]" "zeros (sp_len sp)"]
    by (simp add: created_ok)
  then obtain f where "createFile sp (Itoa (int i)) w = (Some ?p, None, w_set ?w ?p (Some f))"
    "healthy f" "fdata f = zeros (sp_len sp)"
    using s(1) p created_sparse [OF w assms(2)] created_ok(1) [OF w]
    by (cases "sp_thickProvision sp")
      (auto simp: createFile_def Let_def os_Create_ok [OF w] h_WriteAt_def h_file_def)
  moreover have "stepped X sp i (Suc n) w (w_set ?w ?p (Some f))" for f
    using stepped_sema [OF assms(1) s(2)] stepped_file [OF w s(2)] by (rule stepped_trans)
  ultimately show ?thesis by (intro exI [of _ "w_set ?w ?p (Some f)"] exI [of _ f]) simp
qed

lemma file_Write_created:
  "world_ok X sp w \<Longrightarrow> file_Write (created w) bs =
     (int (length bs), None, (created w)\<lparr>fdata := bs, fpos := length bs\<rparr>)"
  using file_Write_healthy [OF created_ok(1), of X sp w bs] store_append [of "[]" bs] by (simp add: created_ok)

lemma stow_item:
  assumes "world_ok X sp w" "x_proper X it" "x_cmap X (w_cont w) (it_Name (sp_container sp) it) = Some bs"
  shows "it_Size (sp_container sp) (w_cont w) it = Inr (int (length bs))"
    "it_Open (sp_container sp) (w_cont w) it = Inr (bs, None)"
  using assms unfolding world_ok_def stow_ok_def by blast+

lemma downloadFile_ok:
  assumes "world_ok X sp w" "sp_ok sp" "quota_ok X sp n w" "has_room X sp n" "sp_thickProvision sp"
    and "x_proper X it" "it_Name (sp_container sp) it = seg_name X i" "x_cmap X (w_cont w) (seg_name X i) = Some bs"
    and "length bs = sp_len sp" "w_file w (seg_path X sp i) = None" "w_file w (eTagFileName (seg_path X sp i)) = None"
  shows "\<exists>w' f. downloadFile sp it w = Ret (Some (seg_path X sp i), None, w') \<and>
    w_file w' (seg_path X sp i) = Some f \<and> healthy f \<and> fdata f = bs \<and>
    w_cont w' = w_cont w \<and> stepped X sp i (Suc n) w w'"
proof -
  obtain s where s: "claimCapacity sp w = (None, w\<lparr>w_sema := s\<rparr>)" "quota_ok X sp (Suc n) (w\<lparr>w_sema := s\<rparr>)"
    using claim_ok [OF assms(3,4)] by blast
  let ?p = "seg_path X sp i" and ?w = "w\<lparr>w_sema := s\<rparr>"
  have w: "world_ok X sp ?w" using assms(1) by simp
  have it: "it_Size (sp_container sp) (w_cont ?w) it = Inr (sp_segmentBytes sp)"
    "it_Open (sp_container sp) (w_cont ?w) it = Inr (bs, None)"
    using stow_item [OF assms(1,6), of bs] assms(2,7,8,9) by (auto simp: sp_ok_def)
  have "cachedFile sp it ?p (sp_segmentBytes sp) ?w = (None, None, ?w)"
    using assms(10,11) by (simp add: cachedFile_def Let_def)
  moreover have "sp_segmentBytes sp \<noteq> 0" using assms(2) by (simp add: sp_ok_def)
  moreover have "copyObject True (created ?w) (bs, None) (sp_segmentBytes sp) =
      (sp_segmentBytes sp, None, False, (created ?w)\<lparr>fdata := bs, fpos := length bs\<rparr>)"
    using assms(2,9) file_Write_created [OF w, of bs] by (auto simp: copyObject_def Let_def sp_ok_def)
  moreover have "path_Join (sp_cacheDir sp) (it_Name (sp_container sp) it) = ?p"
    by (simp add: assms(7) seg_path_def)
  ultimately have "downloadFile sp it w =
      Ret (Some ?p, None, w_set ?w ?p (Some ((created ?w)\<lparr>fdata := bs, fpos := length bs\<rparr>)))"
    using s(1) it assms(5) by (simp add: downloadFile_def downloadBody_def Let_def os_Create_ok [OF w])
  moreover have "stepped X sp i (Suc n) w (w_set ?w ?p (Some f))" for f
    using stepped_sema [OF assms(1) s(2)] stepped_file [OF w s(2)] by (rule stepped_trans)
  ultimately show ?thesis
    using created_ok(1) [OF w] by (auto intro!: exI)
qed

lemma load_full:
  assumes "quota_ok X sp n w" "\<not> has_room X sp n" "world_ok X sp w"
  shows "\<exists>e w'. createFile sp segID w = (None, Some e, w') \<and> errIs e ErrCapacityClaim \<and>
      w_file w' = w_file w \<and> w_cont w' = w_cont w \<and> stepped X sp i n w w'"
    "\<exists>e w'. downloadFile sp it w = Ret (None, Some e, w') \<and> errIs e ErrCapacityClaim \<and>
      w_file w' = w_file w \<and> w_cont w' = w_cont w \<and> stepped X sp i n w w'"
proof -
  obtain s where s: "claimCapacity sp w = (Some ErrCapacityClaim, w\<lparr>w_sema := s\<rparr>)"
    "quota_ok X sp n (w\<lparr>w_sema := s\<rparr>)"
    using claim_full [OF assms(1,2)] by blast
  then show "\<exists>e w'. createFile sp segID w = (None, Some e, w') \<and> errIs e ErrCapacityClaim \<and>
      w_file w' = w_file w \<and> w_cont w' = w_cont w \<and> stepped X sp i n w w'"
    "\<exists>e w'. downloadFile sp it w = Ret (None, Some e, w') \<and> errIs e ErrCapacityClaim \<and>
      w_file w' = w_file w \<and> w_cont w' = w_cont w \<and> stepped X sp i n w w'"
    using stepped_sema [OF assms(3) s(2)] by (simp_all add: createFile_def downloadFile_def)
qed

lemma syncFile_ok:
  assumes "world_ok X sp w" "sp_ok sp" "quota_ok X sp n w"
    and "w_file w p = Some f" "healthy f" "length (fdata f) = sp_len sp"
  shows "\<exists>it w'. syncFile sp (Some p) (Itoa (int i)) optBuf early w = (Some it, None, w') \<and>
    it_Name (sp_container sp) it = seg_name X i \<and> w_file w' = w_file w \<and>
    (put_proper (sp_container sp) (x_proper X) \<longrightarrow> x_proper X it) \<and>
    x_cmap X (w_cont w') (seg_name X i) = Some (fdata f) \<and> stepped X sp i n w w'"
proof -
  obtain it c where c: "ct_Put (sp_container sp) (w_cont w) (seg_name X i) (fdata f, None) (int (length (fdata f))) [] =
      (Inr it, c)" "x_cinv X c" "x_cmap X c = (x_cmap X (w_cont w))(seg_name X i \<mapsto> fdata f)"
    "it_Name (sp_container sp) it = seg_name X i" "ct_Name (sp_container sp) c = ct_Name (sp_container sp) (w_cont w)"
    using assms(1,2,6) stow_Put [of "sp_container sp" "x_cinv X" "x_cmap X" "x_proper X" "w_cont w" "fdata f" "seg_name X i"]
    by (auto simp: world_ok_def sp_ok_def)
  have "int (length (fdata f)) = sp_segmentBytes sp" using assms(2,6) by (simp add: sp_ok_def)
  then have "syncFile sp (Some p) (Itoa (int i)) optBuf early w = (Some it, None, w\<lparr>w_cont := c\<rparr>)"
    using assms(2,4,5) c(1) itemName_seg [OF assms(1), of i]
    by (simp add: syncFile_def h_Sync_def h_file_def h_stream_def healthy_def file_Sync_def Let_def sp_ok_def)
  moreover have "stepped X sp i n w (w\<lparr>w_cont := c\<rparr>)"
    using assms(1,3) c by (simp add: stepped_def world_ok_def only_seg_def)
  moreover have "put_proper (sp_container sp) (x_proper X) \<longrightarrow> x_proper X it" using c(1) unfolding put_proper_def by blast
  ultimately show ?thesis using c(3,4) by (intro exI [of _ it] exI [of _ "w\<lparr>w_cont := c\<rparr>"]) simp
qed

lemma removeFile_ok:
  assumes "world_ok X sp w" "sp_ok sp" "quota_ok X sp n w"
    and "w_file w (seg_path X sp i) = Some f" "healthy f"
  shows "\<exists>w'. removeFile sp (Some (seg_path X sp i)) w = Ret (None, w') \<and>
    w_file w' (seg_path X sp i) = None \<and> w_cont w' = w_cont w \<and> stepped X sp i n w w'"
proof -
  have "removeFile sp (Some (seg_path X sp i)) w = Ret (None, w_set w (seg_path X sp i) None)"
    using assms by (simp add: removeFile_def h_Close_def h_file_def file_Close_def healthy_def os_Remove_def
      world_ok_def sp_ok_def)
  then show ?thesis using stepped_file [OF assms(1,3)] by simp
qed

section \<open>Operations of a segment\<close>

text \<open>A segment has its share of the quota while it is local. Downloads need thick provision, since
  a sparse copy does not keep the length, and a proper item.\<close>

abbreviation units :: "'i segment \<Rightarrow> nat" where
  "units seg \<equiv> (if sg_localFile seg = None then 0 else 1)"

definition proper :: "('c, 'i, 's) ospec \<Rightarrow> 'i segment \<Rightarrow> bool" where
  "proper X seg \<longleftrightarrow> (\<forall>it. sg_remoteItem seg = Some it \<longrightarrow> x_proper X it)"

definition fresh :: "'i segment \<Rightarrow> bool" where
  "fresh seg \<longleftrightarrow> sg_remoteItem seg = None \<or> sg_localFile seg \<noteq> None"

definition loadable :: "('c, 'i, 's) ospec \<Rightarrow> ('c, 'i, 's) storeParams \<Rightarrow> 'i segment \<Rightarrow> bool" where
  "loadable X sp seg \<longleftrightarrow> fresh seg \<or> sp_thickProvision sp \<and> proper X seg"

text \<open>A segment in its world, with \<open>m\<close> units held by the others.\<close>

definition seg_env :: "('c, 'i, 's) ospec \<Rightarrow> ('c, 'i, 's) storeParams \<Rightarrow> nat \<Rightarrow> nat \<Rightarrow> 'i segment \<Rightarrow> ('c, 's) world \<Rightarrow> bool" where
  "seg_env X sp i m seg w \<longleftrightarrow> world_ok X sp w \<and> sp_ok sp \<and> seg_ok X sp i seg w \<and> quota_ok X sp (m + units seg) w"

text \<open>A step of segment \<open>i\<close> to a new state in which it reads \<open>bs\<close>. It stays local once it is, and
  does not become a remote-only segment.\<close>

definition seg_to :: "('c, 'i, 's) ospec \<Rightarrow> ('c, 'i, 's) storeParams \<Rightarrow> nat \<Rightarrow> nat \<Rightarrow> ('c, 's) world \<Rightarrow> 'i segment \<Rightarrow>
    ('c, 's) world \<Rightarrow> bytes \<Rightarrow> bool" where
  "seg_to X sp i m w seg' w' bs \<longleftrightarrow>
     seg_ok X sp i seg' w' \<and> stepped X sp i (m + units seg') w w' \<and> seg_content X sp seg' w' = bs"

lemma seg_ok_times [simp]:
  "seg_ok X sp i (seg\<lparr>sg_lastRead := t\<rparr>) w = seg_ok X sp i seg w"
  "seg_ok X sp i (seg\<lparr>sg_lastWrite := t\<rparr>) w = seg_ok X sp i seg w"
  "seg_ok X sp i seg (w\<lparr>w_tick := k\<rparr>) = seg_ok X sp i seg w"
  "seg_content X sp (seg\<lparr>sg_lastRead := t\<rparr>) w = seg_content X sp seg w"
  "seg_content X sp (seg\<lparr>sg_lastWrite := t\<rparr>) w = seg_content X sp seg w"
  "seg_content X sp seg (w\<lparr>w_tick := k\<rparr>) = seg_content X sp seg w"
  by (simp_all add: seg_ok_def local_ok_def remote_ok_def seg_content_def remote_content_def seg_Backed_def
    seg_Dirty_def cong: option.case_cong)

lemma loadable_times [simp]:
  "loadable X sp (seg\<lparr>sg_lastRead := t\<rparr>) = loadable X sp seg" "loadable X sp (seg\<lparr>sg_lastWrite := t\<rparr>) = loadable X sp seg"
  by (simp_all add: loadable_def fresh_def proper_def)

lemma seg_env_times:
  "seg_env X sp i m seg w \<Longrightarrow> seg_env X sp i m (seg\<lparr>sg_lastRead := t\<rparr>) (w\<lparr>w_tick := k\<rparr>)"
  "seg_env X sp i m seg w \<Longrightarrow> seg_env X sp i m (seg\<lparr>sg_lastWrite := t\<rparr>) (w\<lparr>w_tick := k\<rparr>)"
  by (simp_all add: seg_env_def)

lemma seg_ok_made:
  assumes "seg_ok X sp i seg w" "sg_localFile seg = None" "stepped X sp i n w w'" "w_cont w' = w_cont w"
    and "w_file w' (seg_path X sp i) = Some f" "healthy f" "fdata f = seg_content X sp seg w"
    and "length (seg_content X sp seg w) = sp_len sp"
  shows "seg_ok X sp i (seg\<lparr>sg_localFile := Some (seg_path X sp i), sg_atomicBacked := True\<rparr>) w'"
    "seg_content X sp (seg\<lparr>sg_localFile := Some (seg_path X sp i), sg_atomicBacked := True\<rparr>) w' = seg_content X sp seg w"
proof -
  let ?seg = "seg\<lparr>sg_localFile := Some (seg_path X sp i), sg_atomicBacked := True\<rparr>"
  have r: "remote_content X sp ?seg w' = remote_content X sp seg w"
    using assms(4) by (simp add: remote_content_def split: option.split)
  have "w_file w' (eTagFileName (seg_path X sp i)) = None"
    using assms(1,3) seg_path_not_etag [of X sp i "seg_path X sp i", symmetric]
    by (simp add: seg_ok_def local_ok_def stepped_def only_seg_def)
  then have "local_ok X sp i ?seg w'" using assms(5-8) by (simp add: local_ok_def seg_Backed_def)
  moreover have "remote_ok X sp i ?seg w'" using assms(1,4) by (simp add: seg_ok_def remote_ok_def split: option.splits)
  moreover have c: "seg_content X sp seg w = remote_content X sp seg w" using assms(2) by (simp add: seg_content_def)
  moreover show "seg_content X sp ?seg w' = seg_content X sp seg w" using assms(5,7) by (simp add: seg_content_def)
  ultimately show "seg_ok X sp i ?seg w'" using assms(1) r by (simp add: seg_ok_def)
qed

lemma length_seg_content: "seg_ok X sp i seg w \<Longrightarrow> length (seg_content X sp seg w) = sp_len sp"
  by (auto simp: seg_ok_def local_ok_def remote_ok_def seg_content_def remote_content_def split: option.splits)

text \<open>Loading: the segment is or becomes local with the bytes it stood for; an unwritten segment
  stays without a file on a read.\<close>

lemma loadFile_ok:
  assumes "seg_env X sp i m seg w" "loadable X sp seg" "sg_localFile seg \<noteq> None \<or> has_room X sp m"
    and "createWrite \<or> sg_localFile seg \<noteq> None \<or> sg_remoteItem seg \<noteq> None"
  shows "\<exists>seg' w'. loadFile sp createWrite seg w = Ret (Some (seg_path X sp i), None, seg', w') \<and>
    sg_localFile seg' = Some (seg_path X sp i) \<and> sg_remoteItem seg' = sg_remoteItem seg \<and>
    seg_to X sp i m w seg' w' (seg_content X sp seg w)"
proof (cases "sg_localFile seg")
  case (Some p)
  then have "p = seg_path X sp i" using assms(1) by (simp add: seg_env_def seg_ok_def local_ok_def)
  then show ?thesis
    using Some assms(1) by (intro exI [of _ seg] exI [of _ w]) (simp add: loadFile_def seg_env_def seg_to_def stepped_refl)
next
  case None
  let ?p = "seg_path X sp i" and ?seg = "seg\<lparr>sg_localFile := Some (seg_path X sp i), sg_atomicBacked := True\<rparr>"
  have env: "world_ok X sp w" "sp_ok sp" "seg_ok X sp i seg w" "quota_ok X sp m w" "has_room X sp m"
    using assms(1,3) None by (auto simp: seg_env_def)
  have loc: "w_file w ?p = None" "w_file w (eTagFileName ?p) = None" "sg_ID seg = int i"
    using env(3) None by (auto simp: seg_ok_def local_ok_def)
  have "\<exists>w' f. loadFile sp createWrite seg w = Ret (Some ?p, None, ?seg, w') \<and> w_file w' ?p = Some f \<and> healthy f \<and>
      fdata f = seg_content X sp seg w \<and> w_cont w' = w_cont w \<and> stepped X sp i (Suc m) w w'"
  proof (cases "sg_remoteItem seg")
    case rem: None
    obtain w' f where "createFile sp (Itoa (int i)) w = (Some ?p, None, w')" "w_file w' ?p = Some f" "healthy f"
      "fdata f = zeros (sp_len sp)" "w_cont w' = w_cont w" "stepped X sp i (Suc m) w w'"
      using createFile_ok [OF env(1,2,4,5)] by blast
    then show ?thesis using None rem loc assms(4) by (simp add: loadFile_def seg_content_def remote_content_def)
  next
    case rem: (Some it)
    obtain bs where bs: "it_Name (sp_container sp) it = seg_name X i" "x_cmap X (w_cont w) (seg_name X i) = Some bs"
      "length bs = sp_len sp"
      using env(3) rem by (auto simp: seg_ok_def remote_ok_def)
    have "sp_thickProvision sp" "x_proper X it"
      using assms(2) None rem by (simp_all add: loadable_def fresh_def proper_def)
    from downloadFile_ok [OF env(1,2,4,5) this bs loc(1,2)] obtain w' f where
      "downloadFile sp it w = Ret (Some ?p, None, w')" "w_file w' ?p = Some f" "healthy f"
      "fdata f = bs" "w_cont w' = w_cont w" "stepped X sp i (Suc m) w w'" by blast
    then show ?thesis using None rem bs by (simp add: loadFile_def seg_content_def remote_content_def)
  qed
  then obtain w' f where "loadFile sp createWrite seg w = Ret (Some ?p, None, ?seg, w')" "w_file w' ?p = Some f"
    "healthy f" "fdata f = seg_content X sp seg w" "w_cont w' = w_cont w" "stepped X sp i (Suc m) w w'"
    by blast
  then show ?thesis
    using seg_ok_made [OF env(3) None] length_seg_content [OF env(3)]
    by (intro exI [of _ ?seg] exI [of _ w']) (simp add: seg_to_def)
qed

text \<open>Without room the load fails with the capacity error and nothing changes.\<close>

lemma loadFile_full:
  assumes "seg_env X sp i m seg w" "sg_localFile seg = None" "\<not> has_room X sp m"
    and "createWrite \<or> sg_remoteItem seg \<noteq> None"
  shows "\<exists>e w'. loadFile sp createWrite seg w = Ret (None, Some e, seg, w') \<and> errIs e ErrCapacityClaim \<and>
    seg_to X sp i m w seg w' (seg_content X sp seg w)"
proof -
  have env: "world_ok X sp w" "seg_ok X sp i seg w" "quota_ok X sp m w"
    using assms(1,2) by (auto simp: seg_env_def)
  have keep: "seg_ok X sp i seg w'" "seg_content X sp seg w' = seg_content X sp seg w"
    if "w_file w' = w_file w" "w_cont w' = w_cont w" for w'
    using env(2) that by (simp_all add: seg_ok_def local_ok_def remote_ok_def seg_content_def remote_content_def
      cong: option.case_cong)
  have upd: "seg\<lparr>sg_localFile := None\<rparr> = seg" using assms(2) by (cases seg) simp
  show ?thesis
  proof (cases "sg_remoteItem seg")
    case None
    obtain e w' where "createFile sp (Itoa (sg_ID seg)) w = (None, Some e, w')" "errIs e ErrCapacityClaim"
      and w: "w_file w' = w_file w" "w_cont w' = w_cont w" "stepped X sp i m w w'"
      using load_full(1) [OF env(3) assms(3) env(1)] by blast
    then show ?thesis using None assms keep [OF w(1,2)] by (auto simp: loadFile_def upd seg_to_def)
  next
    case (Some it)
    obtain e w' where "downloadFile sp it w = Ret (None, Some e, w')" "errIs e ErrCapacityClaim"
      and w: "w_file w' = w_file w" "w_cont w' = w_cont w" "stepped X sp i m w w'"
      using load_full(2) [OF env(3) assms(3) env(1)] by blast
    then show ?thesis using Some assms keep [OF w(1,2)] by (auto simp: loadFile_def upd seg_to_def)
  qed
qed

end
