(* ===== verification/Segment_Ops.thy ===== *)
theory Segment_Ops
  imports Segment_Laws
begin

text \<open>
  The laws of the operations of a segment: reads and writes inside the segment read and overwrite the
  bytes it stands for, flushing and evicting keep them, and a missing unit of the quota is reported
  as the capacity error with nothing changed.
\<close>

text \<open>Accesses leave the remote item alone and do not evict.\<close>

definition keeps :: "'i segment \<Rightarrow> 'i segment \<Rightarrow> bool" where
  "keeps seg seg' \<longleftrightarrow> sg_remoteItem seg' = sg_remoteItem seg \<and> (sg_localFile seg \<noteq> None \<longrightarrow> sg_localFile seg' \<noteq> None)"

lemma seg_envD:
  assumes "seg_env X sp i m seg w"
  shows "world_ok X sp w" "sp_ok sp" "seg_ok X sp i seg w" "quota_ok X sp (m + units seg) w"
  using assms by (auto simp: seg_env_def)

lemma seg_toD:
  assumes "seg_to X sp i m w seg' w' bs"
  shows "seg_ok X sp i seg' w'" "stepped X sp i (m + units seg') w w'" "seg_content X sp seg' w' = bs"
  using assms by (auto simp: seg_to_def)

lemma seg_to_env: "seg_to X sp i m w seg' w' bs \<Longrightarrow> sp_ok sp \<Longrightarrow> seg_env X sp i m seg' w'"
  by (simp add: seg_to_def seg_env_def stepped_def)

lemma seg_to_trans:
  assumes "seg_to X sp i m w seg' w' bs" "seg_to X sp i m w' seg'' w'' bs'"
  shows "seg_to X sp i m w seg'' w'' bs'"
  using assms stepped_trans [OF seg_toD(2) [OF assms(1)] seg_toD(2) [OF assms(2)]] by (simp add: seg_to_def)

lemma seg_to_refl: "seg_env X sp i m seg w \<Longrightarrow> seg_to X sp i m w seg w (seg_content X sp seg w)"
  by (simp add: seg_env_def seg_to_def stepped_refl)

lemma seg_to_tick:
  "seg_env X sp i m seg w \<Longrightarrow>
     seg_to X sp i m w (seg\<lparr>sg_lastRead := t\<rparr>) (w\<lparr>w_tick := k\<rparr>) (seg_content X sp seg w)"
  "seg_env X sp i m seg w \<Longrightarrow>
     seg_to X sp i m w (seg\<lparr>sg_lastWrite := t\<rparr>) (w\<lparr>w_tick := k\<rparr>) (seg_content X sp seg w)"
  by (simp_all add: seg_env_def seg_to_def stepped_tick)

lemma seg_file:
  assumes "seg_ok X sp i seg w" "sg_localFile seg \<noteq> None"
  obtains f where "sg_localFile seg = Some (seg_path X sp i)" "w_file w (seg_path X sp i) = Some f" "healthy f"
    "length (fdata f) = sp_len sp" "seg_content X sp seg w = fdata f"
  using assms by (auto simp: seg_ok_def local_ok_def seg_content_def)

section \<open>Reading\<close>

lemma h_ReadAt_in:
  assumes "w_file w p = Some f" "healthy f" "0 \<le> pos" "pos + int (length buf) \<le> int (length (fdata f))"
  shows "h_ReadAt w (Some p) buf pos = (int (length buf), None, chunk (fdata f) (nat pos) (length buf))"
  using assms by (simp add: h_ReadAt_def h_file_def file_ReadAt_in)

lemma seg_ReadAt_ok:
  assumes env: "seg_env X sp i m seg w" and ld: "loadable X sp seg"
    and room: "sg_localFile seg \<noteq> None \<or> has_room X sp m \<or> sg_remoteItem seg = None"
    and range: "0 \<le> pos" "pos + int (length buf) \<le> sp_segmentBytes sp"
  shows "\<exists>seg' w'. seg_ReadAt sp seg buf pos w =
      Ret (int (length buf), None, chunk (seg_content X sp seg w) (nat pos) (length buf), seg', w') \<and>
    seg_to X sp i m w seg' w' (seg_content X sp seg w) \<and> keeps seg seg'"
proof -
  let ?t = "w_time w (w_tick w)" and ?w = "w\<lparr>w_tick := Suc (w_tick w)\<rparr>"
  let ?seg = "seg\<lparr>sg_lastRead := ?t\<rparr>"
  note tick = seg_to_tick(1) [OF env, of ?t "Suc (w_tick w)"]
  have env': "seg_env X sp i m ?seg ?w" using env by (rule seg_env_times)
  have len: "sp_segmentBytes sp = int (sp_len sp)" "sp_segmentBytes sp < 2 ^ 63"
    using seg_envD(2) [OF env] by (auto simp: sp_ok_def)
  have fit: "nat pos + length buf \<le> sp_len sp" using range len(1) by linarith
  show ?thesis
  proof (cases "sg_localFile seg = None \<and> sg_remoteItem seg = None")
    case True
    have "wrap64 (pos + int (length buf)) = pos + int (length buf)"
      by (rule wrap64_id) (use range len in \<open>auto simp: in64_def\<close>)
    then have "seg_ReadAt sp seg buf pos w = Ret (int (length buf), None, zeros (length buf), ?seg, ?w)"
      using True range by (simp add: seg_ReadAt_def w_now_def loadFile_def Let_def ZeroFill_total blit_def)
    moreover have "chunk (seg_content X sp seg w) (nat pos) (length buf) = zeros (length buf)"
      using True fit by (simp add: seg_content_def remote_content_def chunk_zeros)
    ultimately show ?thesis using True tick by (intro exI [of _ ?seg] exI [of _ ?w]) (simp add: keeps_def)
  next
    case False
    then obtain seg' w' where l: "loadFile sp False ?seg ?w = Ret (Some (seg_path X sp i), None, seg', w')"
      "sg_localFile seg' = Some (seg_path X sp i)" "seg_to X sp i m ?w seg' w' (seg_content X sp seg w)"
      "sg_remoteItem seg' = sg_remoteItem seg"
      using loadFile_ok [OF env', of False] ld room by auto
    obtain f where f: "w_file w' (seg_path X sp i) = Some f" "healthy f" "length (fdata f) = sp_len sp"
      "seg_content X sp seg' w' = fdata f"
      by (rule seg_file [OF seg_toD(1) [OF l(3)]]) (use l(2) in auto)
    have "h_ReadAt w' (Some (seg_path X sp i)) buf pos =
        (int (length buf), None, chunk (seg_content X sp seg w) (nat pos) (length buf))"
      using h_ReadAt_in [OF f(1,2) range(1)] range(2) len(1) f(3,4) seg_toD(3) [OF l(3)] by simp
    then show ?thesis
      using l seg_to_trans [OF tick l(3)]
      by (intro exI [of _ seg'] exI [of _ w']) (simp add: seg_ReadAt_def w_now_def keeps_def)
  qed
qed

lemma seg_ReadAt_full:
  assumes env: "seg_env X sp i m seg w"
    and room: "sg_localFile seg = None" "\<not> has_room X sp m" "sg_remoteItem seg \<noteq> None"
  shows "\<exists>e seg' w'. seg_ReadAt sp seg buf pos w = Ret (0, Some e, buf, seg', w') \<and> errIs e ErrCapacityClaim \<and>
    seg_to X sp i m w seg' w' (seg_content X sp seg w) \<and>
    sg_localFile seg' = None \<and> sg_remoteItem seg' = sg_remoteItem seg"
proof -
  let ?t = "w_time w (w_tick w)" and ?w = "w\<lparr>w_tick := Suc (w_tick w)\<rparr>"
  let ?seg = "seg\<lparr>sg_lastRead := ?t\<rparr>"
  have env': "seg_env X sp i m ?seg ?w" using env by (rule seg_env_times)
  obtain e w' where l: "loadFile sp False ?seg ?w = Ret (None, Some e, ?seg, w')" "errIs e ErrCapacityClaim"
    "seg_to X sp i m ?w ?seg w' (seg_content X sp seg w)"
    using loadFile_full [OF env' _ room(2), of False] room by auto
  then show ?thesis
    using room seg_to_trans [OF seg_to_tick(1) [OF env] l(3)]
    by (intro exI [of _ "Wrap ''Could not load segment data for reading'' e"] exI [of _ ?seg] exI [of _ w'])
      (simp add: seg_ReadAt_def w_now_def)
qed

section \<open>Writing\<close>

lemma seg_WriteAt_ok:
  assumes env: "seg_env X sp i m seg w" and ld: "loadable X sp seg" and ne: "buf \<noteq> []"
    and room: "sg_localFile seg \<noteq> None \<or> has_room X sp m \<or> IsZeros buf"
    and takes: "fresh seg \<or> \<not> IsZeros buf"
    and range: "0 \<le> pos" "pos + int (length buf) \<le> sp_segmentBytes sp"
  shows "\<exists>seg' w'. seg_WriteAt sp seg buf pos w = Ret (int (length buf), None, seg', w') \<and>
    seg_to X sp i m w seg' w' (blit (seg_content X sp seg w) (nat pos) buf) \<and> keeps seg seg'"
proof -
  let ?t = "w_time w (w_tick w)" and ?w = "w\<lparr>w_tick := Suc (w_tick w)\<rparr>"
  let ?seg = "seg\<lparr>sg_lastWrite := ?t\<rparr>" and ?p = "seg_path X sp i"
  note tick = seg_to_tick(2) [OF env, of ?t "Suc (w_tick w)"]
  have env': "seg_env X sp i m ?seg ?w" using env by (rule seg_env_times)
  have len: "sp_segmentBytes sp = int (sp_len sp)" using seg_envD(2) [OF env] by (auto simp: sp_ok_def)
  have fit: "nat pos + length buf \<le> sp_len sp" using range len by linarith
  show ?thesis
  proof (cases "IsZeros buf \<and> sg_localFile seg = None")
    case True
    then have "sg_remoteItem seg = None" using takes by (auto simp: fresh_def)
    then have c: "seg_content X sp seg w = zeros (sp_len sp)"
      using True by (simp add: seg_content_def remote_content_def)
    have "chunk (zeros (sp_len sp)) (nat pos) (length buf) = buf"
      using True fit IsZeros_zeros [of buf] by (simp add: chunk_zeros)
    then have "blit (seg_content X sp seg w) (nat pos) buf = seg_content X sp seg w"
      using blit_chunk_id [of "nat pos" "length buf" "zeros (sp_len sp)"] fit by (simp add: c)
    then show ?thesis
      using True tick by (intro exI [of _ ?seg] exI [of _ ?w]) (simp add: seg_WriteAt_def w_now_def keeps_def)
  next
    case False
    then obtain seg' w' where l: "loadFile sp True ?seg ?w = Ret (Some ?p, None, seg', w')"
      "sg_localFile seg' = Some ?p" "seg_to X sp i m ?w seg' w' (seg_content X sp seg w)"
      "sg_remoteItem seg' = sg_remoteItem seg"
      using loadFile_ok [OF env', of True] ld room by auto
    obtain f where f: "w_file w' ?p = Some f" "healthy f" "length (fdata f) = sp_len sp"
      "seg_content X sp seg' w' = fdata f"
      by (rule seg_file [OF seg_toD(1) [OF l(3)]]) (use l(2) in auto)
    let ?f = "f\<lparr>fdata := blit (fdata f) (nat pos) buf\<rparr>"
    have fit: "nat pos + length buf \<le> length (fdata f)" using fit f(3) by simp
    have wr: "h_WriteAt w' (Some ?p) buf pos = (int (length buf), None, w_set w' ?p (Some ?f))"
      using f(1,2) range(1) store_blit [OF fit] by (simp add: h_WriteAt_def h_file_def file_WriteAt_healthy)
    have "seg_ok X sp i (seg'\<lparr>sg_atomicDirty := True\<rparr>) (w_set w' ?p (Some ?f))"
      using seg_toD(1) [OF l(3)] l(2) f(2,3) fit seg_path_not_etag [of X sp i ?p]
      by (auto simp: seg_ok_def local_ok_def remote_ok_def seg_Backed_def seg_Dirty_def split: option.splits)
    moreover have "seg_content X sp (seg'\<lparr>sg_atomicDirty := True\<rparr>) (w_set w' ?p (Some ?f)) = fdata ?f"
      using l(2) by (simp add: seg_content_def)
    moreover have "stepped X sp i (m + units seg') ?w (w_set w' ?p (Some ?f))"
      using seg_toD(2) [OF l(3)] stepped_file [of X sp w' "m + units seg'" i "Some ?f"] stepped_trans
      by (auto simp: stepped_def only_seg_def)
    ultimately have "seg_to X sp i m ?w (seg'\<lparr>sg_atomicDirty := True\<rparr>) (w_set w' ?p (Some ?f))
        (blit (seg_content X sp seg w) (nat pos) buf)"
      using f(4) seg_toD(3) [OF l(3)] by (simp add: seg_to_def)
    from seg_to_trans [OF tick this] show ?thesis
      using False l(1,2,4) wr ne
      by (intro exI [of _ "seg'\<lparr>sg_atomicDirty := True\<rparr>"] exI [of _ "w_set w' ?p (Some ?f)"])
        (auto simp: seg_WriteAt_def w_now_def keeps_def Let_def)
  qed
qed

lemma seg_WriteAt_full:
  assumes env: "seg_env X sp i m seg w"
    and room: "sg_localFile seg = None" "\<not> has_room X sp m" "\<not> IsZeros buf"
  shows "\<exists>e seg' w'. seg_WriteAt sp seg buf pos w = Ret (0, Some e, seg', w') \<and> errIs e ErrCapacityClaim \<and>
    seg_to X sp i m w seg' w' (seg_content X sp seg w) \<and>
    sg_localFile seg' = None \<and> sg_remoteItem seg' = sg_remoteItem seg"
proof -
  let ?t = "w_time w (w_tick w)" and ?w = "w\<lparr>w_tick := Suc (w_tick w)\<rparr>"
  let ?seg = "seg\<lparr>sg_lastWrite := ?t\<rparr>"
  have env': "seg_env X sp i m ?seg ?w" using env by (rule seg_env_times)
  obtain e w' where l: "loadFile sp True ?seg ?w = Ret (None, Some e, ?seg, w')" "errIs e ErrCapacityClaim"
    "seg_to X sp i m ?w ?seg w' (seg_content X sp seg w)"
    using loadFile_full [OF env' _ room(2), of True] room by auto
  then show ?thesis
    using room seg_to_trans [OF seg_to_tick(2) [OF env] l(3)]
    by (intro exI [of _ "Wrap ''Could not load segment data for writing'' e"] exI [of _ ?seg] exI [of _ w'])
      (simp add: seg_WriteAt_def w_now_def)
qed

section \<open>Flushing and evicting\<close>

lemma seg_flush_ok:
  assumes env: "seg_env X sp i m seg w" and loc: "sg_localFile seg \<noteq> None"
  shows "\<exists>seg' w'. seg_flush sp seg optBuf early w = (None, seg', w') \<and>
    seg_to X sp i m w seg' w' (seg_content X sp seg w) \<and> \<not> seg_Dirty seg' \<and> sg_localFile seg' = sg_localFile seg \<and>
    (put_proper (sp_container sp) (x_proper X) \<longrightarrow> proper X seg')"
proof -
  obtain f where f: "sg_localFile seg = Some (seg_path X sp i)" "w_file w (seg_path X sp i) = Some f" "healthy f"
    "length (fdata f) = sp_len sp" "seg_content X sp seg w = fdata f"
    by (rule seg_file [OF seg_envD(3) [OF env] loc])
  have id: "sg_ID seg = int i" using seg_envD(3) [OF env] by (simp add: seg_ok_def)
  obtain it w' where s: "syncFile sp (Some (seg_path X sp i)) (Itoa (int i)) optBuf early w = (Some it, None, w')"
    "it_Name (sp_container sp) it = seg_name X i" "w_file w' = w_file w"
    "x_cmap X (w_cont w') (seg_name X i) = Some (fdata f)" "stepped X sp i (m + units seg) w w'"
    "put_proper (sp_container sp) (x_proper X) \<longrightarrow> x_proper X it"
    using syncFile_ok [OF seg_envD(1,2,4) [OF env] f(2,3,4)] by blast
  let ?seg = "seg\<lparr>sg_atomicDirty := False, sg_remoteItem := Some it\<rparr>"
  have "local_ok X sp i ?seg w'" using seg_envD(3) [OF env] f(1) s(3) by (simp add: seg_ok_def local_ok_def seg_Backed_def)
  moreover have "remote_ok X sp i ?seg w'" using s(2,4) f(4) by (simp add: remote_ok_def)
  moreover have c: "seg_content X sp ?seg w' = fdata f" using f(1,2) s(3) by (simp add: seg_content_def)
  moreover have "remote_content X sp ?seg w' = fdata f" using s(2,4) by (simp add: remote_content_def)
  ultimately have "seg_ok X sp i ?seg w'" using id by (simp add: seg_ok_def)
  then have "seg_to X sp i m w ?seg w' (seg_content X sp seg w)" using c f(5) s(5) by (simp add: seg_to_def)
  then show ?thesis
    using s(1,6) id f(1) by (intro exI [of _ ?seg] exI [of _ w']) (simp add: seg_flush_def seg_Dirty_def proper_def)
qed

lemma seg_Flush_ok:
  assumes env: "seg_env X sp i m seg w"
  shows "\<exists>seg' w'. seg_Flush sp seg optBuf w = (None, seg', w') \<and>
    seg_to X sp i m w seg' w' (seg_content X sp seg w) \<and> \<not> seg_Dirty seg' \<and> sg_localFile seg' = sg_localFile seg \<and>
    (fresh seg \<longrightarrow> fresh seg') \<and> (loadable X sp seg \<longrightarrow> loadable X sp seg') \<and>
    (put_proper (sp_container sp) (x_proper X) \<longrightarrow> proper X seg \<longrightarrow> proper X seg')"
proof (cases "seg_Dirty seg")
  case True
  then have loc: "sg_localFile seg \<noteq> None" using seg_envD(3) [OF env] by (auto simp: seg_ok_def local_ok_def split: option.splits)
  from seg_flush_ok [OF env loc, of optBuf True] loc True show ?thesis by (auto simp: seg_Flush_def fresh_def loadable_def)
next
  case False
  then show ?thesis using seg_to_refl [OF env] by (auto simp: seg_Flush_def)
qed

lemma DeleteFile_ok:
  assumes env: "seg_env X sp i m seg w"
  shows "\<exists>seg' w'. DeleteFile sp seg w = Ret (None, seg', w') \<and>
    seg_to X sp i m w seg' w' (seg_content X sp seg w) \<and> sg_localFile seg' = None \<and> \<not> seg_Dirty seg' \<and>
    (put_proper (sp_container sp) (x_proper X) \<longrightarrow> proper X seg \<longrightarrow> proper X seg')"
proof (cases "sg_localFile seg")
  case None
  then have "\<not> seg_Backed seg" "\<not> seg_Dirty seg" using seg_envD(3) [OF env] by (auto simp: seg_ok_def local_ok_def)
  then show ?thesis using None seg_to_refl [OF env] by (auto simp: DeleteFile_def)
next
  case (Some p)
  then have b: "seg_Backed seg" using seg_envD(3) [OF env] by (auto simp: seg_ok_def local_ok_def)
  have "\<exists>seg1 w1. (if seg_Dirty seg then seg_flush sp seg None False w else (None, seg, w)) = (None, seg1, w1) \<and>
      seg_to X sp i m w seg1 w1 (seg_content X sp seg w) \<and> \<not> seg_Dirty seg1 \<and> sg_localFile seg1 = sg_localFile seg \<and>
      (put_proper (sp_container sp) (x_proper X) \<longrightarrow> proper X seg \<longrightarrow> proper X seg1)"
    using seg_flush_ok [OF env, of None False] Some seg_to_refl [OF env] by auto
  then obtain seg1 w1 where 1: "(if seg_Dirty seg then seg_flush sp seg None False w else (None, seg, w)) = (None, seg1, w1)"
    "seg_to X sp i m w seg1 w1 (seg_content X sp seg w)" "\<not> seg_Dirty seg1" "sg_localFile seg1 = sg_localFile seg"
    "put_proper (sp_container sp) (x_proper X) \<longrightarrow> proper X seg \<longrightarrow> proper X seg1"
    by blast
  have env1: "seg_env X sp i m seg1 w1" using 1(2) seg_envD(2) [OF env] by (rule seg_to_env)
  obtain f where f: "sg_localFile seg1 = Some (seg_path X sp i)" "w_file w1 (seg_path X sp i) = Some f" "healthy f"
    by (rule seg_file [OF seg_envD(3) [OF env1]]) (use 1(4) Some in auto)
  obtain w2 where 2: "removeFile sp (Some (seg_path X sp i)) w1 = Ret (None, w2)" "w_file w2 (seg_path X sp i) = None"
    "w_cont w2 = w_cont w1" "stepped X sp i (m + units seg1) w1 w2"
    using removeFile_ok [OF seg_envD(1,2,4) [OF env1] f(2,3)] by blast
  obtain s where 3: "releaseCapacity sp w2 = Ret (w2\<lparr>w_sema := s\<rparr>)" "quota_ok X sp m (w2\<lparr>w_sema := s\<rparr>)"
    using release_ok [of X sp m w2] 2(4) f(1) by (auto simp: stepped_def)
  let ?seg = "seg1\<lparr>sg_atomicBacked := False, sg_localFile := None\<rparr>" and ?w = "w2\<lparr>w_sema := s\<rparr>"
  have st: "stepped X sp i m w1 ?w"
    using 2(4) 3(2) by (auto simp: stepped_def only_seg_def)
  have c: "seg_content X sp ?seg ?w = seg_content X sp seg1 w1" "remote_content X sp ?seg ?w = remote_content X sp seg1 w1"
    using seg_envD(3) [OF env1] 1(3) 2(3) by (simp_all add: seg_ok_def seg_content_def remote_content_def cong: option.case_cong)
  have "w_file ?w (eTagFileName (seg_path X sp i)) = None"
    using seg_envD(3) [OF env1] st seg_path_not_etag [of X sp i "seg_path X sp i", symmetric]
    by (simp add: seg_ok_def local_ok_def stepped_def only_seg_def)
  then have "seg_ok X sp i ?seg ?w"
    using seg_envD(3) [OF env1] 1(3) 2(2,3) c
    by (simp add: seg_ok_def local_ok_def remote_ok_def seg_Backed_def seg_Dirty_def cong: option.case_cong)
  then have "seg_to X sp i m w1 ?seg ?w (seg_content X sp seg w)"
    using st c(1) seg_toD(3) [OF 1(2)] by (simp add: seg_to_def)
  moreover have "proper X ?seg = proper X seg1" by (simp add: proper_def)
  ultimately show ?thesis
    using seg_to_trans [OF 1(2)] b 1(1,3,5) 2(1) 3(1) f(1)
    by (intro exI [of _ ?seg] exI [of _ ?w]) (simp add: DeleteFile_def seg_Dirty_def)
qed

end
