(* ===== verification/Objdev.thy ===== *)
theory Objdev
  imports Segment Reqproc
begin

text \<open>
  The object store device, \<^verbatim>\<open>src/pkg/devices/objstore/device.go\<close>: requests split over segments, local
  segments limited by a quota with eviction, flushing and closing. Operations run one after the
  other here; the flush workers touch different segments.
\<close>

section \<open>Definitions\<close>

record ('c, 'i, 's) objdev =
  od_cancelled :: bool
  od_totalBytes :: i64
  od_segments :: "'i segment list"
  od_params :: "('c, 'i, 's) storeParams"
  od_world :: "('c, 's) world"

abbreviation od_segmentBytes :: "('c, 'i, 's) objdev \<Rightarrow> i64" where
  "od_segmentBytes dev \<equiv> sp_segmentBytes (od_params dev)"

definition od_Size :: "('c, 'i, 's) objdev \<Rightarrow> i64" where
  "od_Size dev = od_totalBytes dev"

text \<open>The scan for a segment to evict: the index and last operation of the best clean and the best
  dirty candidate so far.\<close>

definition lru_better :: "nat \<Rightarrow> int \<Rightarrow> (nat option \<times> int) \<Rightarrow> (nat option \<times> int)" where
  "lru_better i lastOp cand = (if lastOp < snd cand \<or> snd cand = 0 then (Some i, lastOp) else cand)"

definition lru_visit :: "nat \<Rightarrow> (nat \<times> 'i segment) \<Rightarrow> (nat option \<times> int) \<times> (nat option \<times> int) \<Rightarrow>
    (nat option \<times> int) \<times> (nat option \<times> int)" where
  "lru_visit forIdx iseg cands =
     (case iseg of (i, seg) \<Rightarrow> case cands of (clean, dirty) \<Rightarrow>
        if i = forIdx \<or> \<not> seg_Backed seg then (clean, dirty)
        else if seg_Dirty seg then (clean, lru_better i (seg_LastOp seg) dirty)
        else (lru_better i (seg_LastOp seg) clean, dirty))"

definition lru_pick :: "nat \<Rightarrow> 'i segment list \<Rightarrow> nat option" where
  "lru_pick forIdx segments =
     (case fold (lru_visit forIdx) (zip [0..<length segments] segments) ((None, 0), (None, 0)) of
        ((Some i, _), _) \<Rightarrow> Some i
      | ((None, _), (dirty, _)) \<Rightarrow> dirty)"

text \<open>\<open>removeLeastRecentUsed\<close>. The candidate is looked at again before it is deleted; nothing happens
  in between here, so the first try deletes it.\<close>

definition removeLeastRecentUsed :: "nat \<Rightarrow> ('c, 'i, 's) objdev \<Rightarrow> (int \<times> goerr option \<times> ('c, 'i, 's) objdev) go" where
  "removeLeastRecentUsed forIdx dev =
     (case lru_pick forIdx (od_segments dev) of
        None \<Rightarrow> Ret (0, Some (Msg ''Could not remove any segments as none are backed''), dev)
      | Some idx \<Rightarrow>
        go_bind (DeleteFile (od_params dev) (od_segments dev ! idx) (od_world dev)) (\<lambda>(err, seg, w).
          Ret (int idx, err, dev\<lparr>od_segments := (od_segments dev)[idx := seg], od_world := w\<rparr>)))"

text \<open>One access to a segment of the device, and the loop that frees capacity and tries again.\<close>

definition seg_access :: "bool \<Rightarrow> nat \<Rightarrow> bytes \<Rightarrow> i64 \<Rightarrow> ('c, 'i, 's) objdev \<Rightarrow>
    (int \<times> goerr option \<times> bytes \<times> ('c, 'i, 's) objdev) go" where
  "seg_access readOp segID segBuf pos dev =
     (if readOp
      then go_bind (seg_ReadAt (od_params dev) (od_segments dev ! segID) segBuf pos (od_world dev))
        (\<lambda>(count, err, segBuf, seg, w).
          Ret (count, err, segBuf, dev\<lparr>od_segments := (od_segments dev)[segID := seg], od_world := w\<rparr>))
      else go_bind (seg_WriteAt (od_params dev) (od_segments dev ! segID) segBuf pos (od_world dev))
        (\<lambda>(count, err, seg, w).
          Ret (count, err, segBuf, dev\<lparr>od_segments := (od_segments dev)[segID := seg], od_world := w\<rparr>)))"

definition maxCapTries :: nat where
  "maxCapTries = 10"

fun seg_retry :: "nat \<Rightarrow> bool \<Rightarrow> nat \<Rightarrow> bytes \<Rightarrow> i64 \<Rightarrow> ('c, 'i, 's) objdev \<Rightarrow>
    (int \<times> goerr option \<times> bytes \<times> ('c, 'i, 's) objdev) go" where
  "seg_retry triesLeft readOp segID segBuf pos dev =
     go_bind (seg_access readOp segID segBuf pos dev) (\<lambda>(count, err, segBuf, dev).
       case err of
         None \<Rightarrow> Ret (count, None, segBuf, dev)
       | Some e \<Rightarrow>
         (if errIs e ErrCapacityClaim \<and> 0 < triesLeft
          then go_bind (removeLeastRecentUsed segID dev) (\<lambda>(_, err, dev).
            case err of
              Some e \<Rightarrow> Ret (count, Some (Wrap ''Could not free capacity to load segment'' e), segBuf, dev)
            | None \<Rightarrow> seg_retry (triesLeft - 1) readOp segID segBuf pos dev)
          else Ret (count, Some (Wrap ''Could not access segment'' e), segBuf, dev)))"

declare seg_retry.simps [simp del]

text \<open>The loop of \<open>ioAt\<close> over the segments of a request.\<close>

function io_loop :: "bool \<Rightarrow> int \<Rightarrow> bytes \<Rightarrow> int \<Rightarrow> int \<Rightarrow> int \<Rightarrow> i64 \<Rightarrow> ('c, 'i, 's) objdev \<Rightarrow>
    (int \<times> goerr option \<times> bytes \<times> ('c, 'i, 's) objdev) go" where
  "io_loop readOp maxSegID buf totalRead remaining segID pos dev =
     (if remaining \<le> 0 then Ret (totalRead, None, buf, dev)
      else if maxSegID \<le> segID then Ret (totalRead, Some EOF, buf, dev)
      else if segID < 0 then Panic
      else
        (let segBuf = drop (nat totalRead) buf; maxWrite = od_segmentBytes dev - pos in
         go_bind (if maxWrite < remaining then go_slice segBuf 0 maxWrite else Ret segBuf) (\<lambda>segBuf.
         go_bind (seg_retry maxCapTries readOp (nat segID) segBuf pos dev) (\<lambda>(count, err, segBuf, dev).
           let buf = blit buf (nat totalRead) segBuf in
           if err \<noteq> None then Ret (count, err, buf, dev)
           else io_loop readOp maxSegID buf (totalRead + count) (remaining - count) (segID + 1) 0 dev))))"
  by pat_completeness auto
termination by (relation "measure (\<lambda>(_, maxSegID, _, _, _, segID, _, _). nat (maxSegID - segID))") auto

declare io_loop.simps [simp del]

definition ioAt :: "bool \<Rightarrow> ('c, 'i, 's) objdev \<Rightarrow> bytes \<Rightarrow> i64 \<Rightarrow>
    (int \<times> goerr option \<times> bytes \<times> ('c, 'i, 's) objdev) go" where
  "ioAt readOp dev buf pos =
     (if od_cancelled dev then Ret (0, Some (Wrap ''Device is shutdown'' ErrCanceled), buf, dev)
      else if pos > od_totalBytes dev then Ret (0, Some EOF, buf, dev)
      else if od_segmentBytes dev = 0 then Panic
      else
        (let segID = pos sdiv od_segmentBytes dev in
         io_loop readOp (int (length (od_segments dev))) buf 0 (int (length buf)) segID
           (pos - segID * od_segmentBytes dev) dev))"

definition od_ReadAt :: "('c, 'i, 's) objdev \<Rightarrow> bytes \<Rightarrow> i64 \<Rightarrow>
    (int \<times> goerr option \<times> bytes \<times> ('c, 'i, 's) objdev) go" where
  "od_ReadAt dev buf pos = ioAt True dev buf pos"

definition od_WriteAt :: "('c, 'i, 's) objdev \<Rightarrow> bytes \<Rightarrow> i64 \<Rightarrow> (int \<times> goerr option \<times> ('c, 'i, 's) objdev) go" where
  "od_WriteAt dev buf pos =
     go_bind (ioAt False dev buf pos) (\<lambda>(count, err, _, dev). Ret (count, err, dev))"

definition od_Trim :: "('c, 'i, 's) objdev \<Rightarrow> i64 \<Rightarrow> int \<Rightarrow> (goerr option \<times> ('c, 'i, 's) objdev) go" where
  "od_Trim dev pos count = Ret (None, dev)"

text \<open>\<open>flush\<close>: all dirty segments, each with a buffer of one segment unless that exceeds the limit. An
  error does not stop the others; the first one is reported.\<close>

definition maxFlushAlloc :: int where
  "maxFlushAlloc = 512 * 1024 * 1024"

definition flushBuf :: "i64 \<Rightarrow> nat option" where
  "flushBuf segmentBytes = (if maxFlushAlloc < segmentBytes then None else Some (nat segmentBytes))"

fun flush_list :: "('c, 'i, 's) storeParams \<Rightarrow> nat list \<Rightarrow> 'i segment list \<Rightarrow> ('c, 's) world \<Rightarrow>
    goerr option \<times> 'i segment list \<times> ('c, 's) world" where
  "flush_list sp [] segments w = (None, segments, w)"
| "flush_list sp (i # is) segments w =
     (case seg_Flush sp (segments ! i) (flushBuf (sp_segmentBytes sp)) w of
        (err, seg, w) \<Rightarrow>
          (case flush_list sp is (segments[i := seg]) w of
             (err', segments, w) \<Rightarrow> (if err \<noteq> None then err else err', segments, w)))"

definition od_flush :: "('c, 'i, 's) objdev \<Rightarrow> goerr option \<times> ('c, 'i, 's) objdev" where
  "od_flush dev =
     (let flushList = filter (\<lambda>i. seg_Dirty (od_segments dev ! i)) [0..<length (od_segments dev)] in
      case flush_list (od_params dev) flushList (od_segments dev) (od_world dev) of
        (err, segments, w) \<Rightarrow>
          (map_option (Wrap ''One ore more segments failed to flush'') err,
           dev\<lparr>od_segments := segments, od_world := w\<rparr>))"

definition od_Flush :: "('c, 'i, 's) objdev \<Rightarrow> (goerr option \<times> ('c, 'i, 's) objdev) go" where
  "od_Flush dev =
     Ret (if od_cancelled dev then (Some (Wrap ''Device is shutdown'' ErrCanceled), dev) else od_flush dev)"

text \<open>The removal of all local files when the cache is not kept.\<close>

fun delete_list :: "('c, 'i, 's) storeParams \<Rightarrow> nat list \<Rightarrow> 'i segment list \<Rightarrow> ('c, 's) world \<Rightarrow>
    (goerr option \<times> 'i segment list \<times> ('c, 's) world) go" where
  "delete_list sp [] segments w = Ret (None, segments, w)"
| "delete_list sp (i # is) segments w =
     go_bind (DeleteFile sp (segments ! i) w) (\<lambda>(rmErr, seg, w).
     go_bind (delete_list sp is (segments[i := seg]) w) (\<lambda>(err, segments, w).
       Ret (if rmErr \<noteq> None then rmErr else err, segments, w)))"

definition od_Close :: "('c, 'i, 's) objdev \<Rightarrow> (goerr option \<times> ('c, 'i, 's) objdev) go" where
  "od_Close dev =
     (if od_cancelled dev then Ret (None, dev)
      else
        (case od_flush (dev\<lparr>od_cancelled := True\<rparr>) of
           (Some e, dev) \<Rightarrow>
             Ret (Some (Wrap ''Failed to write local cache back to remote store during shutdown'' e), dev)
         | (None, dev) \<Rightarrow>
           (if sp_persistCache (od_params dev) then Ret (None, dev)
            else go_bind (delete_list (od_params dev) [0..<length (od_segments dev)] (od_segments dev) (od_world dev))
              (\<lambda>(err, segments, w).
                Ret (map_option (Wrap ''Could not delete one or more local cache files during shutdown'') err,
                     dev\<lparr>od_segments := segments, od_world := w\<rparr>)))))"

definition objdev_ops :: "('c, 'i, 's) objdev dev_ops" where
  "objdev_ops = \<lparr>dev_Size = od_Size, dev_BlockSize = (\<lambda>_. DefaultBlockSizeBytes), dev_ReadAt = od_ReadAt,
     dev_WriteAt = od_WriteAt, dev_Trim = od_Trim, dev_Flush = od_Flush, dev_Close = od_Close\<rparr>"

end
