(* ===== verification/Objdev_Laws.thy ===== *)
theory Objdev_Laws
  imports Objdev Segment_Ops
begin

text \<open>
  The object store device as a flat byte array: the concatenation of what its segments stand for.
  Every segment must be loadable, and with a quota, when segments are evicted, what \<open>Put\<close> answers
  must be proper. A device without a quota of which every remote segment is also local (\<open>fr\<close>) takes
  every write; others take the writes that have no all-zero part in a segment.
\<close>

section \<open>Invariant and contents\<close>

definition held :: "'i segment list \<Rightarrow> nat" where
  "held segs = sum_list (map (\<lambda>seg. units seg) segs)"

text \<open>The container has no objects under the prefix of the device but those of its segments.\<close>

definition only_objects :: "('c, 'i, 's) ospec \<Rightarrow> nat \<Rightarrow> ('c, 's) world \<Rightarrow> bool" where
  "only_objects X n w \<longleftrightarrow> (\<forall>nm. x_cmap X (w_cont w) nm \<noteq> None \<and> take (length (seg_prefix X)) nm = seg_prefix X \<longrightarrow>
     (\<exists>i < n. nm = seg_name X i))"

definition od_core :: "('c, 'i, 's) ospec \<Rightarrow> nat \<Rightarrow> ('c, 'i, 's) objdev \<Rightarrow> bool" where
  "od_core X N dev \<longleftrightarrow>
     sp_ok (od_params dev) \<and> od_segmentBytes dev = int N \<and>
     od_totalBytes dev = int (N * length (od_segments dev)) \<and> int (N * length (od_segments dev)) < 2 ^ 63 \<and>
     world_ok X (od_params dev) (od_world dev) \<and> quota_ok X (od_params dev) (held (od_segments dev)) (od_world dev) \<and>
     (\<forall>i < length (od_segments dev). seg_ok X (od_params dev) i (od_segments dev ! i) (od_world dev)) \<and>
     only_objects X (length (od_segments dev)) (od_world dev)"

definition seg_mode :: "('c, 'i, 's) ospec \<Rightarrow> ('c, 'i, 's) storeParams \<Rightarrow> bool \<Rightarrow> 'i segment \<Rightarrow> bool" where
  "seg_mode X sp fr seg \<longleftrightarrow> loadable X sp seg \<and> (sp_quotaSema sp \<noteq> None \<longrightarrow> proper X seg) \<and> (fr \<longrightarrow> fresh seg)"

definition sp_mode :: "('c, 'i, 's) ospec \<Rightarrow> bool \<Rightarrow> ('c, 'i, 's) storeParams \<Rightarrow> bool" where
  "sp_mode X fr sp \<longleftrightarrow> sp_quotaSema sp \<noteq> None \<longrightarrow>
     \<not> fr \<and> sp_thickProvision sp \<and> put_proper (sp_container sp) (x_proper X)"

definition od_inv :: "('c, 'i, 's) ospec \<Rightarrow> bool \<Rightarrow> nat \<Rightarrow> ('c, 'i, 's) objdev \<Rightarrow> bool" where
  "od_inv X fr N dev \<longleftrightarrow> od_core X N dev \<and> \<not> od_cancelled dev \<and> sp_mode X fr (od_params dev) \<and>
     (\<forall>seg \<in> set (od_segments dev). seg_mode X (od_params dev) fr seg)"

definition od_blocks :: "('c, 'i, 's) ospec \<Rightarrow> ('c, 'i, 's) objdev \<Rightarrow> bytes list" where
  "od_blocks X dev = map (\<lambda>seg. seg_content X (od_params dev) seg (od_world dev)) (od_segments dev)"

definition od_content :: "('c, 'i, 's) ospec \<Rightarrow> ('c, 'i, 's) objdev \<Rightarrow> bytes" where
  "od_content X dev = concat (od_blocks X dev)"

text \<open>Replacing one segment and the world.\<close>

abbreviation od_put :: "('c, 'i, 's) objdev \<Rightarrow> nat \<Rightarrow> 'i segment \<Rightarrow> ('c, 's) world \<Rightarrow> ('c, 'i, 's) objdev" where
  "od_put dev i seg w \<equiv> dev\<lparr>od_segments := (od_segments dev)[i := seg], od_world := w\<rparr>"

abbreviation others :: "('c, 'i, 's) objdev \<Rightarrow> nat \<Rightarrow> nat" where
  "others dev i \<equiv> held (od_segments dev) - units (od_segments dev ! i)"

lemma od_invD: "od_inv X fr N dev \<Longrightarrow> od_core X N dev" "od_inv X fr N dev \<Longrightarrow> \<not> od_cancelled dev"
  by (simp_all add: od_inv_def)

lemma od_coreD:
  assumes "od_core X N dev"
  shows "sp_ok (od_params dev)" "od_segmentBytes dev = int N" "0 < N"
    "od_totalBytes dev = int (N * length (od_segments dev))" "int (N * length (od_segments dev)) < 2 ^ 63"
    "world_ok X (od_params dev) (od_world dev)" "quota_ok X (od_params dev) (held (od_segments dev)) (od_world dev)"
  using assms by (auto simp: od_core_def sp_ok_def)

lemma od_core_seg:
  "od_core X N dev \<Longrightarrow> i < length (od_segments dev) \<Longrightarrow>
     seg_ok X (od_params dev) i (od_segments dev ! i) (od_world dev)"
  by (simp add: od_core_def)

lemma held_nth: "i < length segs \<Longrightarrow> units (segs ! i) \<le> held segs"
  using elem_le_sum_list [of i "map (\<lambda>seg. units seg) segs"] by (simp add: held_def)

lemma held_update: "i < length segs \<Longrightarrow> held (segs[i := seg]) = held segs - units (segs ! i) + units seg"
  using held_nth [of i segs] by (simp add: held_def map_update sum_list_update)

lemma od_env:
  assumes "od_core X N dev" "i < length (od_segments dev)"
  shows "seg_env X (od_params dev) i (others dev i) (od_segments dev ! i) (od_world dev)"
  using od_coreD(1,6,7) [OF assms(1)] od_core_seg [OF assms] held_nth [OF assms(2)]
  by (simp add: seg_env_def)

lemma od_seg_mode:
  "od_inv X fr N dev \<Longrightarrow> i < length (od_segments dev) \<Longrightarrow> seg_mode X (od_params dev) fr (od_segments dev ! i)"
  by (simp add: od_inv_def)

lemma od_loadable:
  "od_inv X fr N dev \<Longrightarrow> i < length (od_segments dev) \<Longrightarrow> loadable X (od_params dev) (od_segments dev ! i)"
  by (drule (1) od_seg_mode) (simp add: seg_mode_def)

lemma od_fresh:
  "od_inv X fr N dev \<Longrightarrow> i < length (od_segments dev) \<Longrightarrow> fr \<Longrightarrow> fresh (od_segments dev ! i)"
  by (drule (1) od_seg_mode) (simp add: seg_mode_def)

lemma keeps_mode: "keeps seg seg' \<Longrightarrow> seg_mode X sp fr seg \<Longrightarrow> seg_mode X sp fr seg'"
  by (auto simp: keeps_def seg_mode_def loadable_def fresh_def proper_def)

lemma length_od_blocks [simp]: "length (od_blocks X dev) = length (od_segments dev)"
  by (simp add: od_blocks_def)

lemma nth_od_blocks:
  "i < length (od_segments dev) \<Longrightarrow>
     od_blocks X dev ! i = seg_content X (od_params dev) (od_segments dev ! i) (od_world dev)"
  by (simp add: od_blocks_def)

lemma od_blocks_length:
  assumes "od_core X N dev"
  shows "\<forall>b \<in> set (od_blocks X dev). length b = N"
proof
  fix b assume "b \<in> set (od_blocks X dev)"
  then obtain i where i: "i < length (od_segments dev)"
    "b = seg_content X (od_params dev) (od_segments dev ! i) (od_world dev)"
    by (auto simp: od_blocks_def in_set_conv_nth)
  then show "length b = N" using length_seg_content [OF od_core_seg [OF assms i(1)]] od_coreD(2) [OF assms] by simp
qed

lemma length_od_content:
  "od_core X N dev \<Longrightarrow> length (od_content X dev) = N * length (od_segments dev)"
  using length_concat_blocks [OF od_blocks_length] by (simp add: od_content_def)

text \<open>A step of one segment keeps the invariant and replaces its block.\<close>

lemma od_put_core:
  assumes inv: "od_core X N dev" and i: "i < length (od_segments dev)"
    and to: "seg_to X (od_params dev) i (others dev i) (od_world dev) seg w bs"
  shows "od_core X N (od_put dev i seg w)" "od_blocks X (od_put dev i seg w) = (od_blocks X dev)[i := bs]"
proof -
  let ?sp = "od_params dev" and ?segs = "od_segments dev"
  have st: "stepped X ?sp i (others dev i + units seg) (od_world dev) w" using to by (rule seg_toD)
  have seg: "seg_ok X ?sp j (?segs[i := seg] ! j) w \<and>
      seg_content X ?sp (?segs[i := seg] ! j) w = (od_blocks X dev)[i := bs] ! j" if j: "j < length ?segs" for j
  proof (cases "j = i")
    case True
    then show ?thesis using j seg_toD(1,3) [OF to] by simp
  next
    case False
    then show ?thesis
      using j st seg_ok_frame [OF od_core_seg [OF inv j], of i w] by (auto simp: stepped_def od_blocks_def)
  qed
  show "od_blocks X (od_put dev i seg w) = (od_blocks X dev)[i := bs]"
    by (rule nth_equalityI) (use seg in \<open>auto simp: od_blocks_def\<close>)
  have "quota_ok X ?sp (held (?segs[i := seg])) w" using st i by (simp add: stepped_def held_update)
  moreover have "\<forall>j < length ?segs. seg_ok X ?sp j (?segs[i := seg] ! j) w" using seg by blast
  moreover have "only_objects X (length ?segs) w"
    using inv st i by (auto simp: od_core_def only_objects_def stepped_def only_seg_def)
  ultimately show "od_core X N (od_put dev i seg w)"
    using inv st by (simp add: od_core_def stepped_def)
qed

lemma od_put_ok:
  assumes inv: "od_inv X fr N dev" and i: "i < length (od_segments dev)"
    and to: "seg_to X (od_params dev) i (others dev i) (od_world dev) seg w bs"
    and mode: "seg_mode X (od_params dev) fr seg"
  shows "od_inv X fr N (od_put dev i seg w)" "od_blocks X (od_put dev i seg w) = (od_blocks X dev)[i := bs]"
  using od_put_core [OF od_invD(1) [OF inv] i to] inv mode set_update_subset_insert [of "od_segments dev" i seg]
  by (auto simp: od_inv_def)

section \<open>Eviction\<close>

definition cands_in :: "(nat \<times> 'i segment) set \<Rightarrow> nat option \<times> int \<Rightarrow> bool" where
  "cands_in S c \<longleftrightarrow> (case fst c of None \<Rightarrow> snd c = 0 | Some i \<Rightarrow> \<exists>seg. (i, seg) \<in> S)"

lemma lru_fold:
  fixes xs :: "(nat \<times> 'i segment) list"
  assumes "fold (lru_visit k) xs (c, d) = (c', d')"
    and "cands_in S c" "cands_in S d" "\<forall>(i, seg) \<in> set xs. i \<noteq> k \<and> seg_Backed seg \<longrightarrow> (i, seg) \<in> S"
  shows "cands_in S c' \<and> cands_in S d' \<and>
    (fst c \<noteq> None \<or> fst d \<noteq> None \<or> (\<exists>(i, seg) \<in> set xs. i \<noteq> k \<and> seg_Backed seg) \<longrightarrow>
     fst c' \<noteq> None \<or> fst d' \<noteq> None)"
  using assms
proof (induction xs arbitrary: c d)
  case (Cons x xs)
  obtain i seg where x: "x = (i, seg)" by (cases x)
  obtain c1 d1 where v: "lru_visit k x (c, d) = (c1, d1)" by (cases "lru_visit k x (c, d)")
  have 1: "cands_in S c1" "cands_in S d1"
    "fst c \<noteq> None \<or> fst d \<noteq> None \<or> i \<noteq> k \<and> seg_Backed seg \<longrightarrow> fst c1 \<noteq> None \<or> fst d1 \<noteq> None"
    using v Cons.prems(2-4)
    by (auto simp: x lru_visit_def lru_better_def cands_in_def split: if_splits option.splits)
  have "fold (lru_visit k) xs (c1, d1) = (c', d')" using Cons.prems(1) v by simp
  moreover have "\<forall>(i, seg) \<in> set xs. i \<noteq> k \<and> seg_Backed seg \<longrightarrow> (i, seg) \<in> S" using Cons.prems(4) by simp
  ultimately have 2: "cands_in S c' \<and> cands_in S d' \<and>
      (fst c1 \<noteq> None \<or> fst d1 \<noteq> None \<or> (\<exists>(i, seg) \<in> set xs. i \<noteq> k \<and> seg_Backed seg) \<longrightarrow>
       fst c' \<noteq> None \<or> fst d' \<noteq> None)"
    using 1(1,2) Cons.IH by blast
  have "(\<exists>(i, seg) \<in> set (x # xs). i \<noteq> k \<and> seg_Backed seg) \<longleftrightarrow>
      i \<noteq> k \<and> seg_Backed seg \<or> (\<exists>(i, seg) \<in> set xs. i \<noteq> k \<and> seg_Backed seg)" by (simp add: x)
  with 1(3) 2 show ?case by blast
qed auto

lemma lru_pick_ok:
  fixes segs :: "'i segment list"
  assumes "j < length segs" "j \<noteq> k" "seg_Backed (segs ! j)"
  shows "\<exists>i. lru_pick k segs = Some i \<and> i < length segs \<and> i \<noteq> k \<and> seg_Backed (segs ! i)"
proof -
  let ?xs = "zip [0..<length segs] segs"
  let ?S = "{(i, seg). (i, seg) \<in> set ?xs \<and> i \<noteq> k \<and> seg_Backed seg}"
  obtain c d where f: "fold (lru_visit k) ?xs ((None, 0), (None, 0)) = (c, d)"
    by (cases "fold (lru_visit k) ?xs ((None, 0), (None, 0))")
  have "(j, segs ! j) \<in> set ?xs" using assms(1) by (auto simp: set_zip intro!: exI [of _ j])
  then have "\<exists>(i, seg) \<in> set ?xs. i \<noteq> k \<and> seg_Backed seg" using assms(2,3) by blast
  then have "cands_in ?S c" "cands_in ?S d" "fst c \<noteq> None \<or> fst d \<noteq> None"
    using lru_fold [OF f, of ?S] by (auto simp: cands_in_def)
  then obtain i seg where "lru_pick k segs = Some i" "(i, seg) \<in> ?S"
    using f by (cases c; cases d) (auto simp: lru_pick_def cands_in_def split: option.splits)
  then show ?thesis by (auto simp: set_zip)
qed

lemma backed_iff:
  assumes "od_inv X fr N dev" "i < length (od_segments dev)"
  shows "seg_Backed (od_segments dev ! i) \<longleftrightarrow> sg_localFile (od_segments dev ! i) \<noteq> None"
  using od_core_seg [OF od_invD(1) [OF assms(1)] assms(2)] by (auto simp: seg_ok_def local_ok_def split: option.splits)

lemma held_pos: "0 < held segs \<Longrightarrow> \<exists>j < length segs. sg_localFile (segs ! j) \<noteq> None"
proof (rule ccontr)
  assume "0 < held segs" "\<not> (\<exists>j < length segs. sg_localFile (segs ! j) \<noteq> None)"
  then have "\<forall>seg \<in> set segs. sg_localFile seg = None" by (auto simp: in_set_conv_nth)
  then have "held segs = 0" by (simp add: held_def)
  with \<open>0 < held segs\<close> show False by simp
qed

lemma removeLRU_ok:
  assumes inv: "od_inv X False N dev" and k: "k < length (od_segments dev)" "sg_localFile (od_segments dev ! k) = None"
    and quota: "sp_quotaSema (od_params dev) \<noteq> None" and pos: "0 < held (od_segments dev)"
  shows "\<exists>i dev'. removeLeastRecentUsed k dev = Ret (i, None, dev') \<and> od_inv X False N dev' \<and>
    od_blocks X dev' = od_blocks X dev \<and> od_params dev' = od_params dev \<and>
    length (od_segments dev') = length (od_segments dev) \<and> od_segments dev' ! k = od_segments dev ! k \<and>
    Suc (held (od_segments dev')) = held (od_segments dev)"
proof -
  obtain j where j: "j < length (od_segments dev)" "sg_localFile (od_segments dev ! j) \<noteq> None"
    using held_pos [OF pos] by blast
  then have "j \<noteq> k" using k(2) by auto
  with j obtain i where i: "lru_pick k (od_segments dev) = Some i" "i < length (od_segments dev)" "i \<noteq> k"
    "seg_Backed (od_segments dev ! i)"
    using lru_pick_ok [of j "od_segments dev" k] backed_iff [OF inv j(1)] by blast
  have env: "seg_env X (od_params dev) i (others dev i) (od_segments dev ! i) (od_world dev)"
    by (rule od_env [OF od_invD(1) [OF inv] i(2)])
  obtain seg w where d: "DeleteFile (od_params dev) (od_segments dev ! i) (od_world dev) = Ret (None, seg, w)"
    "seg_to X (od_params dev) i (others dev i) (od_world dev) seg w
       (seg_content X (od_params dev) (od_segments dev ! i) (od_world dev))" "sg_localFile seg = None"
    "put_proper (sp_container (od_params dev)) (x_proper X) \<longrightarrow> proper X (od_segments dev ! i) \<longrightarrow> proper X seg"
    using DeleteFile_ok [OF env] by blast
  have "seg_mode X (od_params dev) False seg"
    using d(4) quota inv od_seg_mode [OF inv i(2)] by (auto simp: od_inv_def sp_mode_def seg_mode_def loadable_def)
  note put = od_put_ok [OF inv i(2) d(2) this]
  have "(od_blocks X dev)[i := seg_content X (od_params dev) (od_segments dev ! i) (od_world dev)] = od_blocks X dev"
    using nth_od_blocks [OF i(2), of X] by (metis list_update_id)
  moreover have "Suc (held ((od_segments dev)[i := seg])) = held (od_segments dev)"
    using held_update [OF i(2), of seg] held_nth [OF i(2)] i(4) backed_iff [OF inv i(2)] d(3) by (auto split: if_splits)
  ultimately show ?thesis
    using d(1) i put
    by (intro exI [of _ "int i"] exI [of _ "od_put dev i seg w"]) (simp add: removeLeastRecentUsed_def)
qed

section \<open>One segment of a request\<close>

text \<open>What an access leaves of the bytes of its segment, and in the buffer.\<close>

definition acc_bytes :: "bool \<Rightarrow> bytes \<Rightarrow> nat \<Rightarrow> bytes \<Rightarrow> bytes" where
  "acc_bytes readOp old pos buf = (if readOp then old else blit old pos buf)"

definition acc_buf :: "bool \<Rightarrow> bytes \<Rightarrow> nat \<Rightarrow> bytes \<Rightarrow> bytes" where
  "acc_buf readOp old pos buf = (if readOp then chunk old pos (length buf) else buf)"

lemma access_ok:
  assumes inv: "od_inv X fr N dev" and i: "i < length (od_segments dev)"
    and room: "sg_localFile (od_segments dev ! i) \<noteq> None \<or> has_room X (od_params dev) (others dev i)"
    and buf: "buf \<noteq> []" "pos + length buf \<le> N" and tk: "readOp \<or> fr \<or> \<not> IsZeros buf"
  shows "\<exists>dev'. seg_access readOp i buf (int pos) dev =
      Ret (int (length buf), None, acc_buf readOp (od_blocks X dev ! i) pos buf, dev') \<and> od_inv X fr N dev' \<and>
    od_blocks X dev' = (od_blocks X dev)[i := acc_bytes readOp (od_blocks X dev ! i) pos buf] \<and>
    length (od_segments dev') = length (od_segments dev)"
proof -
  let ?seg = "od_segments dev ! i" and ?sp = "od_params dev" and ?w = "od_world dev"
  note env = od_env [OF od_invD(1) [OF inv] i] and ld = od_loadable [OF inv i]
  have range: "0 \<le> int pos" "int pos + int (length buf) \<le> sp_segmentBytes ?sp"
    using od_coreD(2) [OF od_invD(1) [OF inv]] buf(2) by auto
  have fr: "fr \<longrightarrow> fresh ?seg" using od_fresh [OF inv i] by blast
  have "\<exists>seg' w'. seg_access readOp i buf (int pos) dev =
      Ret (int (length buf), None, acc_buf readOp (od_blocks X dev ! i) pos buf, od_put dev i seg' w') \<and>
      seg_to X ?sp i (others dev i) ?w seg' w' (acc_bytes readOp (od_blocks X dev ! i) pos buf) \<and>
      keeps ?seg seg'"
  proof (cases readOp)
    case True
    have "sg_localFile ?seg \<noteq> None \<or> has_room X ?sp (others dev i) \<or> sg_remoteItem ?seg = None" using room by blast
    from seg_ReadAt_ok [OF env ld this range] obtain seg' w' where "seg_ReadAt ?sp ?seg buf (int pos) ?w =
        Ret (int (length buf), None, chunk (seg_content X ?sp ?seg ?w) (nat (int pos)) (length buf), seg', w')"
      "seg_to X ?sp i (others dev i) ?w seg' w' (seg_content X ?sp ?seg ?w)" "keeps ?seg seg'"
      by blast
    then show ?thesis
      using True nth_od_blocks [OF i, of X]
      by (intro exI [of _ seg'] exI [of _ w']) (simp add: seg_access_def acc_buf_def acc_bytes_def)
  next
    case False
    have "sg_localFile ?seg \<noteq> None \<or> has_room X ?sp (others dev i) \<or> IsZeros buf" using room by blast
    moreover have "fresh ?seg \<or> \<not> IsZeros buf" using tk False fr by blast
    ultimately obtain seg' w' where "seg_WriteAt ?sp ?seg buf (int pos) ?w = Ret (int (length buf), None, seg', w')"
      "seg_to X ?sp i (others dev i) ?w seg' w' (blit (seg_content X ?sp ?seg ?w) (nat (int pos)) buf)"
      "keeps ?seg seg'"
      using seg_WriteAt_ok [OF env ld buf(1) _ _ range] by blast
    then show ?thesis
      using False nth_od_blocks [OF i, of X]
      by (intro exI [of _ seg'] exI [of _ w']) (simp add: seg_access_def acc_buf_def acc_bytes_def)
  qed
  then obtain seg' w' where a: "seg_access readOp i buf (int pos) dev =
      Ret (int (length buf), None, acc_buf readOp (od_blocks X dev ! i) pos buf, od_put dev i seg' w')"
    "seg_to X ?sp i (others dev i) ?w seg' w' (acc_bytes readOp (od_blocks X dev ! i) pos buf)"
    "keeps ?seg seg'" by blast
  from od_put_ok [OF inv i a(2) keeps_mode [OF a(3) od_seg_mode [OF inv i]]] a(1) show ?thesis by auto
qed

lemma access_full:
  assumes inv: "od_inv X fr N dev" and i: "i < length (od_segments dev)"
    and room: "sg_localFile (od_segments dev ! i) = None" "\<not> has_room X (od_params dev) (others dev i)"
    and nz: "readOp \<or> \<not> IsZeros buf" "readOp \<longrightarrow> sg_remoteItem (od_segments dev ! i) \<noteq> None"
  shows "\<exists>e dev'. seg_access readOp i buf pos dev = Ret (0, Some e, buf, dev') \<and> errIs e ErrCapacityClaim \<and>
    od_inv X fr N dev' \<and> od_blocks X dev' = od_blocks X dev \<and> od_params dev' = od_params dev \<and>
    length (od_segments dev') = length (od_segments dev) \<and> sg_localFile (od_segments dev' ! i) = None \<and>
    held (od_segments dev') = held (od_segments dev)"
proof -
  let ?seg = "od_segments dev ! i" and ?sp = "od_params dev" and ?w = "od_world dev"
  note env = od_env [OF od_invD(1) [OF inv] i]
  have "\<exists>e seg' w'. seg_access readOp i buf pos dev = Ret (0, Some e, buf, od_put dev i seg' w') \<and>
      errIs e ErrCapacityClaim \<and> seg_to X ?sp i (others dev i) ?w seg' w' (seg_content X ?sp ?seg ?w) \<and>
      sg_localFile seg' = None \<and> sg_remoteItem seg' = sg_remoteItem ?seg"
  proof (cases readOp)
    case True
    then obtain e seg' w' where "seg_ReadAt ?sp ?seg buf pos ?w = Ret (0, Some e, buf, seg', w')" "errIs e ErrCapacityClaim"
      "seg_to X ?sp i (others dev i) ?w seg' w' (seg_content X ?sp ?seg ?w)" "sg_localFile seg' = None"
      "sg_remoteItem seg' = sg_remoteItem ?seg"
      using seg_ReadAt_full [OF env room, of buf pos] nz by blast
    then show ?thesis
      using True by (intro exI [of _ e] exI [of _ seg'] exI [of _ w']) (simp add: seg_access_def)
  next
    case False
    then obtain e seg' w' where "seg_WriteAt ?sp ?seg buf pos ?w = Ret (0, Some e, seg', w')" "errIs e ErrCapacityClaim"
      "seg_to X ?sp i (others dev i) ?w seg' w' (seg_content X ?sp ?seg ?w)" "sg_localFile seg' = None"
      "sg_remoteItem seg' = sg_remoteItem ?seg"
      using seg_WriteAt_full [OF env room, of buf pos] nz by blast
    then show ?thesis
      using False by (intro exI [of _ e] exI [of _ seg'] exI [of _ w']) (simp add: seg_access_def)
  qed
  then obtain e seg' w' where a: "seg_access readOp i buf pos dev = Ret (0, Some e, buf, od_put dev i seg' w')"
    "errIs e ErrCapacityClaim" "seg_to X ?sp i (others dev i) ?w seg' w' (od_blocks X dev ! i)"
    "sg_localFile seg' = None" "sg_remoteItem seg' = sg_remoteItem ?seg"
    unfolding nth_od_blocks [OF i, of X, symmetric] by blast
  have "keeps ?seg seg'" using a(5) room(1) by (simp add: keeps_def)
  from od_put_ok [OF inv i a(3) keeps_mode [OF this od_seg_mode [OF inv i]]] a(1,2,4) i room(1) show ?thesis
    by (intro exI [of _ e] exI [of _ "od_put dev i seg' w'"]) (simp add: held_update)
qed

text \<open>A read of a segment that was never written needs no room.\<close>

lemma access_unwritten:
  assumes inv: "od_inv X fr N dev" and i: "i < length (od_segments dev)"
    and seg: "sg_localFile (od_segments dev ! i) = None" "sg_remoteItem (od_segments dev ! i) = None"
    and buf: "pos + length buf \<le> N"
  shows "\<exists>dev'. seg_access True i buf (int pos) dev =
      Ret (int (length buf), None, acc_buf True (od_blocks X dev ! i) pos buf, dev') \<and> od_inv X fr N dev' \<and>
    od_blocks X dev' = (od_blocks X dev)[i := acc_bytes True (od_blocks X dev ! i) pos buf] \<and>
    length (od_segments dev') = length (od_segments dev)"
proof -
  let ?seg = "od_segments dev ! i" and ?sp = "od_params dev" and ?w = "od_world dev"
  have range: "0 \<le> int pos" "int pos + int (length buf) \<le> sp_segmentBytes ?sp"
    using od_coreD(2) [OF od_invD(1) [OF inv]] buf by auto
  obtain seg' w' where a: "seg_ReadAt ?sp ?seg buf (int pos) ?w =
      Ret (int (length buf), None, chunk (od_blocks X dev ! i) pos (length buf), seg', w')"
    "seg_to X ?sp i (others dev i) ?w seg' w' (od_blocks X dev ! i)" "keeps ?seg seg'"
    using seg_ReadAt_ok [OF od_env [OF od_invD(1) [OF inv] i] od_loadable [OF inv i] _ range] seg(2)
    unfolding nth_od_blocks [OF i, of X, symmetric] nat_int by blast
  from od_put_ok [OF inv i a(2) keeps_mode [OF a(3) od_seg_mode [OF inv i]]] a show ?thesis
    by (intro exI [of _ "od_put dev i seg' w'"]) (simp add: seg_access_def acc_buf_def acc_bytes_def)
qed

text \<open>The loop that frees capacity: one eviction makes room.\<close>

lemma retry_done:
  assumes "seg_access readOp i buf pos dev = Ret (n, None, buf', dev')"
  shows "seg_retry tries readOp i buf pos dev = Ret (n, None, buf', dev')"
  using assms by (subst seg_retry.simps) simp

lemma room_after_eviction:
  assumes "quota_ok X sp n w" "\<not> has_room X sp n"
  shows "0 < n" "has_room X sp (n - 1)"
  using assms by (auto simp: quota_ok_def has_room_def split: option.splits)

lemma seg_retry_ok:
  assumes inv: "od_inv X fr N dev" and i: "i < length (od_segments dev)"
    and buf: "buf \<noteq> []" "pos + length buf \<le> N" and tk: "readOp \<or> fr \<or> \<not> IsZeros buf"
  shows "\<exists>dev'. seg_retry maxCapTries readOp i buf (int pos) dev =
      Ret (int (length buf), None, acc_buf readOp (od_blocks X dev ! i) pos buf, dev') \<and> od_inv X fr N dev' \<and>
    od_blocks X dev' = (od_blocks X dev)[i := acc_bytes readOp (od_blocks X dev ! i) pos buf] \<and>
    length (od_segments dev') = length (od_segments dev)"
proof -
  let ?seg = "od_segments dev ! i" and ?sp = "od_params dev"
  consider (room) "sg_localFile ?seg \<noteq> None \<or> has_room X ?sp (others dev i)"
    | (unwritten) "sg_localFile ?seg = None" "sg_remoteItem ?seg = None" readOp
    | (full) "sg_localFile ?seg = None" "\<not> has_room X ?sp (others dev i)" "readOp \<longrightarrow> sg_remoteItem ?seg \<noteq> None"
    by blast
  then show ?thesis
  proof cases
    case room
    from access_ok [OF inv i room buf tk] show ?thesis by (blast intro: retry_done)
  next
    case unwritten
    from access_unwritten [OF inv i unwritten(1,2) buf(2)] unwritten(3) show ?thesis by (auto intro: retry_done)
  next
    case full
    then have quota: "sp_quotaSema ?sp \<noteq> None" by (auto simp: has_room_def)
    then have "\<not> fr" using inv by (auto simp: od_inv_def sp_mode_def)
    then have inv: "od_inv X False N dev" and nz: "readOp \<or> \<not> IsZeros buf" using inv tk by auto
    have oth: "others dev i = held (od_segments dev)" using full(1) by simp
    obtain e dev1 where 1: "seg_access readOp i buf (int pos) dev = Ret (0, Some e, buf, dev1)" "errIs e ErrCapacityClaim"
      "od_inv X False N dev1" "od_blocks X dev1 = od_blocks X dev" "od_params dev1 = ?sp"
      "length (od_segments dev1) = length (od_segments dev)" "sg_localFile (od_segments dev1 ! i) = None"
      "held (od_segments dev1) = held (od_segments dev)"
      using access_full [OF inv i full(1,2) nz full(3)] by blast
    have room: "0 < held (od_segments dev)" "has_room X ?sp (held (od_segments dev) - 1)"
      using room_after_eviction [OF od_coreD(7) [OF od_invD(1) [OF inv]]] full(2) oth by simp_all
    obtain k dev2 where 2: "removeLeastRecentUsed i dev1 = Ret (k, None, dev2)" "od_inv X False N dev2"
      "od_blocks X dev2 = od_blocks X dev1" "od_params dev2 = od_params dev1"
      "length (od_segments dev2) = length (od_segments dev1)" "od_segments dev2 ! i = od_segments dev1 ! i"
      "Suc (held (od_segments dev2)) = held (od_segments dev1)"
      using removeLRU_ok [OF 1(3), of i] 1(5,6,7,8) i room(1) quota by auto
    have "held (od_segments dev2) = held (od_segments dev) - 1" using 2(7) 1(8) by simp
    then have "has_room X (od_params dev2) (others dev2 i)" using room(2) 1(5,7) 2(4,6) by simp
    from access_ok [OF 2(2), of i buf pos readOp] this buf nz i 1(6) 2(5) obtain dev3 where 3:
      "seg_access readOp i buf (int pos) dev2 =
        Ret (int (length buf), None, acc_buf readOp (od_blocks X dev2 ! i) pos buf, dev3)" "od_inv X False N dev3"
      "od_blocks X dev3 = (od_blocks X dev2)[i := acc_bytes readOp (od_blocks X dev2 ! i) pos buf]"
      "length (od_segments dev3) = length (od_segments dev2)"
      by auto
    have "seg_retry maxCapTries readOp i buf (int pos) dev = seg_retry (maxCapTries - 1) readOp i buf (int pos) dev2"
      using 1(1,2) 2(1) by (subst seg_retry.simps) (simp add: maxCapTries_def)
    then show ?thesis
      using retry_done [OF 3(1)] 3 1(4,6) 2(3,5) \<open>\<not> fr\<close> by auto
  qed
qed

end
