(* ===== verification/Objdev_Disk.thy ===== *)
theory Objdev_Disk
  imports Objdev_Laws
begin

text \<open>
  The object store device satisfies the contract of a block device: requests are split over the
  segments, flushing uploads the dirty ones. The interpretation of the contract gives the sessions of
  theory \<open>Objdev_Props\<close>; closing leaves every segment stored and no local file.
\<close>

section \<open>Requests over several segments\<close>

text \<open>The parts of a request that starts at \<open>pos\<close> in a segment.\<close>

function parts :: "nat \<Rightarrow> nat \<Rightarrow> bytes \<Rightarrow> bytes list" where
  "parts N pos buf =
     (if buf = [] \<or> N \<le> pos then [] else take (N - pos) buf # parts N 0 (drop (N - pos) buf))"
  by pat_completeness auto
termination by (relation "measure (\<lambda>(N, pos, buf). length buf)") (auto simp flip: length_greater_0_conv)

declare parts.simps [simp del]

lemma parts_nil [simp]: "parts N pos [] = []"
  by (simp add: parts.simps)

lemma parts_step: "buf \<noteq> [] \<Longrightarrow> pos < N \<Longrightarrow> parts N pos buf = take (N - pos) buf # parts N 0 (drop (N - pos) buf)"
  by (subst parts.simps) simp

lemma io_step:
  assumes inv: "od_inv X fr N dev" and pos: "pos < N" and t: "t < length buf"
    and s: "s < length (od_segments dev)" and k: "k = min (length buf - t) (N - pos)"
    and tk: "readOp \<or> fr \<or> \<not> IsZeros (take k (drop t buf))"
  shows "\<exists>dev' buf'. io_loop readOp (int (length (od_segments dev))) buf (int t) (int (length buf - t)) (int s) (int pos) dev =
      io_loop readOp (int (length (od_segments dev))) buf' (int (t + k)) (int (length buf' - (t + k))) (int (Suc s)) 0 dev' \<and>
    od_inv X fr N dev' \<and> length (od_segments dev') = length (od_segments dev) \<and> length buf' = length buf \<and>
    buf' = (if readOp then blit buf t (chunk (od_content X dev) (N * s + pos) k) else buf) \<and>
    od_content X dev' = (if readOp then od_content X dev else blit (od_content X dev) (N * s + pos) (take k (drop t buf)))"
proof -
  let ?b = "take k (drop t buf)" and ?blk = "od_blocks X dev ! s"
  have lb: "length ?b = k" and kN: "pos + k \<le> N" "0 < k" "t + k \<le> length buf" using t pos by (auto simp: k)
  then have ne: "?b \<noteq> []" "pos + length ?b \<le> N" by auto
  obtain dev' where r: "seg_retry maxCapTries readOp s ?b (int pos) dev =
      Ret (int (length ?b), None, acc_buf readOp ?blk pos ?b, dev')" "od_inv X fr N dev'"
    "od_blocks X dev' = (od_blocks X dev)[s := acc_bytes readOp ?blk pos ?b]"
    "length (od_segments dev') = length (od_segments dev)"
    using seg_retry_ok [OF inv s ne tk] by blast
  define buf1 where "buf1 = blit buf t (acc_buf readOp ?blk pos ?b)"
  have la: "length (acc_buf readOp ?blk pos ?b) = k"
    using od_blocks_length [OF od_invD(1) [OF inv]] s kN lb nth_mem [of s "od_blocks X dev"] by (auto simp: acc_buf_def)
  then have len: "length buf1 = length buf" using kN by (simp add: buf1_def)
  have sl: "(if int N - int pos < int (length buf - t) then go_slice (drop t buf) 0 (int N - int pos) else Ret (drop t buf)) = Ret ?b"
    using pos t by (auto simp: k min_def chunk_def nat_diff_distrib)
  have "io_loop readOp (int (length (od_segments dev))) buf (int t) (int (length buf - t)) (int s) (int pos) dev =
      io_loop readOp (int (length (od_segments dev))) buf1 (int t + int k) (int (length buf - t) - int k) (int s + 1) 0 dev'"
    using t s r(1) sl lb od_coreD(2) [OF od_invD(1) [OF inv]] by (subst io_loop.simps) (simp add: Let_def buf1_def)
  moreover have "int t + int k = int (t + k)" "int (length buf - t) - int k = int (length buf1 - (t + k))" "int s + 1 = int (Suc s)"
    using kN len by auto
  ultimately have "io_loop readOp (int (length (od_segments dev))) buf (int t) (int (length buf - t)) (int s) (int pos) dev =
      io_loop readOp (int (length (od_segments dev))) buf1 (int (t + k)) (int (length buf1 - (t + k))) (int (Suc s)) 0 dev'"
    by (simp only:)
  moreover have "buf1 = (if readOp then blit buf t (chunk (od_content X dev) (N * s + pos) k) else buf)"
    using chunk_in_block [OF od_blocks_length [OF od_invD(1) [OF inv]], of s pos k] s kN lb blit_chunk_id [of t k buf]
    by (simp add: buf1_def acc_buf_def od_content_def chunk_def)
  moreover have "od_content X dev' = (if readOp then od_content X dev else blit (od_content X dev) (N * s + pos) ?b)"
    using r(3) blit_in_block [OF od_blocks_length [OF od_invD(1) [OF inv]], of s pos ?b] s kN lb
    by (simp add: od_content_def acc_bytes_def)
  ultimately show ?thesis using r(2,4) len by blast
qed

text \<open>The effect of the first part and of the rest make the effect of the whole.\<close>

lemma join_read:
  assumes "a + n \<le> length C" "k \<le> n" "k < n \<Longrightarrow> b = a + k" "n = length buf - t" "t \<le> length buf"
  shows "take (t + k) (blit buf t (chunk C a k)) @ chunk C b (n - k) = take t buf @ chunk C a n"
proof -
  have "take (t + k) (blit buf t (chunk C a k)) = take t buf @ chunk C a k"
    using assms by (simp add: blit_def min_def)
  moreover have "chunk C a k @ chunk C b (n - k) = chunk C a n"
    using assms(2,3) chunk_append_chunk [of C a k "n - k"] by (cases "k < n") auto
  ultimately show ?thesis by simp
qed

lemma join_write:
  assumes "a + length ys \<le> length C" "k \<le> length ys" "k < length ys \<Longrightarrow> b = a + k"
  shows "blit (blit C a (take k ys)) b (drop k ys) = blit C a ys"
  using assms blit_append [of a "take k ys" "drop k ys" C] by (cases "k < length ys") auto

lemma io_loop_ok:
  assumes "od_inv X fr N dev" "pos < N" "t \<le> length buf"
    and "N * s + pos + (length buf - t) \<le> N * length (od_segments dev)"
    and "readOp \<or> fr \<or> (\<forall>p \<in> set (parts N pos (drop t buf)). \<not> IsZeros p)"
  shows "\<exists>dev'. io_loop readOp (int (length (od_segments dev))) buf (int t) (int (length buf - t)) (int s) (int pos) dev =
      Ret (int (length buf), None,
        if readOp then take t buf @ chunk (od_content X dev) (N * s + pos) (length buf - t) else buf, dev') \<and>
    od_inv X fr N dev' \<and>
    od_content X dev' = (if readOp then od_content X dev else blit (od_content X dev) (N * s + pos) (drop t buf))"
  using assms
proof (induction "length buf - t" arbitrary: dev pos t s buf rule: less_induct)
  case less
  show ?case
  proof (cases "t = length buf")
    case True
    then show ?thesis using less.prems(1) by (intro exI [of _ dev]) (simp add: io_loop.simps)
  next
    case False
    then have t: "t < length buf" using less.prems(3) by simp
    define k where "k = min (length buf - t) (N - pos)"
    let ?b = "take k (drop t buf)"
    have k: "0 < k" "t + k \<le> length buf" "pos + k \<le> N" "t + k < length buf \<Longrightarrow> pos + k = N"
      using t less.prems(2) by (auto simp: k_def)
    have "N * s < N * length (od_segments dev)" using less.prems(4) t by linarith
    then have s: "s < length (od_segments dev)" by simp
    have b: "?b = take (N - pos) (drop t buf)" by (auto simp: k_def min_def)
    have ps: "parts N pos (drop t buf) = ?b # parts N 0 (drop (N - pos) (drop t buf))"
      using parts_step [of "drop t buf" pos N] t less.prems(2) b by simp
    then have tk: "readOp \<or> fr \<or> \<not> IsZeros ?b" using less.prems(5) by auto
    obtain dev1 buf1 where 1: "io_loop readOp (int (length (od_segments dev))) buf (int t) (int (length buf - t)) (int s) (int pos) dev =
        io_loop readOp (int (length (od_segments dev))) buf1 (int (t + k)) (int (length buf1 - (t + k))) (int (Suc s)) 0 dev1"
      "od_inv X fr N dev1" "length (od_segments dev1) = length (od_segments dev)" "length buf1 = length buf"
      "buf1 = (if readOp then blit buf t (chunk (od_content X dev) (N * s + pos) k) else buf)"
      "od_content X dev1 = (if readOp then od_content X dev else blit (od_content X dev) (N * s + pos) ?b)"
      using io_step [OF less.prems(1,2) t s k_def tk] by blast
    have "N * Suc s + 0 + (length buf1 - (t + k)) \<le> N * length (od_segments dev1)"
    proof (cases "t + k < length buf")
      case True
      then show ?thesis using k(4) less.prems(4) 1(3,4) by simp
    next
      case False
      then show ?thesis using 1(3,4) mult_le_mono2 [of "Suc s" "length (od_segments dev)" N] s by simp
    qed
    moreover have "readOp \<or> fr \<or> (\<forall>p \<in> set (parts N 0 (drop (t + k) buf1)). \<not> IsZeros p)"
    proof (cases "t + k < length buf")
      case True
      then have "N - pos = k" using k(4) by simp
      then have "drop (N - pos) (drop t buf) = drop (t + k) buf" by (simp add: add.commute)
      then show ?thesis using ps less.prems(5) 1(5) by auto
    next
      case False
      then show ?thesis using 1(4) by simp
    qed
    moreover have "length buf1 - (t + k) < length buf - t" "0 < N" "t + k \<le> length buf1"
      using 1(4) k t less.prems(2) by auto
    ultimately obtain dev2 where 2: "io_loop readOp (int (length (od_segments dev1))) buf1 (int (t + k)) (int (length buf1 - (t + k))) (int (Suc s)) (int 0) dev1 =
        Ret (int (length buf1), None,
          if readOp then take (t + k) buf1 @ chunk (od_content X dev1) (N * Suc s + 0) (length buf1 - (t + k)) else buf1, dev2)"
      "od_inv X fr N dev2"
      "od_content X dev2 = (if readOp then od_content X dev1 else blit (od_content X dev1) (N * Suc s + 0) (drop (t + k) buf1))"
      using less.hyps [of buf1 "t + k" dev1 0 "Suc s"] 1(2) by blast
    let ?C = "od_content X dev" and ?a = "N * s + pos" and ?n = "length buf - t"
    have lenC: "?a + ?n \<le> length ?C" using less.prems(4) length_od_content [OF od_invD(1) [OF less.prems(1)]] by simp
    have kn: "k \<le> ?n" "k < ?n \<Longrightarrow> N * Suc s = ?a + k" using k by auto
    have n: "length buf1 - (t + k) = ?n - k" "drop (t + k) buf = drop k (drop t buf)"
      using 1(4) by (simp_all add: add.commute)
    show ?thesis
    proof (cases readOp)
      case True
      then have "take (t + k) buf1 @ chunk ?C (N * Suc s) (?n - k) = take t buf @ chunk ?C ?a ?n"
        using join_read [OF lenC kn _ less.prems(3)] 1(5) by simp
      then show ?thesis using True 1(1,3,4,6) 2 n(1) by (intro exI [of _ dev2]) simp
    next
      case False
      then have "blit (od_content X dev1) (N * Suc s) (drop (t + k) buf) = blit ?C ?a (drop t buf)"
        using join_write [of ?a "drop t buf" ?C k "N * Suc s"] lenC kn 1(6) n(2) by simp
      then show ?thesis using False 1(1,3,5) 2 by (intro exI [of _ dev2]) simp
    qed
  qed
qed

lemma ioAt_ok:
  assumes inv: "od_inv X fr N dev" and pos: "0 \<le> pos" "pos + int (length buf) \<le> int (length (od_content X dev))"
    and tk: "readOp \<or> fr \<or> (\<forall>p \<in> set (parts N (nat pos mod N) buf). \<not> IsZeros p)"
  shows "\<exists>dev'. ioAt readOp dev buf pos = Ret (int (length buf), None,
      if readOp then chunk (od_content X dev) (nat pos) (length buf) else buf, dev') \<and> od_inv X fr N dev' \<and>
    od_content X dev' = (if readOp then od_content X dev else blit (od_content X dev) (nat pos) buf)"
proof -
  obtain p where p: "pos = int p" using pos(1) by (metis nonneg_int_cases)
  have N: "0 < N" "od_segmentBytes dev = int N" using od_coreD(2,3) [OF od_invD(1) [OF inv]] by simp_all
  have len: "length (od_content X dev) = N * length (od_segments dev)" by (rule length_od_content [OF od_invD(1) [OF inv]])
  have split: "N * (p div N) + p mod N = p" by simp
  have "ioAt readOp dev buf pos =
      io_loop readOp (int (length (od_segments dev))) buf (int 0) (int (length buf - 0)) (int (p div N)) (int (p mod N)) dev"
    using od_invD(2) [OF inv] od_coreD(4) [OF od_invD(1) [OF inv]] N pos p len
    by (simp add: ioAt_def Let_def zdiv_int minus_div_mult_eq_mod zmod_int)
  then show ?thesis
    using io_loop_ok [OF inv, of "p mod N" 0 buf "p div N" readOp] N(1) pos(2) tk len p split
    by (cases readOp) simp_all
qed

section \<open>Flushing and closing\<close>

lemma flush_list_ok:
  assumes "od_inv X fr N dev" "\<forall>i \<in> set is. i < length (od_segments dev)"
  shows "\<exists>segs w. flush_list (od_params dev) is (od_segments dev) (od_world dev) = (None, segs, w) \<and>
    od_inv X fr N (dev\<lparr>od_segments := segs, od_world := w\<rparr>) \<and>
    od_blocks X (dev\<lparr>od_segments := segs, od_world := w\<rparr>) = od_blocks X dev \<and> length segs = length (od_segments dev) \<and>
    (\<forall>j < length segs. seg_Dirty (segs ! j) \<longrightarrow> seg_Dirty (od_segments dev ! j) \<and> j \<notin> set is)"
  using assms
proof (induction "is" arbitrary: dev)
  case Nil
  then show ?case by simp
next
  case (Cons i "is")
  let ?sp = "od_params dev" and ?segs = "od_segments dev"
  have i: "i < length ?segs" using Cons.prems(2) by simp
  obtain seg w where f: "seg_Flush ?sp (?segs ! i) (flushBuf (sp_segmentBytes ?sp)) (od_world dev) = (None, seg, w)"
    "seg_to X ?sp i (others dev i) (od_world dev) seg w (seg_content X ?sp (?segs ! i) (od_world dev))"
    "\<not> seg_Dirty seg" "fresh (?segs ! i) \<longrightarrow> fresh seg" "loadable X ?sp (?segs ! i) \<longrightarrow> loadable X ?sp seg"
    "put_proper (sp_container ?sp) (x_proper X) \<longrightarrow> proper X (?segs ! i) \<longrightarrow> proper X seg"
    using seg_Flush_ok [OF od_env [OF od_invD(1) [OF Cons.prems(1)] i]] by blast
  let ?dev = "od_put dev i seg w"
  have "seg_mode X ?sp fr seg"
    using f(4-6) od_seg_mode [OF Cons.prems(1) i] Cons.prems(1) by (auto simp: seg_mode_def od_inv_def sp_mode_def)
  from od_put_ok [OF Cons.prems(1) i f(2) this] have 1: "od_inv X fr N ?dev" "od_blocks X ?dev = od_blocks X dev"
    using nth_od_blocks [OF i, of X] by (simp_all, metis list_update_id)
  from Cons.IH [OF 1(1)] Cons.prems(2) obtain segs w' where
    "flush_list ?sp is (?segs[i := seg]) w = (None, segs, w')"
    "od_inv X fr N (dev\<lparr>od_segments := segs, od_world := w'\<rparr>)"
    "od_blocks X (dev\<lparr>od_segments := segs, od_world := w'\<rparr>) = od_blocks X ?dev" "length segs = length ?segs"
    "\<forall>j < length segs. seg_Dirty (segs ! j) \<longrightarrow> seg_Dirty (?segs[i := seg] ! j) \<and> j \<notin> set is"
    by auto
  then show ?case using f(1,3) 1(2) i by (intro exI [of _ segs] exI [of _ w']) (auto simp: nth_list_update split: if_splits)
qed

lemma od_flush_ok:
  assumes inv: "od_inv X fr N dev"
  shows "\<exists>dev'. od_flush dev = (None, dev') \<and> od_inv X fr N dev' \<and> od_blocks X dev' = od_blocks X dev \<and>
    (\<forall>seg \<in> set (od_segments dev'). \<not> seg_Dirty seg) \<and> od_params dev' = od_params dev \<and>
    od_totalBytes dev' = od_totalBytes dev"
proof -
  let ?l = "filter (\<lambda>i. seg_Dirty (od_segments dev ! i)) [0..<length (od_segments dev)]"
  obtain segs w where "flush_list (od_params dev) ?l (od_segments dev) (od_world dev) = (None, segs, w)"
    "od_inv X fr N (dev\<lparr>od_segments := segs, od_world := w\<rparr>)"
    "od_blocks X (dev\<lparr>od_segments := segs, od_world := w\<rparr>) = od_blocks X dev" "length segs = length (od_segments dev)"
    "\<forall>j < length segs. seg_Dirty (segs ! j) \<longrightarrow> seg_Dirty (od_segments dev ! j) \<and> j \<notin> set ?l"
    using flush_list_ok [OF inv, of ?l] by auto
  then show ?thesis by (auto simp: od_flush_def in_set_conv_nth)
qed

text \<open>Evicting everything: all segments become remote.\<close>

text \<open>Evicting everything: all segments become remote.\<close>

lemma delete_list_ok:
  assumes "od_core X N dev" "\<forall>i \<in> set is. i < length (od_segments dev)"
  shows "\<exists>segs w. delete_list (od_params dev) is (od_segments dev) (od_world dev) = Ret (None, segs, w) \<and>
    od_core X N (dev\<lparr>od_segments := segs, od_world := w\<rparr>) \<and>
    od_blocks X (dev\<lparr>od_segments := segs, od_world := w\<rparr>) = od_blocks X dev \<and> length segs = length (od_segments dev) \<and>
    (\<forall>j < length segs. sg_localFile (segs ! j) \<noteq> None \<longrightarrow> sg_localFile (od_segments dev ! j) \<noteq> None \<and> j \<notin> set is)"
  using assms
proof (induction "is" arbitrary: dev)
  case Nil
  then show ?case by simp
next
  case (Cons i "is")
  let ?sp = "od_params dev" and ?segs = "od_segments dev"
  have i: "i < length ?segs" using Cons.prems(2) by simp
  obtain seg w where f: "DeleteFile ?sp (?segs ! i) (od_world dev) = Ret (None, seg, w)"
    "seg_to X ?sp i (others dev i) (od_world dev) seg w (seg_content X ?sp (?segs ! i) (od_world dev))"
    "sg_localFile seg = None"
    using DeleteFile_ok [OF od_env [OF Cons.prems(1) i]] by blast
  let ?dev = "od_put dev i seg w"
  from od_put_core [OF Cons.prems(1) i f(2)] have 1: "od_core X N ?dev" "od_blocks X ?dev = od_blocks X dev"
    using nth_od_blocks [OF i, of X] by (simp_all, metis list_update_id)
  from Cons.IH [OF 1(1)] Cons.prems(2) obtain segs w' where
    "delete_list ?sp is (?segs[i := seg]) w = Ret (None, segs, w')"
    "od_core X N (dev\<lparr>od_segments := segs, od_world := w'\<rparr>)"
    "od_blocks X (dev\<lparr>od_segments := segs, od_world := w'\<rparr>) = od_blocks X ?dev" "length segs = length ?segs"
    "\<forall>j < length segs. sg_localFile (segs ! j) \<noteq> None \<longrightarrow> sg_localFile (?segs[i := seg] ! j) \<noteq> None \<and> j \<notin> set is"
    by auto
  then show ?case using f(1,3) 1(2) i
    by (intro exI [of _ segs] exI [of _ w']) (auto simp: nth_list_update split: if_splits)
qed

lemma od_cancel_simps [simp]:
  "od_flush (dev\<lparr>od_cancelled := c\<rparr>) = (case od_flush dev of (err, dev) \<Rightarrow> (err, dev\<lparr>od_cancelled := c\<rparr>))"
  "od_core X N (dev\<lparr>od_cancelled := c\<rparr>) = od_core X N dev" "od_blocks X (dev\<lparr>od_cancelled := c\<rparr>) = od_blocks X dev"
  by (simp_all add: od_flush_def od_core_def od_blocks_def split: prod.splits)

lemma od_Close_ok:
  assumes inv: "od_inv X fr N dev"
  shows "\<exists>dev'. od_Close dev = Ret (None, dev') \<and> od_core X N dev' \<and> od_content X dev' = od_content X dev \<and>
    od_cancelled dev' \<and> od_params dev' = od_params dev \<and> length (od_segments dev') = length (od_segments dev) \<and>
    (\<forall>seg \<in> set (od_segments dev'). sg_localFile seg = None)"
proof -
  obtain dev1 where 1: "od_flush dev = (None, dev1)" "od_inv X fr N dev1" "od_blocks X dev1 = od_blocks X dev"
    "od_params dev1 = od_params dev" "length (od_segments dev1) = length (od_segments dev)"
    using od_flush_ok [OF inv] length_od_blocks by metis
  obtain segs w where 2: "delete_list (od_params dev1) [0..<length (od_segments dev1)] (od_segments dev1) (od_world dev1) = Ret (None, segs, w)"
    "od_core X N (dev1\<lparr>od_segments := segs, od_world := w\<rparr>)"
    "od_blocks X (dev1\<lparr>od_segments := segs, od_world := w\<rparr>) = od_blocks X dev1" "length segs = length (od_segments dev1)"
    "\<forall>j < length segs. sg_localFile (segs ! j) \<noteq> None \<longrightarrow>
       sg_localFile (od_segments dev1 ! j) \<noteq> None \<and> j \<notin> set [0..<length (od_segments dev1)]"
    using delete_list_ok [OF od_invD(1) [OF 1(2)], of "[0..<length (od_segments dev1)]"] by auto
  let ?dev = "dev1\<lparr>od_cancelled := True, od_segments := segs, od_world := w\<rparr>"
  have "od_Close dev = Ret (None, ?dev)"
    using 1(1,4) 2(1) od_invD [OF inv] od_coreD(1) [OF od_invD(1) [OF inv]] by (simp add: od_Close_def sp_ok_def)
  moreover have "od_core X N ?dev" "od_blocks X ?dev = od_blocks X dev"
    using 2(2,3) 1(3) by (simp_all add: od_core_def od_blocks_def)
  moreover have "\<forall>seg \<in> set segs. sg_localFile seg = None" using 2(4,5) by (auto simp: in_set_conv_nth)
  ultimately show ?thesis using 1(4,5) 2(4) by (intro exI [of _ ?dev]) (simp add: od_content_def)
qed

section \<open>The contract\<close>

definition od_takes :: "bool \<Rightarrow> nat \<Rightarrow> ('c, 'i, 's) objdev \<Rightarrow> bytes \<Rightarrow> i64 \<Rightarrow> bool" where
  "od_takes fr N dev buf pos \<longleftrightarrow> fr \<or> (\<forall>p \<in> set (parts N (nat pos mod N) buf). \<not> IsZeros p)"

interpretation odk: block_device objdev_ops "od_inv X fr N" "od_content X" "od_takes fr N" for X fr N
proof (unfold_locales, goal_cases)
  case (2 d)
  then show ?case
    using length_od_content [OF od_invD(1) [OF 2]] od_coreD(4) [OF od_invD(1) [OF 2]] by (simp add: objdev_ops_def od_Size_def)
next
  case (3 d)
  then show ?case using length_od_content [OF od_invD(1) [OF 3]] od_coreD(5) [OF od_invD(1) [OF 3]] by simp
next
  case (4 d pos buf)
  then show ?case
    using ioAt_ok [OF 4(1), of pos buf True] by (auto simp: objdev_ops_def od_ReadAt_def whole_blocks_def)
next
  case (5 d pos buf)
  then show ?case
    using ioAt_ok [OF 5(1), of pos buf False]
    by (auto simp: objdev_ops_def od_WriteAt_def whole_blocks_def od_takes_def)
next
  case (7 d)
  then show ?case
    using od_flush_ok [OF 7] od_invD(2) [OF 7] by (auto simp: objdev_ops_def od_Flush_def od_content_def)
qed (simp_all add: objdev_ops_def od_Trim_def)

section \<open>Opening a device\<close>

text \<open>Each listed item goes to the segment its name carries.\<close>

lemma parse_Itoa: "int i < 2 ^ 63 \<Longrightarrow> Atoi (TrimSuffix (Itoa (int i)) (Ext (Itoa (int i)))) = Inr (int i)"
  using Atoi_Itoa [of "int i"] by (simp add: TrimSuffix_def in64_def Itoa_def FormatInt_def Ext_digits)

lemma parse_seg_name:
  assumes "int i < 2 ^ 63"
  shows "(let s = TrimPrefix (seg_name X i) (seg_prefix X) in Atoi (TrimSuffix s (Ext s))) = Inr (int i)"
proof -
  have "TrimPrefix (seg_name X i) (seg_prefix X) = Itoa (int i)"
    by (simp add: seg_name_def seg_prefix_def TrimPrefix_def)
  moreover have "Ext (Itoa (int i)) = ''''" by (simp add: Itoa_def FormatInt_def Ext_digits)
  ultimately show ?thesis using assms Atoi_Itoa [of "int i"] by (simp add: TrimSuffix_def in64_def)
qed

lemma assignItems_ok:
  assumes "distinct (map (it_Name st) items)" "\<forall>it \<in> set items. \<exists>i < length segs. it_Name st it = seg_name X i"
    and "int (length segs) < 2 ^ 63"
  shows "\<exists>segs'. assignItems st (seg_prefix X) (int (length segs)) items segs = Ret (Inr segs') \<and>
    length segs' = length segs \<and>
    (\<forall>i < length segs. segs' ! i = (case find (\<lambda>it. it_Name st it = seg_name X i) items of
       None \<Rightarrow> segs ! i | Some it \<Rightarrow> (segs ! i)\<lparr>sg_remoteItem := Some it\<rparr>))"
  using assms
proof (induction items arbitrary: segs)
  case Nil
  then show ?case by simp
next
  case (Cons it items)
  obtain k where k: "k < length segs" "it_Name st it = seg_name X k" using Cons.prems(2) by auto
  let ?segs = "segs[k := (segs ! k)\<lparr>sg_remoteItem := Some it\<rparr>]"
  obtain segs' where s: "assignItems st (seg_prefix X) (int (length segs)) items ?segs = Ret (Inr segs')"
    "length segs' = length segs"
    "\<forall>i < length segs. segs' ! i = (case find (\<lambda>it. it_Name st it = seg_name X i) items of
       None \<Rightarrow> ?segs ! i | Some it \<Rightarrow> (?segs ! i)\<lparr>sg_remoteItem := Some it\<rparr>)"
    using Cons.IH [of ?segs] Cons.prems by auto
  have "find (\<lambda>it. it_Name st it = seg_name X k) items = None"
    using Cons.prems(1) k(2) by (auto simp: find_None_iff image_iff)
  moreover have "assignItems st (seg_prefix X) (int (length segs)) (it # items) segs = Ret (Inr segs')"
    using parse_seg_name [of k X] k Cons.prems(3) s(1) by (simp add: Let_def)
  ultimately show ?case using s(2,3) k by (auto simp: seg_name_inj simp del: assignItems.simps split: option.splits)
qed

lemma take_seg_prefix: "take (length (seg_prefix X)) (seg_name X i) = seg_prefix X"
  by (simp add: seg_name_def seg_prefix_def)

text \<open>The objects of a container that belong to a device, and the listing of them.\<close>

lemma list_objects:
  assumes "world_ok X sp w" "only_objects X n w"
  shows "\<exists>its. ct_Items (sp_container sp) (w_cont w) (seg_prefix X) (Suc n) = Inr (its, True) \<and>
    distinct (map (it_Name (sp_container sp)) its) \<and> length its \<le> n \<and> (\<forall>it \<in> set its. x_proper X it) \<and>
    (\<forall>nm. nm \<in> set (map (it_Name (sp_container sp)) its) \<longleftrightarrow> (\<exists>i < n. nm = seg_name X i \<and> x_cmap X (w_cont w) nm \<noteq> None))"
proof -
  let ?N = "{nm. x_cmap X (w_cont w) nm \<noteq> None \<and> take (length (seg_prefix X)) nm = seg_prefix X}"
  have N: "?N = {seg_name X i | i. i < n \<and> x_cmap X (w_cont w) (seg_name X i) \<noteq> None}"
    using assms(2) unfolding only_objects_def by (auto simp: take_seg_prefix) blast
  then have sub: "?N \<subseteq> seg_name X ` {..<n}" by auto
  then have "finite ?N" by (rule finite_subset) simp
  moreover have "card ?N \<le> n"
    using card_mono [OF _ sub] card_image_le [of "{..<n}" "seg_name X"] by (simp add: le_trans)
  ultimately obtain its where its: "ct_Items (sp_container sp) (w_cont w) (seg_prefix X) (Suc n) = Inr (its, True)"
    "distinct (map (it_Name (sp_container sp)) its)" "\<forall>it \<in> set its. x_proper X it" "set (map (it_Name (sp_container sp)) its) = ?N"
    using stow_Items [of "sp_container sp" "x_cinv X" "x_cmap X" "x_proper X" "w_cont w" "seg_prefix X" "Suc n"] assms(1)
    by (auto simp: world_ok_def less_Suc_eq_le)
  have "length its = card ?N" using distinct_card [OF its(2)] its(4) by simp
  then have "length its \<le> n" using \<open>card ?N \<le> n\<close> by simp
  moreover have "nm \<in> set (map (it_Name (sp_container sp)) its) \<longleftrightarrow> (\<exists>i < n. nm = seg_name X i \<and> x_cmap X (w_cont w) nm \<noteq> None)" for nm
    using its(4) N by auto
  ultimately show ?thesis using its(1,2,3) by blast
qed

text \<open>Opening finds every segment of the container, and the contents they stand for.\<close>

definition stored :: "('c, 'i, 's) ospec \<Rightarrow> nat \<Rightarrow> nat \<Rightarrow> ('c, 's) world \<Rightarrow> bytes" where
  "stored X N n w = concat (map (\<lambda>i. case x_cmap X (w_cont w) (seg_name X i) of None \<Rightarrow> zeros N | Some bs \<Rightarrow> bs) [0..<n])"

text \<open>A world in which a device may be opened: no local files, all units free, objects of the right size.\<close>

definition openable :: "('c, 'i, 's) ospec \<Rightarrow> ('c, 'i, 's) storeParams \<Rightarrow> nat \<Rightarrow> ('c, 's) world \<Rightarrow> bool" where
  "openable X sp n w \<longleftrightarrow> sp_ok sp \<and> world_ok X sp w \<and> quota_ok X sp 0 w \<and> only_objects X n w \<and>
     sp_segmentBytes sp * int n < 2 ^ 63 \<and>
     (\<forall>i < n. w_file w (seg_path X sp i) = None \<and> w_file w (eTagFileName (seg_path X sp i)) = None \<and>
        (\<forall>bs. x_cmap X (w_cont w) (seg_name X i) = Some bs \<longrightarrow> length bs = sp_len sp))"

lemma opened_segment:
  assumes op: "openable X sp n w" and i: "i < n"
    and its: "\<And>nm. nm \<in> set (map (it_Name (sp_container sp)) its) \<longleftrightarrow> (\<exists>i < n. nm = seg_name X i \<and> x_cmap X (w_cont w) nm \<noteq> None)"
    and seg: "seg = (case find (\<lambda>it. it_Name (sp_container sp) it = seg_name X i) its of
       None \<Rightarrow> newSegment i | Some it \<Rightarrow> (newSegment i)\<lparr>sg_remoteItem := Some it\<rparr>)"
    and pr: "\<forall>it \<in> set its. x_proper X it"
  shows "seg_ok X sp i seg w \<and> sg_localFile seg = None \<and> proper X seg \<and>
    seg_content X sp seg w = (case x_cmap X (w_cont w) (seg_name X i) of None \<Rightarrow> zeros (sp_len sp) | Some bs \<Rightarrow> bs)"
proof (cases "find (\<lambda>it. it_Name (sp_container sp) it = seg_name X i) its")
  case None
  then have "seg_name X i \<notin> set (map (it_Name (sp_container sp)) its)" by (auto simp: find_None_iff image_iff)
  then have "x_cmap X (w_cont w) (seg_name X i) = None" using its i by blast
  then show ?thesis
    using None op i by (simp add: proper_def seg openable_def seg_ok_def local_ok_def remote_ok_def newSegment_def seg_Backed_def
      seg_Dirty_def seg_content_def remote_content_def)
next
  case (Some it)
  then have it: "it_Name (sp_container sp) it = seg_name X i" "it \<in> set its" by (auto simp: find_Some_iff)
  then have "seg_name X i \<in> set (map (it_Name (sp_container sp)) its)" by force
  then obtain bs where "x_cmap X (w_cont w) (seg_name X i) = Some bs" using its by blast
  then show ?thesis
    using Some op i it pr by (simp add: proper_def seg openable_def seg_ok_def local_ok_def remote_ok_def newSegment_def seg_Backed_def
      seg_Dirty_def seg_content_def remote_content_def)
qed

lemma loadSegments_ok:
  assumes op: "openable X sp n w" and total: "totalBytes div sp_segmentBytes sp = int n" "0 \<le> totalBytes"
  shows "\<exists>segs. loadSegments sp totalBytes w = Ret (Inr segs) \<and> length segs = n \<and>
    (\<forall>i < n. seg_ok X sp i (segs ! i) w \<and> sg_localFile (segs ! i) = None \<and> proper X (segs ! i) \<and>
       seg_content X sp (segs ! i) w = (case x_cmap X (w_cont w) (seg_name X i) of None \<Rightarrow> zeros (sp_len sp) | Some bs \<Rightarrow> bs))"
proof -
  let ?st = "sp_container sp" and ?segs = "map newSegment [0..<n]"
  have w: "world_ok X sp w" "sp_ok sp" "only_objects X n w" using op by (simp_all add: openable_def)
  obtain its where its: "ct_Items ?st (w_cont w) (seg_prefix X) (Suc n) = Inr (its, True)"
    "distinct (map (it_Name ?st) its)" "length its \<le> n" "\<forall>it \<in> set its. x_proper X it"
    "\<And>nm. nm \<in> set (map (it_Name ?st) its) \<longleftrightarrow> (\<exists>i < n. nm = seg_name X i \<and> x_cmap X (w_cont w) nm \<noteq> None)"
    using list_objects [OF w(1,3)] by metis
  have "1 * int n \<le> sp_segmentBytes sp * int n" by (rule mult_right_mono) (use w(2) in \<open>auto simp: sp_ok_def\<close>)
  then have n: "int n < 2 ^ 63" using op by (simp add: openable_def)
  have "\<forall>it \<in> set its. \<exists>i < length ?segs. it_Name ?st it = seg_name X i" using its(5) by auto
  from assignItems_ok [OF its(2) this] n obtain segs where s:
    "assignItems ?st (seg_prefix X) (int n) its ?segs = Ret (Inr segs)" "length segs = n"
    "\<forall>i < n. segs ! i = (case find (\<lambda>it. it_Name ?st it = seg_name X i) its of
       None \<Rightarrow> ?segs ! i | Some it \<Rightarrow> (?segs ! i)\<lparr>sg_remoteItem := Some it\<rparr>)"
    by auto
  have seg: "segs ! i = (case find (\<lambda>it. it_Name ?st it = seg_name X i) its of
       None \<Rightarrow> newSegment i | Some it \<Rightarrow> (newSegment i)\<lparr>sg_remoteItem := Some it\<rparr>)" if "i < n" for i
    using s(3) that by (auto split: option.splits)
  have pf: "osbdPrefix @ devicePrefix @ ct_Name ?st (w_cont w) @ blockPrefix = seg_prefix X"
    using w(1) by (simp add: world_ok_def seg_prefix_def)
  have cnt: "totalBytes sdiv sp_segmentBytes sp = int n" "nat (int n + 1) = Suc n" "sp_segmentBytes sp \<noteq> 0"
    using total w(2) by (auto simp: sp_ok_def)
  have "loadSegments sp totalBytes w = Ret (Inr segs)"
    using its(1,3) s(1) cnt by (simp add: loadSegments_def Let_def pf)
  moreover have "seg_ok X sp i (segs ! i) w \<and> sg_localFile (segs ! i) = None \<and> proper X (segs ! i) \<and>
      seg_content X sp (segs ! i) w = (case x_cmap X (w_cont w) (seg_name X i) of None \<Rightarrow> zeros (sp_len sp) | Some bs \<Rightarrow> bs)"
    if i: "i < n" for i
    by (rule opened_segment [OF op i its(5) seg [OF i] its(4)])
  ultimately show ?thesis using s(2) by blast
qed

end
