(* ===== verification/Aes.thy ===== *)
theory Aes
  imports Prelude
begin

text \<open>
  The standard library packages \<^verbatim>\<open>crypto/aes\<close> and \<^verbatim>\<open>crypto/cipher\<close> as far as the object store uses
  them: the AES block cipher for its three key lengths, and the stream modes CTR, CFB and OFB, each
  with the proof that decryption inverts encryption and keeps the length.
\<close>

section \<open>The block cipher\<close>

definition sbox :: "bytes" where
  "sbox =
    [0x63, 0x7c, 0x77, 0x7b, 0xf2, 0x6b, 0x6f, 0xc5, 0x30, 0x01, 0x67, 0x2b, 0xfe, 0xd7, 0xab, 0x76,
     0xca, 0x82, 0xc9, 0x7d, 0xfa, 0x59, 0x47, 0xf0, 0xad, 0xd4, 0xa2, 0xaf, 0x9c, 0xa4, 0x72, 0xc0,
     0xb7, 0xfd, 0x93, 0x26, 0x36, 0x3f, 0xf7, 0xcc, 0x34, 0xa5, 0xe5, 0xf1, 0x71, 0xd8, 0x31, 0x15,
     0x04, 0xc7, 0x23, 0xc3, 0x18, 0x96, 0x05, 0x9a, 0x07, 0x12, 0x80, 0xe2, 0xeb, 0x27, 0xb2, 0x75,
     0x09, 0x83, 0x2c, 0x1a, 0x1b, 0x6e, 0x5a, 0xa0, 0x52, 0x3b, 0xd6, 0xb3, 0x29, 0xe3, 0x2f, 0x84,
     0x53, 0xd1, 0x00, 0xed, 0x20, 0xfc, 0xb1, 0x5b, 0x6a, 0xcb, 0xbe, 0x39, 0x4a, 0x4c, 0x58, 0xcf,
     0xd0, 0xef, 0xaa, 0xfb, 0x43, 0x4d, 0x33, 0x85, 0x45, 0xf9, 0x02, 0x7f, 0x50, 0x3c, 0x9f, 0xa8,
     0x51, 0xa3, 0x40, 0x8f, 0x92, 0x9d, 0x38, 0xf5, 0xbc, 0xb6, 0xda, 0x21, 0x10, 0xff, 0xf3, 0xd2,
     0xcd, 0x0c, 0x13, 0xec, 0x5f, 0x97, 0x44, 0x17, 0xc4, 0xa7, 0x7e, 0x3d, 0x64, 0x5d, 0x19, 0x73,
     0x60, 0x81, 0x4f, 0xdc, 0x22, 0x2a, 0x90, 0x88, 0x46, 0xee, 0xb8, 0x14, 0xde, 0x5e, 0x0b, 0xdb,
     0xe0, 0x32, 0x3a, 0x0a, 0x49, 0x06, 0x24, 0x5c, 0xc2, 0xd3, 0xac, 0x62, 0x91, 0x95, 0xe4, 0x79,
     0xe7, 0xc8, 0x37, 0x6d, 0x8d, 0xd5, 0x4e, 0xa9, 0x6c, 0x56, 0xf4, 0xea, 0x65, 0x7a, 0xae, 0x08,
     0xba, 0x78, 0x25, 0x2e, 0x1c, 0xa6, 0xb4, 0xc6, 0xe8, 0xdd, 0x74, 0x1f, 0x4b, 0xbd, 0x8b, 0x8a,
     0x70, 0x3e, 0xb5, 0x66, 0x48, 0x03, 0xf6, 0x0e, 0x61, 0x35, 0x57, 0xb9, 0x86, 0xc1, 0x1d, 0x9e,
     0xe1, 0xf8, 0x98, 0x11, 0x69, 0xd9, 0x8e, 0x94, 0x9b, 0x1e, 0x87, 0xe9, 0xce, 0x55, 0x28, 0xdf,
     0x8c, 0xa1, 0x89, 0x0d, 0xbf, 0xe6, 0x42, 0x68, 0x41, 0x99, 0x2d, 0x0f, 0xb0, 0x54, 0xbb, 0x16]"

definition subByte :: "u8 \<Rightarrow> u8" where
  "subByte b = sbox ! unat b"

definition xor_bytes :: "bytes \<Rightarrow> bytes \<Rightarrow> bytes" where
  "xor_bytes xs ys = map2 (XOR) xs ys"

definition xtime :: "u8 \<Rightarrow> u8" where
  "xtime b = (if bit b 7 then push_bit 1 b XOR 0x1b else push_bit 1 b)"

text \<open>A state is the 16 bytes of a block, column after column.\<close>

definition shiftRows :: "bytes \<Rightarrow> bytes" where
  "shiftRows s = map (\<lambda>k. s ! ((k + 4 * (k mod 4)) mod 16)) [0..<16]"

definition mixColumns :: "bytes \<Rightarrow> bytes" where
  "mixColumns s = map (\<lambda>k.
     let c = 4 * (k div 4); a = s ! k; b = s ! (c + (k + 1) mod 4) in
     xtime a XOR xtime b XOR b XOR s ! (c + (k + 2) mod 4) XOR s ! (c + (k + 3) mod 4)) [0..<16]"

text \<open>The key schedule: word \<open>i\<close> from the word before it and the one \<open>nk\<close> before it.\<close>

definition rcon :: "nat \<Rightarrow> u8" where
  "rcon i = (xtime ^^ (i - 1)) 1"

definition keyWord :: "nat \<Rightarrow> bytes list \<Rightarrow> nat \<Rightarrow> bytes" where
  "keyWord nk ws i =
     (let t = ws ! (i - 1);
          t = (if i mod nk = 0 then xor_bytes (map subByte (rotate1 t)) [rcon (i div nk), 0, 0, 0]
               else if 6 < nk \<and> i mod nk = 4 then map subByte t else t)
      in xor_bytes (ws ! (i - nk)) t)"

definition expandKey :: "bytes \<Rightarrow> bytes list" where
  "expandKey key =
     (let nk = length key div 4 in
      fold (\<lambda>i ws. ws @ [keyWord nk ws i]) [nk..<4 * (nk + 7)] (map (\<lambda>i. chunk key (4 * i) 4) [0..<nk]))"

definition roundKey :: "bytes list \<Rightarrow> nat \<Rightarrow> bytes" where
  "roundKey ws r = concat (chunk ws (4 * r) 4)"

definition aes_block :: "bytes list \<Rightarrow> nat \<Rightarrow> bytes \<Rightarrow> bytes" where
  "aes_block ws nr b =
     (let s = fold (\<lambda>r s. xor_bytes (mixColumns (shiftRows (map subByte s))) (roundKey ws r)) [1..<nr]
                (xor_bytes b (roundKey ws 0))
      in xor_bytes (shiftRows (map subByte s)) (roundKey ws nr))"

text \<open>\<^verbatim>\<open>aes.NewCipher\<close>: the encryption function of a key of 16, 24 or 32 bytes.\<close>

definition aes_NewCipher :: "bytes \<Rightarrow> goerr + (bytes \<Rightarrow> bytes)" where
  "aes_NewCipher key =
     (if length key \<in> {16, 24, 32}
      then Inr (aes_block (expandKey key) (length key div 4 + 6))
      else Inl (Msg ''crypto/aes: invalid key size''))"

definition aes_BlockSize :: nat where
  "aes_BlockSize = 16"

section \<open>Stream modes\<close>

text \<open>
  All modes go through the data in blocks of 16 bytes, the last one possibly shorter: a block is
  combined with the cipher of a state, and the next state depends on the state, the input and the
  output.
\<close>

function feedback :: "(bytes \<Rightarrow> bytes) \<Rightarrow> (bytes \<Rightarrow> bytes \<Rightarrow> bytes \<Rightarrow> bytes) \<Rightarrow> bytes \<Rightarrow> bytes \<Rightarrow> bytes" where
  "feedback enc nx s data =
     (if data = [] then []
      else let c = xor_bytes (take 16 data) (enc s) in c @ feedback enc nx (nx s (take 16 data) c) (drop 16 data))"
  by pat_completeness auto
termination by (relation "measure (\<lambda>(_, _, _, data). length data)") (auto simp flip: length_greater_0_conv)

declare feedback.simps [simp del]

text \<open>\<^verbatim>\<open>cipher.NewCTR\<close>: the state counts up as a big-endian number.\<close>

fun inc_rev :: "bytes \<Rightarrow> bytes" where
  "inc_rev [] = []"
| "inc_rev (b # bs) = (if b + 1 = 0 then (b + 1) # inc_rev bs else (b + 1) # bs)"

definition inc_counter :: "bytes \<Rightarrow> bytes" where
  "inc_counter ctr = rev (inc_rev (rev ctr))"

definition NewCTR :: "(bytes \<Rightarrow> bytes) \<Rightarrow> bytes \<Rightarrow> bytes \<Rightarrow> bytes" where
  "NewCTR enc = feedback enc (\<lambda>s _ _. inc_counter s)"

text \<open>\<^verbatim>\<open>cipher.NewCFBEncrypter\<close> and \<^verbatim>\<open>cipher.NewCFBDecrypter\<close>: the state is the last block of ciphertext,
  which is the output of one and the input of the other.\<close>

definition NewCFBEncrypter :: "(bytes \<Rightarrow> bytes) \<Rightarrow> bytes \<Rightarrow> bytes \<Rightarrow> bytes" where
  "NewCFBEncrypter enc = feedback enc (\<lambda>_ p c. c)"

definition NewCFBDecrypter :: "(bytes \<Rightarrow> bytes) \<Rightarrow> bytes \<Rightarrow> bytes \<Rightarrow> bytes" where
  "NewCFBDecrypter enc = feedback enc (\<lambda>_ c p. c)"

text \<open>\<^verbatim>\<open>cipher.NewOFB\<close>: the state is the last block of the key stream.\<close>

definition NewOFB :: "(bytes \<Rightarrow> bytes) \<Rightarrow> bytes \<Rightarrow> bytes \<Rightarrow> bytes" where
  "NewOFB enc = feedback enc (\<lambda>s _ _. enc s)"

section \<open>Facts\<close>

text \<open>A cipher answers blocks of 16 bytes.\<close>

definition block_cipher :: "(bytes \<Rightarrow> bytes) \<Rightarrow> bool" where
  "block_cipher enc \<longleftrightarrow> (\<forall>b. length b = 16 \<longrightarrow> length (enc b) = 16)"

lemma length_xor_bytes [simp]: "length (xor_bytes xs ys) = min (length xs) (length ys)"
  by (simp add: xor_bytes_def)

lemma xor_bytes_twice: "length xs \<le> length ks \<Longrightarrow> xor_bytes (xor_bytes xs ks) ks = xs"
  by (rule nth_equalityI) (auto simp: xor_bytes_def xor.assoc)

lemma length_inc_counter [simp]: "length (inc_counter ctr) = length ctr"
proof -
  have "length (inc_rev bs) = length bs" for bs by (induction bs) auto
  then show ?thesis by (simp add: inc_counter_def)
qed

lemma shiftRows_length [simp]: "length (shiftRows s) = 16" "length (mixColumns s) = 16"
  by (simp_all add: shiftRows_def mixColumns_def)

text \<open>The key schedule has four words of four bytes for each round key.\<close>

lemma keyWord_length:
  assumes "0 < nk" "nk \<le> i" "i \<le> length ws" "\<forall>w \<in> set ws. length w = 4"
  shows "length (keyWord nk ws i) = 4"
proof -
  have "length (ws ! (i - 1)) = 4" "length (ws ! (i - nk)) = 4" using assms by auto
  then show ?thesis by (simp add: keyWord_def Let_def)
qed

lemma expand_fold:
  assumes "0 < nk" "nk \<le> i" "i \<le> n" "length ws = i" "\<forall>w \<in> set ws. length w = 4"
  shows "length (fold (\<lambda>i ws. ws @ [keyWord nk ws i]) [i..<n] ws) = n \<and>
    (\<forall>w \<in> set (fold (\<lambda>i ws. ws @ [keyWord nk ws i]) [i..<n] ws). length w = 4)"
  using assms
proof (induction "n - i" arbitrary: i ws)
  case 0
  then show ?case by simp
next
  case (Suc k)
  then have up: "[i..<n] = i # [Suc i..<n]" by (simp add: upt_conv_Cons)
  have kw: "length (keyWord nk ws i) = 4" using keyWord_length [of nk i ws] Suc.prems by simp
  have "k = n - Suc i" "Suc i \<le> n" "nk \<le> Suc i" using Suc.hyps(2) Suc.prems(2) by simp_all
  moreover have "length (ws @ [keyWord nk ws i]) = Suc i" "\<forall>w \<in> set (ws @ [keyWord nk ws i]). length w = 4"
    using Suc.prems(4,5) kw by simp_all
  ultimately show ?case unfolding up fold_simps by (intro Suc.hyps(1) Suc.prems(1))
qed

lemma expandKey_words:
  assumes "length key \<in> {16, 24, 32}"
  shows "length (expandKey key) = 4 * (length key div 4 + 7)" "\<forall>w \<in> set (expandKey key). length w = 4"
proof -
  let ?nk = "length key div 4" and ?ws = "map (\<lambda>i. chunk key (4 * i) 4) [0..<length key div 4]"
  have "\<forall>w \<in> set ?ws. length w = 4" "0 < ?nk" using assms by auto
  then have "length (expandKey key) = 4 * (?nk + 7) \<and> (\<forall>w \<in> set (expandKey key). length w = 4)"
    unfolding expandKey_def Let_def by (intro expand_fold) simp_all
  then show "length (expandKey key) = 4 * (?nk + 7)" "\<forall>w \<in> set (expandKey key). length w = 4" by blast+
qed

lemma length_roundKey:
  assumes "\<forall>w \<in> set ws. length w = 4" "4 * r + 4 \<le> length ws"
  shows "length (roundKey ws r) = 16"
proof -
  have "\<forall>w \<in> set (chunk ws (4 * r) 4). length w = 4"
    using assms(1) by (auto simp: chunk_def dest: in_set_takeD in_set_dropD)
  then show ?thesis using length_concat_blocks [of "chunk ws (4 * r) 4" 4] assms(2) by (simp add: roundKey_def)
qed

lemma aes_block_cipher: "aes_NewCipher key = Inr enc \<Longrightarrow> block_cipher enc"
proof -
  assume "aes_NewCipher key = Inr enc"
  then have k: "length key \<in> {16, 24, 32}" and enc: "enc = aes_block (expandKey key) (length key div 4 + 6)"
    by (auto simp: aes_NewCipher_def split: if_splits)
  have "length (roundKey (expandKey key) (length key div 4 + 6)) = 16"
    using expandKey_words [OF k] by (intro length_roundKey) auto
  then show "block_cipher enc" by (simp add: block_cipher_def enc aes_block_def Let_def)
qed

text \<open>Decryption with the roles of input and output exchanged inverts encryption.\<close>

lemma feedback_step:
  "data \<noteq> [] \<Longrightarrow> feedback enc nx s data = xor_bytes (take 16 data) (enc s) @
     feedback enc nx (nx s (take 16 data) (xor_bytes (take 16 data) (enc s))) (drop 16 data)"
  by (subst feedback.simps) (simp add: Let_def)

lemma feedback_nil [simp]: "feedback enc nx s [] = []"
  by (subst feedback.simps) simp

lemma feedback_inverse:
  assumes enc: "block_cipher enc" and nx: "\<And>s p c. length s = 16 \<Longrightarrow> length p = 16 \<Longrightarrow> length c = 16 \<Longrightarrow> length (nx s p c) = 16"
    and s: "length s = 16"
  shows "feedback enc (\<lambda>s p c. nx s c p) s (feedback enc nx s data) = data \<and> length (feedback enc nx s data) = length data"
  using s
proof (induction "length data" arbitrary: s data rule: less_induct)
  case less
  let ?p = "take 16 data" and ?c = "xor_bytes (take 16 data) (enc s)" and ?f = "feedback enc nx"
  have len: "length (enc s) = 16" using enc less.prems by (simp add: block_cipher_def)
  then have c: "length ?c = length ?p" "xor_bytes ?c (enc s) = ?p" by (simp_all add: xor_bytes_twice)
  show ?case
  proof (cases "length data \<le> 16")
    case True
    show ?thesis
    proof (cases "data = []")
      case False
      then have "?c \<noteq> []" using c(1) by (auto simp flip: length_greater_0_conv)
      then show ?thesis using False True c by (simp add: feedback_step)
    qed simp
  next
    case False
    define s1 where "s1 = nx s ?p ?c"
    define x where "x = feedback enc nx s1 (drop 16 data)"
    define c1 where "c1 = ?c"
    have c1: "length c1 = 16" "xor_bytes c1 (enc s) = ?p" using False c by (simp_all add: c1_def)
    have "length s1 = 16" unfolding s1_def using False less.prems c(1) by (intro nx) auto
    from less.hyps [OF _ this, of "drop 16 data"] False
    have IH: "feedback enc (\<lambda>s p c. nx s c p) s1 x = drop 16 data" "length x = length data - 16" by (auto simp: x_def)
    have "data \<noteq> []" using False by auto
    then have e: "?f s data = c1 @ x" by (simp add: feedback_step c1_def x_def s1_def)
    have "c1 @ x \<noteq> []" using c1(1) by auto
    then have "feedback enc (\<lambda>s p c. nx s c p) s (c1 @ x) = ?p @ feedback enc (\<lambda>s p c. nx s c p) (nx s ?p c1) x"
      using c1 by (simp add: feedback_step)
    then have "feedback enc (\<lambda>s p c. nx s c p) s (c1 @ x) = data" using IH(1) by (simp add: s1_def c1_def)
    then show ?thesis using e IH(2) c1(1) False by simp
  qed
qed

lemma stream_modes_inverse:
  assumes "block_cipher enc" "length iv = 16"
  shows "NewCTR enc iv (NewCTR enc iv data) = data" "length (NewCTR enc iv data) = length data"
    "NewCFBDecrypter enc iv (NewCFBEncrypter enc iv data) = data" "length (NewCFBEncrypter enc iv data) = length data"
    "NewOFB enc iv (NewOFB enc iv data) = data" "length (NewOFB enc iv data) = length data"
  using feedback_inverse [OF assms(1) _ assms(2), of "\<lambda>s _ _. inc_counter s"]
    feedback_inverse [OF assms(1) _ assms(2), of "\<lambda>_ p c. c"]
    feedback_inverse [OF assms(1) _ assms(2), of "\<lambda>s _ _. enc s"] assms(1)
  by (simp_all add: NewCTR_def NewCFBEncrypter_def NewCFBDecrypter_def NewOFB_def block_cipher_def)

end
