(* ===== verification/Encrypt.thy ===== *)
theory Encrypt
  imports Stow Aes Zeros
begin

text \<open>
  Encryption of remote objects, \<^verbatim>\<open>src/pkg/devices/objstore/encrypt\<close>: the modes and their names, the
  stream readers and writers, key checks, and what the encrypting container does around a put and an
  encrypted item around its size and its reader. Streams are the bytes they yield, so that the pipe
  between the copying goroutine and the inner put is the encrypted stream.
\<close>

section \<open>Modes\<close>

definition enc_ModeIdentity :: u8 where "enc_ModeIdentity = 0"
definition enc_ModeUnknown :: u8 where "enc_ModeUnknown = 1"
definition ModeAESCTR :: u8 where "ModeAESCTR = 2"
definition ModeAESCFB :: u8 where "ModeAESCFB = 3"
definition ModeAESOFB :: u8 where "ModeAESOFB = 4"

lemmas enc_modes = enc_ModeIdentity_def enc_ModeUnknown_def ModeAESCTR_def ModeAESCFB_def ModeAESOFB_def

definition enc_ModeFromName :: "string \<Rightarrow> u8" where
  "enc_ModeFromName name =
     (if name = '''' \<or> name = ''identity'' then enc_ModeIdentity
      else if name = ''aes-ctr'' \<or> name = ''aes-rec'' then ModeAESCTR
      else if name = ''aes-cfb'' then ModeAESCFB
      else if name = ''aes-ofb'' then ModeAESOFB
      else enc_ModeUnknown)"

definition enc_AlgoName :: "u8 \<Rightarrow> string" where
  "enc_AlgoName m =
     (if m = enc_ModeIdentity then ''identity''
      else if m = ModeAESCTR then ''aes-ctr''
      else if m = ModeAESCFB then ''aes-cfb''
      else if m = ModeAESOFB then ''aes-ofb''
      else ''unknown'')"

section \<open>Readers, writers and keys\<close>

definition enc_NewReader :: "u8 \<Rightarrow> strm \<Rightarrow> bytes \<Rightarrow> bytes \<Rightarrow> goerr + strm" where
  "enc_NewReader m rdr key initVect =
     (if m = enc_ModeIdentity then Inr rdr
      else if m \<notin> {ModeAESCTR, ModeAESCFB, ModeAESOFB} then Inl (Msg ''Cannot create decryptor for unknown cipher'')
      else
        (case aes_NewCipher key of
           Inl e \<Rightarrow> Inl (Wrap ''Could not create AES decryptor'' e)
         | Inr aesEnc \<Rightarrow>
           (if length initVect \<noteq> aes_BlockSize
            then Inl (Msg ''Provided AES initialization vector does not have the required bytes'')
            else
              (let constructor = (if m = ModeAESCTR then NewCTR else if m = ModeAESCFB then NewCFBDecrypter else NewOFB)
               in Inr (constructor aesEnc initVect (fst rdr), snd rdr)))))"

text \<open>\<open>NewWriter\<close> draws the initialization vector from the entropy source, whose next answer is \<open>rand\<close>,
  and gives it with the transformation the writer applies.\<close>

definition enc_NewWriter :: "u8 \<Rightarrow> bytes \<Rightarrow> bytes option \<Rightarrow> goerr + (bytes \<Rightarrow> bytes) \<times> bytes" where
  "enc_NewWriter m key rand =
     (if m = enc_ModeIdentity then Inr (\<lambda>bs. bs, [])
      else
        (case aes_NewCipher key of
           Inl e \<Rightarrow> Inl (Wrap ''Could not create AES encryptor'' e)
         | Inr aesEnc \<Rightarrow>
           (case rand of
              None \<Rightarrow> Inl (Wrap ''Could not read entropy source to populate AES initialization vector'' (OsFault ''read''))
            | Some initVect \<Rightarrow>
              (if m = ModeAESCTR then Inr (NewCTR aesEnc initVect, initVect)
               else if m = ModeAESCFB then Inr (NewCFBEncrypter aesEnc initVect, initVect)
               else if m = ModeAESOFB then Inr (NewOFB aesEnc initVect, initVect)
               else Inl (Msg ''Cannot create encryptor for unknown cipher'')))))"

definition MakeRandomAESKey :: "bytes option \<Rightarrow> goerr + bytes" where
  "MakeRandomAESKey rand =
     (case rand of
        None \<Rightarrow> Inl (Wrap ''Could not read entropy source to populate key'' (OsFault ''read''))
      | Some key \<Rightarrow> Inr key)"

definition ValidAESKey :: "bytes \<Rightarrow> goerr option" where
  "ValidAESKey key =
     (if length key = 0 then Some (Msg ''AES key is empty'')
      else if length key \<notin> {16, 24, 32} then Some (Msg ''AES key is of an unexpected length'')
      else if IsZeros key then Some (Msg ''Provided AES key is all zeros (likely mistake)'')
      else None)"

section \<open>The container layer\<close>

definition encryptMetaAlgoHeader :: string where "encryptMetaAlgoHeader = ''x-osbd-crypt-alg''"
definition encryptMetaIVHeader :: string where "encryptMetaIVHeader = ''x-osbd-crypt-iv''"
definition encryptMetaSizeHeader :: string where "encryptMetaSizeHeader = ''x-osbd-crypt-size''"

lemmas encrypt_headers = encryptMetaAlgoHeader_def encryptMetaIVHeader_def encryptMetaSizeHeader_def

text \<open>What \<open>Put\<close> hands to the inner container: the stream and the metadata. An error of the source
  closes the pipe with an error.\<close>

definition enc_encode :: "u8 \<Rightarrow> bytes \<Rightarrow> bytes option \<Rightarrow> strm \<Rightarrow> i64 \<Rightarrow> metadata \<Rightarrow> goerr + strm \<times> metadata" where
  "enc_encode m key rand rdr size' metadata =
     (case enc_NewWriter m key rand of
        Inl e \<Rightarrow> Inl (Wrap ''Could not create stream encryptor'' e)
      | Inr (wtr, initVect) \<Rightarrow>
        Inr ((wtr (fst rdr), map_option (Wrap ''Copy failed during stream encryption'') (snd rdr)),
             (encryptMetaSizeHeader, MdString (FormatInt size' 36)) #
             (encryptMetaIVHeader, MdString (hex_Encode initVect)) #
             (encryptMetaAlgoHeader, MdString (enc_AlgoName m)) # metadata))"

text \<open>The size and the reader of an item, from its metadata and what the wrapped item answers.\<close>

definition encItem_Size :: "goerr + metadata \<Rightarrow> goerr + i64 \<Rightarrow> goerr + i64" where
  "encItem_Size md inner =
     (case md of
        Inl e \<Rightarrow> Inl (Wrap ''Opening item metadata to check for encryption failed'' e)
      | Inr md \<Rightarrow>
        (case map_of md encryptMetaAlgoHeader of
           None \<Rightarrow> inner
         | Some _ \<Rightarrow>
           (case map_of md encryptMetaSizeHeader of
              None \<Rightarrow> Inl (Msg ''Item metadata indicated encryption but no size was recorded'')
            | Some MdOther \<Rightarrow> Inl (Msg ''Item metadata indicated encryption but size was not a string'')
            | Some (MdString s) \<Rightarrow>
              (case ParseInt s 36 of
                 Inl e \<Rightarrow> Inl (Wrap ''Item metadata size was not parseable as base36 integer'' e)
               | Inr n \<Rightarrow> Inr n))))"

definition encItem_Mode :: "metadata \<Rightarrow> goerr + u8 \<times> bytes" where
  "encItem_Mode md =
     (case map_of md encryptMetaAlgoHeader of
        None \<Rightarrow> Inr (enc_ModeIdentity, [])
      | Some MdOther \<Rightarrow> Inl (Msg ''Item metadata indicated encryption but value was not a string'')
      | Some (MdString algo) \<Rightarrow>
        (let mode = enc_ModeFromName algo in
         if mode = enc_ModeUnknown then Inl (Msg ''Item metadata specified unsupported encryption mode'')
         else
           (case map_of md encryptMetaIVHeader of
              None \<Rightarrow> Inl (Msg ''Item metadata indicated encryption but no IV was recorded'')
            | Some MdOther \<Rightarrow> Inl (Msg ''Item metadata indicated encryption but no IV was not a string'')
            | Some (MdString iv) \<Rightarrow>
              (case hex_Decode iv of
                 Inl e \<Rightarrow> Inl (Wrap ''Item metadata IV was not parseable as base16 value'' e)
               | Inr initVect \<Rightarrow> Inr (mode, initVect)))))"

definition encItem_Open :: "goerr + metadata \<Rightarrow> bytes \<Rightarrow> goerr + strm \<Rightarrow> goerr + strm" where
  "encItem_Open md key inner =
     (case md of
        Inl e \<Rightarrow> Inl (Wrap ''Opening item metadata to check for encryption failed'' e)
      | Inr md \<Rightarrow>
        (case encItem_Mode md of
           Inl e \<Rightarrow> Inl e
         | Inr (mode, initVect) \<Rightarrow>
           (case inner of
              Inl e \<Rightarrow> Inl e
            | Inr itemRdr \<Rightarrow>
              (if mode = enc_ModeIdentity then Inr itemRdr
               else
                 (case enc_NewReader mode itemRdr key initVect of
                    Inl e \<Rightarrow> Inl (Wrap ''Item decyptor could not be created'' e)
                  | Inr rdr \<Rightarrow> Inr rdr)))))"

section \<open>Facts\<close>

definition enc_mode_ok :: "u8 \<Rightarrow> bool" where
  "enc_mode_ok m \<longleftrightarrow> m \<in> {ModeAESCTR, ModeAESCFB, ModeAESOFB}"

lemma enc_ModeFromName_AlgoName: "enc_mode_ok m \<or> m = enc_ModeIdentity \<Longrightarrow> enc_ModeFromName (enc_AlgoName m) = m"
  by (auto simp: enc_mode_ok_def enc_ModeFromName_def enc_AlgoName_def enc_modes)

lemma aes_keys: "length key \<in> {16, 24, 32} \<Longrightarrow> \<exists>enc. aes_NewCipher key = Inr enc \<and> block_cipher enc"
  using aes_block_cipher [of key] by (auto simp: aes_NewCipher_def)

lemma ValidAESKey_length: "ValidAESKey key = None \<Longrightarrow> length key \<in> {16, 24, 32}"
  by (auto simp: ValidAESKey_def split: if_splits)

text \<open>A reader inverts a writer of the same mode, key and vector.\<close>

lemma enc_reader_inverts_writer:
  assumes "enc_mode_ok m" "length key \<in> {16, 24, 32}" "length iv = 16"
  shows "\<exists>wtr. enc_NewWriter m key (Some iv) = Inr (wtr, iv) \<and>
    (\<forall>bs err. enc_NewReader m (wtr bs, err) key iv = Inr (bs, err) \<and> length (wtr bs) = length bs)"
proof -
  obtain enc where enc: "aes_NewCipher key = Inr enc" "block_cipher enc" using aes_keys [OF assms(2)] by blast
  note inv = stream_modes_inverse [OF enc(2) assms(3)]
  consider "m = ModeAESCTR" | "m = ModeAESCFB" | "m = ModeAESOFB" using assms(1) by (auto simp: enc_mode_ok_def)
  then show ?thesis
    by cases (use enc(1) inv assms(3) in \<open>simp_all add: enc_NewWriter_def enc_NewReader_def enc_modes aes_BlockSize_def\<close>)
qed

text \<open>An encoded object with its metadata, possibly among others, decodes to the source and its size.\<close>

lemma enc_encode_decode:
  assumes "enc_mode_ok m" "length key \<in> {16, 24, 32}" "length iv = 16" "in64 size'"
  obtains data md' where "enc_encode m key (Some iv) (bs, None) size' md = Inr ((data, None), md')"
    "\<And>k. k \<notin> {encryptMetaAlgoHeader, encryptMetaIVHeader, encryptMetaSizeHeader} \<Longrightarrow> map_of md' k = map_of md k"
    "\<And>m'. \<forall>k \<in> {encryptMetaAlgoHeader, encryptMetaIVHeader, encryptMetaSizeHeader}. map_of m' k = map_of md' k \<Longrightarrow>
       encItem_Open (Inr m') key (Inr (data, None)) = Inr (bs, None)"
    "\<And>m' inner. \<forall>k \<in> {encryptMetaAlgoHeader, encryptMetaIVHeader, encryptMetaSizeHeader}. map_of m' k = map_of md' k \<Longrightarrow>
       encItem_Size (Inr m') inner = Inr size'"
proof -
  obtain wtr where w: "enc_NewWriter m key (Some iv) = Inr (wtr, iv)"
    "\<And>bs err. enc_NewReader m (wtr bs, err) key iv = Inr (bs, err)" "\<And>bs. length (wtr bs) = length bs"
    using enc_reader_inverts_writer [OF assms(1-3)] by blast
  have m: "enc_ModeFromName (enc_AlgoName m) = m" "m \<noteq> enc_ModeUnknown" "m \<noteq> enc_ModeIdentity"
    using assms(1) enc_ModeFromName_AlgoName [of m] by (auto simp: enc_mode_ok_def enc_modes)
  show ?thesis
    by (rule that [of "wtr bs" "(encryptMetaSizeHeader, MdString (FormatInt size' 36)) #
        (encryptMetaIVHeader, MdString (hex_Encode iv)) # (encryptMetaAlgoHeader, MdString (enc_AlgoName m)) # md"])
      (use w m assms(4) in \<open>simp_all add: enc_encode_def encItem_Open_def encItem_Mode_def encItem_Size_def encrypt_headers
        hex_Decode_Encode ParseInt_FormatInt\<close>)
qed

end
