(* ===== verification/Compress.thy ===== *)
theory Compress
  imports Stow
begin

text \<open>
  Compression of remote objects, \<^verbatim>\<open>src/pkg/devices/objstore/compress\<close>: the modes and their names, the
  readers and writers, and what the compressing container does around a put and a compressed item
  around its size and its reader. The compression formats are parameters, a record of functions for
  each of \<^verbatim>\<open>compress/gzip\<close> and \<^verbatim>\<open>s2\<close>.
\<close>

section \<open>Formats and modes\<close>

text \<open>\<open>cd_enc\<close> is what a writer has emitted once closed, \<open>cd_part\<close> what it has emitted when its source
  fails; \<open>cd_new\<close> is the error of creating a reader on a stream and \<open>cd_dec\<close> what the reader yields.\<close>

record codec =
  cd_enc :: "bytes \<Rightarrow> bytes"
  cd_part :: "bytes \<Rightarrow> bytes"
  cd_new :: "strm \<Rightarrow> goerr option"
  cd_dec :: "strm \<Rightarrow> strm"

record codecs =
  c_gzip :: codec
  c_s2 :: codec

text \<open>Reading back what was written and closed gives the data.\<close>

definition codec_ok :: "codec \<Rightarrow> bool" where
  "codec_ok cd \<longleftrightarrow> (\<forall>bs. cd_new cd (cd_enc cd bs, None) = None \<and> cd_dec cd (cd_enc cd bs, None) = (bs, None))"

definition cmp_ModeIdentity :: u8 where "cmp_ModeIdentity = 0"
definition cmp_ModeUnknown :: u8 where "cmp_ModeUnknown = 1"
definition ModeS2 :: u8 where "ModeS2 = 2"
definition ModeGzip :: u8 where "ModeGzip = 3"

lemmas cmp_modes = cmp_ModeIdentity_def cmp_ModeUnknown_def ModeS2_def ModeGzip_def

definition cmp_ModeFromName :: "string \<Rightarrow> u8" where
  "cmp_ModeFromName name =
     (if name = '''' \<or> name = ''identity'' then cmp_ModeIdentity
      else if name = ''s2'' then ModeS2
      else if name = ''gzip'' then ModeGzip
      else cmp_ModeUnknown)"

definition cmp_AlgoName :: "u8 \<Rightarrow> string" where
  "cmp_AlgoName m =
     (if m = cmp_ModeIdentity then ''identity''
      else if m = ModeS2 then ''s2''
      else if m = ModeGzip then ''gzip''
      else ''unknown'')"

definition cmp_NewReader :: "codecs \<Rightarrow> u8 \<Rightarrow> strm \<Rightarrow> goerr + strm" where
  "cmp_NewReader cs m rdr =
     (if m = cmp_ModeIdentity then Inr rdr
      else if m = ModeGzip
      then (case cd_new (c_gzip cs) rdr of Some e \<Rightarrow> Inl e | None \<Rightarrow> Inr (cd_dec (c_gzip cs) rdr))
      else if m = ModeS2 then Inr (cd_dec (c_s2 cs) rdr)
      else Inl (Msg ''Cannot create decompressor for unknown compression mode''))"

text \<open>\<open>NewWriter\<close> followed by the copying goroutine: what the pipe yields for a source.\<close>

definition cd_write :: "codec \<Rightarrow> strm \<Rightarrow> strm" where
  "cd_write cd rdr =
     (case snd rdr of
        None \<Rightarrow> (cd_enc cd (fst rdr), None)
      | Some e \<Rightarrow> (cd_part cd (fst rdr), Some (Wrap ''Copy failed during stream compression'' e)))"

definition cmp_NewWriter :: "codecs \<Rightarrow> u8 \<Rightarrow> goerr + (strm \<Rightarrow> strm)" where
  "cmp_NewWriter cs m =
     (if m = cmp_ModeIdentity then Inr (\<lambda>rdr. rdr)
      else if m = ModeGzip then Inr (cd_write (c_gzip cs))
      else if m = ModeS2 then Inr (cd_write (c_s2 cs))
      else Inl (Msg ''Cannot create decompressor for unknown compression mode''))"

section \<open>The container layer\<close>

definition compressMetaAlgoHeader :: string where "compressMetaAlgoHeader = ''x-osbd-cmp-alg''"
definition compressMetaSizeHeader :: string where "compressMetaSizeHeader = ''x-osbd-cmp-size''"

lemmas compress_headers = compressMetaAlgoHeader_def compressMetaSizeHeader_def

definition cmp_encode :: "codecs \<Rightarrow> u8 \<Rightarrow> strm \<Rightarrow> i64 \<Rightarrow> metadata \<Rightarrow> goerr + strm \<times> metadata" where
  "cmp_encode cs m rdr size' metadata =
     (case cmp_NewWriter cs m of
        Inl e \<Rightarrow> Inl (Wrap ''Could not create stream compressor'' e)
      | Inr wtr \<Rightarrow>
        Inr (wtr rdr,
             (compressMetaSizeHeader, MdString (FormatInt size' 36)) #
             (compressMetaAlgoHeader, MdString (cmp_AlgoName m)) # metadata))"

definition cmpItem_Size :: "goerr + metadata \<Rightarrow> goerr + i64 \<Rightarrow> goerr + i64" where
  "cmpItem_Size md inner =
     (case md of
        Inl e \<Rightarrow> Inl (Wrap ''Opening item metadata to check for compression failed'' e)
      | Inr md \<Rightarrow>
        (case map_of md compressMetaAlgoHeader of
           None \<Rightarrow> inner
         | Some _ \<Rightarrow>
           (case map_of md compressMetaSizeHeader of
              None \<Rightarrow> Inl (Msg ''Item metadata indicated compression but no size was recorded'')
            | Some MdOther \<Rightarrow> Inl (Msg ''Item metadata indicated compression but size was not a string'')
            | Some (MdString s) \<Rightarrow>
              (case ParseInt s 36 of
                 Inl e \<Rightarrow> Inl (Wrap ''Item metadata size was not parseable as base36 integer'' e)
               | Inr n \<Rightarrow> Inr n))))"

definition cmpItem_Mode :: "metadata \<Rightarrow> goerr + u8" where
  "cmpItem_Mode md =
     (case map_of md compressMetaAlgoHeader of
        None \<Rightarrow> Inr cmp_ModeIdentity
      | Some MdOther \<Rightarrow> Inl (Msg ''Item metadata indicated compression but value was not a string'')
      | Some (MdString algo) \<Rightarrow>
        (let mode = cmp_ModeFromName algo in
         if mode = cmp_ModeUnknown then Inl (Msg ''Item metadata specified unsupported compression mode'')
         else Inr mode))"

definition cmpItem_Open :: "codecs \<Rightarrow> goerr + metadata \<Rightarrow> goerr + strm \<Rightarrow> goerr + strm" where
  "cmpItem_Open cs md inner =
     (case md of
        Inl e \<Rightarrow> Inl (Wrap ''Opening item metadata to check for compression failed'' e)
      | Inr md \<Rightarrow>
        (case cmpItem_Mode md of
           Inl e \<Rightarrow> Inl e
         | Inr mode \<Rightarrow>
           (case inner of
              Inl e \<Rightarrow> Inl e
            | Inr itemRdr \<Rightarrow>
              (if mode = cmp_ModeIdentity then Inr itemRdr
               else
                 (case cmp_NewReader cs mode itemRdr of
                    Inl e \<Rightarrow> Inl (Wrap ''Item decompressor could not be created'' e)
                  | Inr rdr \<Rightarrow> Inr rdr)))))"

section \<open>Facts\<close>

definition cmp_mode_ok :: "u8 \<Rightarrow> bool" where
  "cmp_mode_ok m \<longleftrightarrow> m \<in> {ModeS2, ModeGzip}"

definition codecs_ok :: "codecs \<Rightarrow> bool" where
  "codecs_ok cs \<longleftrightarrow> codec_ok (c_gzip cs) \<and> codec_ok (c_s2 cs)"

lemma cmp_ModeFromName_AlgoName: "cmp_mode_ok m \<or> m = cmp_ModeIdentity \<Longrightarrow> cmp_ModeFromName (cmp_AlgoName m) = m"
  by (auto simp: cmp_mode_ok_def cmp_ModeFromName_def cmp_AlgoName_def cmp_modes)

lemma cmp_reader_inverts_writer:
  assumes "cmp_mode_ok m" "codecs_ok cs"
  shows "\<exists>wtr data. cmp_NewWriter cs m = Inr wtr \<and> wtr (bs, None) = (data, None) \<and>
    cmp_NewReader cs m (data, None) = Inr (bs, None)"
  using assms
  by (auto simp: cmp_mode_ok_def codecs_ok_def codec_ok_def cmp_NewWriter_def cmp_NewReader_def cmp_modes cd_write_def)

lemma cmp_encode_decode:
  assumes "cmp_mode_ok m" "codecs_ok cs" "in64 size'"
  obtains data md' where "cmp_encode cs m (bs, None) size' md = Inr ((data, None), md')"
    "\<And>k. k \<notin> {compressMetaAlgoHeader, compressMetaSizeHeader} \<Longrightarrow> map_of md' k = map_of md k"
    "\<And>m'. \<forall>k \<in> {compressMetaAlgoHeader, compressMetaSizeHeader}. map_of m' k = map_of md' k \<Longrightarrow>
       cmpItem_Open cs (Inr m') (Inr (data, None)) = Inr (bs, None)"
    "\<And>m' inner. \<forall>k \<in> {compressMetaAlgoHeader, compressMetaSizeHeader}. map_of m' k = map_of md' k \<Longrightarrow>
       cmpItem_Size (Inr m') inner = Inr size'"
proof -
  obtain wtr data where w: "cmp_NewWriter cs m = Inr wtr" "wtr (bs, None) = (data, None)"
    "cmp_NewReader cs m (data, None) = Inr (bs, None)"
    using cmp_reader_inverts_writer [OF assms(1,2)] by blast
  have m: "cmp_ModeFromName (cmp_AlgoName m) = m" "m \<noteq> cmp_ModeUnknown" "m \<noteq> cmp_ModeIdentity"
    using assms(1) cmp_ModeFromName_AlgoName [of m] by (auto simp: cmp_mode_ok_def cmp_modes)
  show ?thesis
    by (rule that [of data "(compressMetaSizeHeader, MdString (FormatInt size' 36)) #
        (compressMetaAlgoHeader, MdString (cmp_AlgoName m)) # md"])
      (use w m assms(3) in \<open>simp_all add: cmp_encode_def cmpItem_Open_def cmpItem_Mode_def cmpItem_Size_def
        compress_headers ParseInt_FormatInt\<close>)
qed

end
