(* ===== verification/Containers.thy ===== *)
theory Containers
  imports Encrypt Compress
begin

text \<open>
  The containers a device works on: a base container of the object storage package, wrapped in any
  number of encrypting and compressing layers, with the items they answer. Embedded methods are those
  of the wrapped value. A put of a layer hands the transformed stream to the wrapped container and
  returns what that returns; only listings wrap the items.
\<close>

section \<open>Definitions\<close>

text \<open>The base container, the entropy source (its \<open>k\<close>-th answer), the compression formats, and the
  constant that stands for an unknown size.\<close>

record ('c, 'i) cenv =
  ce_base :: "('c, 'i) stow_ops"
  ce_rand :: "nat \<Rightarrow> bytes option"
  ce_codecs :: codecs
  ce_SizeUnknown :: i64

datatype container =
    BaseContainer
  | encryptedContainer container u8 bytes
  | compressedContainer container u8

datatype 'i item =
    BaseItem 'i
  | encryptedItem "'i item" bytes
  | compressedItem "'i item"

definition NewEncryptedContainer :: "container \<Rightarrow> u8 \<Rightarrow> bytes \<Rightarrow> container" where
  "NewEncryptedContainer container mode key = encryptedContainer container mode key"

definition NewCompressedContainer :: "container \<Rightarrow> u8 \<Rightarrow> container" where
  "NewCompressedContainer container mode = compressedContainer container mode"

fun item_Name :: "('c, 'i) cenv \<Rightarrow> 'i item \<Rightarrow> string" where
  "item_Name env (BaseItem it) = it_Name (ce_base env) it"
| "item_Name env (encryptedItem it key) = item_Name env it"
| "item_Name env (compressedItem it) = item_Name env it"

fun item_Metadata :: "('c, 'i) cenv \<Rightarrow> 'c \<Rightarrow> 'i item \<Rightarrow> goerr + metadata" where
  "item_Metadata env c (BaseItem it) = it_Metadata (ce_base env) c it"
| "item_Metadata env c (encryptedItem it key) = item_Metadata env c it"
| "item_Metadata env c (compressedItem it) = item_Metadata env c it"

fun item_ETag :: "('c, 'i) cenv \<Rightarrow> 'c \<Rightarrow> 'i item \<Rightarrow> goerr + string" where
  "item_ETag env c (BaseItem it) = it_ETag (ce_base env) c it"
| "item_ETag env c (encryptedItem it key) = item_ETag env c it"
| "item_ETag env c (compressedItem it) = item_ETag env c it"

fun item_Size :: "('c, 'i) cenv \<Rightarrow> 'c \<Rightarrow> 'i item \<Rightarrow> goerr + i64" where
  "item_Size env c (BaseItem it) = it_Size (ce_base env) c it"
| "item_Size env c (encryptedItem it key) = encItem_Size (item_Metadata env c it) (item_Size env c it)"
| "item_Size env c (compressedItem it) = cmpItem_Size (item_Metadata env c it) (item_Size env c it)"

fun item_Open :: "('c, 'i) cenv \<Rightarrow> 'c \<Rightarrow> 'i item \<Rightarrow> goerr + strm" where
  "item_Open env c (BaseItem it) = it_Open (ce_base env) c it"
| "item_Open env c (encryptedItem it key) = encItem_Open (item_Metadata env c it) key (item_Open env c it)"
| "item_Open env c (compressedItem it) = cmpItem_Open (ce_codecs env) (item_Metadata env c it) (item_Open env c it)"

fun cont_Item :: "('c, 'i) cenv \<Rightarrow> container \<Rightarrow> 'c \<Rightarrow> string \<Rightarrow> 'i item option \<times> goerr option" where
  "cont_Item env BaseContainer c itemID = (case ct_Item (ce_base env) c itemID of (it, err) \<Rightarrow> (map_option BaseItem it, err))"
| "cont_Item env (encryptedContainer w m key) c itemID =
     (case cont_Item env w c itemID of (it, err) \<Rightarrow> (map_option (\<lambda>it. encryptedItem it key) it, err))"
| "cont_Item env (compressedContainer w m) c itemID =
     (case cont_Item env w c itemID of (it, err) \<Rightarrow> (map_option compressedItem it, err))"

fun cont_Items :: "('c, 'i) cenv \<Rightarrow> container \<Rightarrow> 'c \<Rightarrow> string \<Rightarrow> nat \<Rightarrow> goerr + 'i item list \<times> bool" where
  "cont_Items env BaseContainer c prefix n =
     (case ct_Items (ce_base env) c prefix n of Inl e \<Rightarrow> Inl e | Inr (its, end') \<Rightarrow> Inr (map BaseItem its, end'))"
| "cont_Items env (encryptedContainer w m key) c prefix n =
     (case cont_Items env w c prefix n of Inl e \<Rightarrow> Inl e | Inr (its, end') \<Rightarrow> Inr (map (\<lambda>it. encryptedItem it key) its, end'))"
| "cont_Items env (compressedContainer w m) c prefix n =
     (case cont_Items env w c prefix n of Inl e \<Rightarrow> Inl e | Inr (its, end') \<Rightarrow> Inr (map compressedItem its, end'))"

text \<open>The state of a put: that of the base container and the number of answers drawn from the entropy
  source.\<close>

fun cont_Put :: "('c, 'i) cenv \<Rightarrow> container \<Rightarrow> 'c \<times> nat \<Rightarrow> string \<Rightarrow> strm \<Rightarrow> i64 \<Rightarrow> metadata \<Rightarrow>
    (goerr + 'i item) \<times> ('c \<times> nat)" where
  "cont_Put env BaseContainer s name rdr size' md =
     (case ct_Put (ce_base env) (fst s) name rdr size' md of
        (Inl e, c) \<Rightarrow> (Inl e, (c, snd s))
      | (Inr it, c) \<Rightarrow> (Inr (BaseItem it), (c, snd s)))"
| "cont_Put env (encryptedContainer w m key) s name rdr size' md =
     (if m = enc_ModeIdentity then cont_Put env w s name rdr size' md
      else
        (case enc_encode m key (ce_rand env (snd s)) rdr size' md of
           Inl e \<Rightarrow> (Inl e, (fst s, Suc (snd s)))
         | Inr (rdr, md) \<Rightarrow> cont_Put env w (fst s, Suc (snd s)) name rdr (ce_SizeUnknown env) md))"
| "cont_Put env (compressedContainer w m) s name rdr size' md =
     (if m = cmp_ModeIdentity then cont_Put env w s name rdr size' md
      else
        (case cmp_encode (ce_codecs env) m rdr size' md of
           Inl e \<Rightarrow> (Inl e, s)
         | Inr (rdr, md) \<Rightarrow> cont_Put env w s name rdr (ce_SizeUnknown env) md))"

definition container_ops :: "('c, 'i) cenv \<Rightarrow> container \<Rightarrow> ('c \<times> nat, 'i item) stow_ops" where
  "container_ops env w = \<lparr>ct_Name = (\<lambda>s. ct_Name (ce_base env) (fst s)), ct_Put = cont_Put env w,
     ct_Item = (\<lambda>s. cont_Item env w (fst s)), ct_Items = (\<lambda>s. cont_Items env w (fst s)), it_Name = item_Name env,
     it_Size = (\<lambda>s. item_Size env (fst s)), it_Open = (\<lambda>s. item_Open env (fst s)),
     it_ETag = (\<lambda>s. item_ETag env (fst s)), it_Metadata = (\<lambda>s. item_Metadata env (fst s))\<rparr>"

section \<open>The layers of a stored object\<close>

text \<open>What the layers make of the metadata and of the size or reader of the base item.\<close>

fun layers_Open :: "('c, 'i) cenv \<Rightarrow> container \<Rightarrow> goerr + metadata \<Rightarrow> goerr + strm \<Rightarrow> goerr + strm" where
  "layers_Open env BaseContainer md r = r"
| "layers_Open env (encryptedContainer w m key) md r = encItem_Open md key (layers_Open env w md r)"
| "layers_Open env (compressedContainer w m) md r = cmpItem_Open (ce_codecs env) md (layers_Open env w md r)"

fun layers_Size :: "container \<Rightarrow> goerr + metadata \<Rightarrow> goerr + i64 \<Rightarrow> goerr + i64" where
  "layers_Size BaseContainer md n = n"
| "layers_Size (encryptedContainer w m key) md n = encItem_Size md (layers_Size w md n)"
| "layers_Size (compressedContainer w m) md n = cmpItem_Size md (layers_Size w md n)"

fun wrap_item :: "container \<Rightarrow> 'i \<Rightarrow> 'i item" where
  "wrap_item BaseContainer it = BaseItem it"
| "wrap_item (encryptedContainer w m key) it = encryptedItem (wrap_item w it) key"
| "wrap_item (compressedContainer w m) it = compressedItem (wrap_item w it)"

lemma wrap_item_simps [simp]:
  "item_Name env (wrap_item w it) = it_Name (ce_base env) it"
  "item_Metadata env c (wrap_item w it) = it_Metadata (ce_base env) c it"
  "item_Size env c (wrap_item w it) = layers_Size w (it_Metadata (ce_base env) c it) (it_Size (ce_base env) c it)"
  "item_Open env c (wrap_item w it) = layers_Open env w (it_Metadata (ce_base env) c it) (it_Open (ce_base env) c it)"
  by (induction w) auto

lemma cont_Items_wrap:
  "cont_Items env w c prefix n =
     (case ct_Items (ce_base env) c prefix n of Inl e \<Rightarrow> Inl e | Inr (its, end') \<Rightarrow> Inr (map (wrap_item w) its, end'))"
  by (induction w) (auto split: sum.splits prod.splits)

lemma item_cong:
  assumes "map_of md = map_of md'"
  shows "encItem_Open (Inr md) key r = encItem_Open (Inr md') key r" "cmpItem_Open cs (Inr md) r = cmpItem_Open cs (Inr md') r"
    "encItem_Size (Inr md) n = encItem_Size (Inr md') n" "cmpItem_Size (Inr md) n = cmpItem_Size (Inr md') n"
  unfolding encItem_Open_def encItem_Mode_def cmpItem_Open_def cmpItem_Mode_def encItem_Size_def cmpItem_Size_def sum.case assms
  by (rule refl)+

lemma layers_cong:
  assumes "map_of md = map_of md'"
  shows "layers_Open env w (Inr md) r = layers_Open env w (Inr md') r" "layers_Size w (Inr md) n = layers_Size w (Inr md') n"
  by (induction w) (simp_all add: item_cong [OF assms])

end
