(* ===== verification/Container_Laws.thy ===== *)
theory Container_Laws
  imports Containers
begin

text \<open>
  Layers of encryption and compression over a base container that keeps objects and metadata: what is
  put can be listed, has the announced size and opens to the same bytes, so that the layered container
  keeps the promises of \<open>stow_ok\<close>. The item that \<open>Put\<close> answers is not wrapped and opens to the
  transformed bytes.
\<close>

section \<open>The base container\<close>

definition base_ok :: "('c, 'i) cenv \<Rightarrow> ('c \<Rightarrow> bool) \<Rightarrow> ('c \<Rightarrow> string \<Rightarrow> bytes option) \<Rightarrow> ('c \<Rightarrow> string \<Rightarrow> metadata) \<Rightarrow> bool" where
  "base_ok env cinv cmap cmd \<longleftrightarrow>
     (\<forall>c name bs n md. cinv c \<longrightarrow> n = int (length bs) \<or> n = ce_SizeUnknown env \<longrightarrow>
        (\<exists>it c'. ct_Put (ce_base env) c name (bs, None) n md = (Inr it, c') \<and> cinv c' \<and>
           cmap c' = (cmap c)(name \<mapsto> bs) \<and> cmd c' = (cmd c)(name := md) \<and> it_Name (ce_base env) it = name \<and>
           ct_Name (ce_base env) c' = ct_Name (ce_base env) c)) \<and>
     (\<forall>c it bs. cinv c \<longrightarrow> cmap c (it_Name (ce_base env) it) = Some bs \<longrightarrow>
        it_Size (ce_base env) c it = Inr (int (length bs)) \<and> it_Open (ce_base env) c it = Inr (bs, None) \<and>
        (\<exists>md. it_Metadata (ce_base env) c it = Inr md \<and> map_of md = map_of (cmd c (it_Name (ce_base env) it)))) \<and>
     (\<forall>c prefix n. cinv c \<longrightarrow> finite {nm. cmap c nm \<noteq> None \<and> take (length prefix) nm = prefix} \<longrightarrow>
        card {nm. cmap c nm \<noteq> None \<and> take (length prefix) nm = prefix} < n \<longrightarrow>
        (\<exists>its. ct_Items (ce_base env) c prefix n = Inr (its, True) \<and> distinct (map (it_Name (ce_base env)) its) \<and>
           set (map (it_Name (ce_base env)) its) = {nm. cmap c nm \<noteq> None \<and> take (length prefix) nm = prefix}))"

text \<open>The entropy source answers, the formats are invertible, and the unknown size is a number.\<close>

definition env_ok :: "('c, 'i) cenv \<Rightarrow> bool" where
  "env_ok env \<longleftrightarrow> (\<forall>k. \<exists>iv. ce_rand env k = Some iv \<and> length iv = 16) \<and> codecs_ok (ce_codecs env) \<and> in64 (ce_SizeUnknown env)"

lemma base_Put:
  assumes "base_ok env cinv cmap cmd" "cinv c" "n = int (length bs) \<or> n = ce_SizeUnknown env"
  shows "\<exists>it c'. ct_Put (ce_base env) c name (bs, None) n md = (Inr it, c') \<and> cinv c' \<and>
    cmap c' = (cmap c)(name \<mapsto> bs) \<and> cmd c' = (cmd c)(name := md) \<and> it_Name (ce_base env) it = name \<and>
    ct_Name (ce_base env) c' = ct_Name (ce_base env) c"
  using assms(1) [unfolded base_ok_def, THEN conjunct1, rule_format, OF assms(2,3)] .

lemma base_item:
  assumes "base_ok env cinv cmap cmd" "cinv c" "cmap c (it_Name (ce_base env) it) = Some bs"
  shows "it_Size (ce_base env) c it = Inr (int (length bs))" "it_Open (ce_base env) c it = Inr (bs, None)"
    "\<exists>md. it_Metadata (ce_base env) c it = Inr md \<and> map_of md = map_of (cmd c (it_Name (ce_base env) it))"
  using assms(1) [unfolded base_ok_def, THEN conjunct2, THEN conjunct1, rule_format, OF assms(2,3)] by blast+

lemma base_Items:
  assumes "base_ok env cinv cmap cmd" "cinv c" "finite {nm. cmap c nm \<noteq> None \<and> take (length prefix) nm = prefix}"
    and "card {nm. cmap c nm \<noteq> None \<and> take (length prefix) nm = prefix} < n"
  shows "\<exists>its. ct_Items (ce_base env) c prefix n = Inr (its, True) \<and> distinct (map (it_Name (ce_base env)) its) \<and>
    set (map (it_Name (ce_base env)) its) = {nm. cmap c nm \<noteq> None \<and> take (length prefix) nm = prefix}"
  using assms(1) [unfolded base_ok_def, THEN conjunct2, THEN conjunct2, rule_format, OF assms(2-4)] .

section \<open>Puts through layers\<close>

abbreviation enc_headers :: "string set" where
  "enc_headers \<equiv> {encryptMetaAlgoHeader, encryptMetaIVHeader, encryptMetaSizeHeader}"

abbreviation cmp_headers :: "string set" where
  "cmp_headers \<equiv> {compressMetaAlgoHeader, compressMetaSizeHeader}"

fun headers :: "container \<Rightarrow> string set" where
  "headers BaseContainer = {}"
| "headers (encryptedContainer w m key) = enc_headers \<union> headers w"
| "headers (compressedContainer w m) = cmp_headers \<union> headers w"

text \<open>Layers with known modes and keys of a valid length, at most one of each kind.\<close>

fun layers_ok :: "container \<Rightarrow> bool" where
  "layers_ok BaseContainer = True"
| "layers_ok (encryptedContainer w m key) \<longleftrightarrow> layers_ok w \<and> enc_headers \<inter> headers w = {} \<and>
     (m = enc_ModeIdentity \<or> enc_mode_ok m \<and> length key \<in> {16, 24, 32})"
| "layers_ok (compressedContainer w m) \<longleftrightarrow> layers_ok w \<and> cmp_headers \<inter> headers w = {} \<and>
     (m = cmp_ModeIdentity \<or> cmp_mode_ok m)"

text \<open>An object that the layers read as \<open>bs\<close>.\<close>

definition reads_as :: "('c, 'i) cenv \<Rightarrow> container \<Rightarrow> bytes \<Rightarrow> metadata \<Rightarrow> bytes \<Rightarrow> bool" where
  "reads_as env w raw md bs \<longleftrightarrow> layers_Open env w (Inr md) (Inr (raw, None)) = Inr (bs, None)"

text \<open>The outcome of a successful put of \<open>bs\<close>, announced with size \<open>n\<close> and metadata \<open>md\<close>.\<close>

definition put_ok :: "('c, 'i) cenv \<Rightarrow> ('c \<Rightarrow> bool) \<Rightarrow> ('c \<Rightarrow> string \<Rightarrow> bytes option) \<Rightarrow> ('c \<Rightarrow> string \<Rightarrow> metadata) \<Rightarrow>
    container \<Rightarrow> 'c \<Rightarrow> string \<Rightarrow> bytes \<Rightarrow> i64 \<Rightarrow> metadata \<Rightarrow> (goerr + 'i item) \<times> ('c \<times> nat) \<Rightarrow> bool" where
  "put_ok env cinv cmap cmd w c name bs n md r \<longleftrightarrow>
     (\<exists>it c' k' raw md'. r = (Inr it, (c', k')) \<and> cinv c' \<and>
        cmap c' = (cmap c)(name \<mapsto> raw) \<and> cmd c' = (cmd c)(name := md') \<and> item_Name env it = name \<and>
        ct_Name (ce_base env) c' = ct_Name (ce_base env) c \<and> (\<forall>h. h \<notin> headers w \<longrightarrow> map_of md' h = map_of md h) \<and>
        reads_as env w raw md' bs \<and>
        (n = int (length bs) \<longrightarrow> layers_Size w (Inr md') (Inr (int (length raw))) = Inr n))"

text \<open>One more layer, which adds the metadata \<open>H\<close>, turns \<open>bs\<close> into \<open>data\<close>, and inverts that when it reads.\<close>

lemma put_ok_layer:
  assumes "put_ok env cinv cmap cmd w c name data n1 md1 r" "H \<inter> headers w = {}" "headers w' = H \<union> headers w"
    and "\<And>h. h \<notin> H \<Longrightarrow> map_of md1 h = map_of md h"
    and "\<And>md' raw. \<forall>h \<in> H. map_of md' h = map_of md1 h \<Longrightarrow> reads_as env w raw md' data \<Longrightarrow>
      n1 = int (length data) \<longrightarrow> layers_Size w (Inr md') (Inr (int (length raw))) = Inr n1 \<Longrightarrow>
      reads_as env w' raw md' bs \<and> (n = int (length bs) \<longrightarrow> layers_Size w' (Inr md') (Inr (int (length raw))) = Inr n)"
  shows "put_ok env cinv cmap cmd w' c name bs n md r"
proof -
  obtain it c' k' raw md' where r: "r = (Inr it, (c', k'))" "cinv c'"
    "cmap c' = (cmap c)(name \<mapsto> raw)" "cmd c' = (cmd c)(name := md')" "item_Name env it = name"
    "ct_Name (ce_base env) c' = ct_Name (ce_base env) c" "\<forall>h. h \<notin> headers w \<longrightarrow> map_of md' h = map_of md1 h"
    "reads_as env w raw md' data" "n1 = int (length data) \<longrightarrow> layers_Size w (Inr md') (Inr (int (length raw))) = Inr n1"
    using assms(1) unfolding put_ok_def by blast
  have "\<forall>h \<in> H. map_of md' h = map_of md1 h" using r(7) assms(2) by blast
  from assms(5) [OF this r(8,9)] have "reads_as env w' raw md' bs"
    "n = int (length bs) \<longrightarrow> layers_Size w' (Inr md') (Inr (int (length raw))) = Inr n" by blast+
  moreover have "\<forall>h. h \<notin> headers w' \<longrightarrow> map_of md' h = map_of md h" using r(7) assms(3,4) by auto
  ultimately show ?thesis unfolding put_ok_def using r(1-6) by blast
qed

lemma put_layers:
  assumes env: "base_ok env cinv cmap cmd" "env_ok env"
  shows "layers_ok w \<Longrightarrow> cinv c \<Longrightarrow> n = int (length bs) \<or> n = ce_SizeUnknown env \<Longrightarrow> in64 n \<Longrightarrow>
    \<forall>h \<in> headers w. map_of md h = None \<Longrightarrow>
    put_ok env cinv cmap cmd w c name bs n md (cont_Put env w (c, k) name (bs, None) n md)"
proof (induction w arbitrary: k n bs md)
  case BaseContainer
  then obtain it c' where "ct_Put (ce_base env) c name (bs, None) n md = (Inr it, c')" "cinv c'"
    "cmap c' = (cmap c)(name \<mapsto> bs)" "cmd c' = (cmd c)(name := md)" "it_Name (ce_base env) it = name"
    "ct_Name (ce_base env) c' = ct_Name (ce_base env) c"
    using base_Put [OF env(1)] by blast
  then show ?case
    unfolding put_ok_def by (intro exI [of _ "BaseItem it"] exI [of _ c'] exI [of _ k] exI [of _ bs] exI [of _ md])
      (simp add: reads_as_def)
next
  case (encryptedContainer w m key)
  have w: "layers_ok w" "enc_headers \<inter> headers w = {}" and hd: "\<forall>h \<in> headers w. map_of md h = None"
    "map_of md encryptMetaAlgoHeader = None"
    using encryptedContainer.prems(1,5) by auto
  show ?case
  proof (cases "m = enc_ModeIdentity")
    case True
    have "put_ok env cinv cmap cmd w c name bs n md (cont_Put env w (c, k) name (bs, None) n md)"
      by (rule encryptedContainer.IH [OF w(1) encryptedContainer.prems(2-4) hd(1)])
    from put_ok_layer [OF this w(2), of "encryptedContainer w m key" md bs n] show ?thesis
      using True hd(2) by (simp add: reads_as_def encItem_Open_def encItem_Mode_def encItem_Size_def)
  next
    case False
    then have m: "enc_mode_ok m" "length key \<in> {16, 24, 32}" using encryptedContainer.prems(1) by auto
    obtain iv where iv: "ce_rand env k = Some iv" "length iv = 16" using env(2) by (auto simp: env_ok_def)
    obtain data md1 where e: "enc_encode m key (Some iv) (bs, None) n md = Inr ((data, None), md1)"
      "\<And>h. h \<notin> enc_headers \<Longrightarrow> map_of md1 h = map_of md h"
      "\<And>md'. \<forall>h \<in> enc_headers. map_of md' h = map_of md1 h \<Longrightarrow> encItem_Open (Inr md') key (Inr (data, None)) = Inr (bs, None)"
      "\<And>md' inner. \<forall>h \<in> enc_headers. map_of md' h = map_of md1 h \<Longrightarrow> encItem_Size (Inr md') inner = Inr n"
      by (rule enc_encode_decode [OF m iv(2) encryptedContainer.prems(4), where bs = bs and md = md]) (rule that)
    have "\<forall>h \<in> headers w. map_of md1 h = None" using e(2) w(2) hd(1) by (metis disjoint_iff)
    with encryptedContainer.IH [OF w(1) encryptedContainer.prems(2), of "ce_SizeUnknown env" data md1 "Suc k"] env(2)
    have "put_ok env cinv cmap cmd w c name data (ce_SizeUnknown env) md1
        (cont_Put env w (c, Suc k) name (data, None) (ce_SizeUnknown env) md1)"
      by (simp add: env_ok_def)
    from put_ok_layer [OF this w(2), of "encryptedContainer w m key" md bs n] show ?thesis
      using False iv(1) e by (simp add: reads_as_def)
  qed
next
  case (compressedContainer w m)
  have w: "layers_ok w" "cmp_headers \<inter> headers w = {}" and hd: "\<forall>h \<in> headers w. map_of md h = None"
    "map_of md compressMetaAlgoHeader = None"
    using compressedContainer.prems(1,5) by auto
  show ?case
  proof (cases "m = cmp_ModeIdentity")
    case True
    have "put_ok env cinv cmap cmd w c name bs n md (cont_Put env w (c, k) name (bs, None) n md)"
      by (rule compressedContainer.IH [OF w(1) compressedContainer.prems(2-4) hd(1)])
    from put_ok_layer [OF this w(2), of "compressedContainer w m" md bs n] show ?thesis
      using True hd(2) by (simp add: reads_as_def cmpItem_Open_def cmpItem_Mode_def cmpItem_Size_def)
  next
    case False
    then have m: "cmp_mode_ok m" "codecs_ok (ce_codecs env)" using compressedContainer.prems(1) env(2) by (auto simp: env_ok_def)
    obtain data md1 where e: "cmp_encode (ce_codecs env) m (bs, None) n md = Inr ((data, None), md1)"
      "\<And>h. h \<notin> cmp_headers \<Longrightarrow> map_of md1 h = map_of md h"
      "\<And>md'. \<forall>h \<in> cmp_headers. map_of md' h = map_of md1 h \<Longrightarrow>
         cmpItem_Open (ce_codecs env) (Inr md') (Inr (data, None)) = Inr (bs, None)"
      "\<And>md' inner. \<forall>h \<in> cmp_headers. map_of md' h = map_of md1 h \<Longrightarrow> cmpItem_Size (Inr md') inner = Inr n"
      by (rule cmp_encode_decode [OF m compressedContainer.prems(4), where bs = bs and md = md]) (rule that)
    have "\<forall>h \<in> headers w. map_of md1 h = None" using e(2) w(2) hd(1) by (metis disjoint_iff)
    with compressedContainer.IH [OF w(1) compressedContainer.prems(2), of "ce_SizeUnknown env" data md1 k] env(2)
    have "put_ok env cinv cmap cmd w c name data (ce_SizeUnknown env) md1
        (cont_Put env w (c, k) name (data, None) (ce_SizeUnknown env) md1)"
      by (simp add: env_ok_def)
    from put_ok_layer [OF this w(2), of "compressedContainer w m" md bs n] show ?thesis
      using False e by (simp add: reads_as_def)
  qed
qed

section \<open>The layered container\<close>

text \<open>A container whose layers do nothing.\<close>

fun plain :: "container \<Rightarrow> bool" where
  "plain BaseContainer = True"
| "plain (encryptedContainer w m key) \<longleftrightarrow> plain w \<and> m = enc_ModeIdentity"
| "plain (compressedContainer w m) \<longleftrightarrow> plain w \<and> m = cmp_ModeIdentity"

definition wmap :: "('c, 'i) cenv \<Rightarrow> container \<Rightarrow> ('c \<Rightarrow> string \<Rightarrow> bytes option) \<Rightarrow> ('c \<Rightarrow> string \<Rightarrow> metadata) \<Rightarrow>
    'c \<times> nat \<Rightarrow> string \<Rightarrow> bytes option" where
  "wmap env w cmap cmd s nm =
     (case cmap (fst s) nm of
        None \<Rightarrow> None
      | Some raw \<Rightarrow>
        (case layers_Open env w (Inr (cmd (fst s) nm)) (Inr (raw, None)) of Inr (bs, None) \<Rightarrow> Some bs | _ \<Rightarrow> None))"

definition winv :: "('c, 'i) cenv \<Rightarrow> container \<Rightarrow> ('c \<Rightarrow> bool) \<Rightarrow> ('c \<Rightarrow> string \<Rightarrow> bytes option) \<Rightarrow> ('c \<Rightarrow> string \<Rightarrow> metadata) \<Rightarrow>
    'c \<times> nat \<Rightarrow> bool" where
  "winv env w cinv cmap cmd s \<longleftrightarrow> cinv (fst s) \<and>
     (\<forall>nm raw. cmap (fst s) nm = Some raw \<longrightarrow>
        (\<exists>bs. reads_as env w raw (cmd (fst s) nm) bs \<and> (plain w \<longrightarrow> bs = raw) \<and>
           layers_Size w (Inr (cmd (fst s) nm)) (Inr (int (length raw))) = Inr (int (length bs))))"

definition wproper :: "container \<Rightarrow> 'i item \<Rightarrow> bool" where
  "wproper w it \<longleftrightarrow> (\<exists>b. it = wrap_item w b) \<or> plain w \<and> (\<exists>b. it = BaseItem b)"

lemma winvD:
  assumes "winv env w cinv cmap cmd s" "cmap (fst s) nm = Some raw"
  obtains bs where "reads_as env w raw (cmd (fst s) nm) bs" "plain w \<longrightarrow> bs = raw" "wmap env w cmap cmd s nm = Some bs"
    "layers_Size w (Inr (cmd (fst s) nm)) (Inr (int (length raw))) = Inr (int (length bs))"
  using assms by (auto simp: winv_def wmap_def reads_as_def)

lemma wmap_None [simp]: "cmap (fst s) nm = None \<Longrightarrow> wmap env w cmap cmd s nm = None"
  by (simp add: wmap_def)

lemma wmap_eq_None: "winv env w cinv cmap cmd s \<Longrightarrow> wmap env w cmap cmd s nm = None \<longleftrightarrow> cmap (fst s) nm = None"
  by (cases "cmap (fst s) nm") (auto elim: winvD)

lemma plain_Put: "plain w \<Longrightarrow> cont_Put env w s name rdr n md = cont_Put env BaseContainer s name rdr n md"
  by (induction w) auto

lemma container_Put:
  assumes env: "base_ok env cinv cmap cmd" "env_ok env" "layers_ok w" and inv: "winv env w cinv cmap cmd s"
    and len: "int (length bs) < 2 ^ 63"
  shows "\<exists>it s'. cont_Put env w s name (bs, None) (int (length bs)) [] = (Inr it, s') \<and> winv env w cinv cmap cmd s' \<and>
    wmap env w cmap cmd s' = (wmap env w cmap cmd s)(name \<mapsto> bs) \<and> item_Name env it = name \<and>
    ct_Name (ce_base env) (fst s') = ct_Name (ce_base env) (fst s)"
proof -
  have c: "cinv (fst s)" using inv by (simp add: winv_def)
  have n: "int (length bs) = int (length bs) \<or> int (length bs) = ce_SizeUnknown env" "in64 (int (length bs))"
    using len by (simp_all add: in64_def)
  obtain it c' k' raw md' where p: "cont_Put env w s name (bs, None) (int (length bs)) [] = (Inr it, (c', k'))" "cinv c'"
    "cmap c' = (cmap (fst s))(name \<mapsto> raw)" "cmd c' = (cmd (fst s))(name := md')" "item_Name env it = name"
    "ct_Name (ce_base env) c' = ct_Name (ce_base env) (fst s)" "reads_as env w raw md' bs"
    "layers_Size w (Inr md') (Inr (int (length raw))) = Inr (int (length bs))"
    using put_layers [OF env(1,2,3) c n, of "[]" name "snd s"] unfolding put_ok_def prod.collapse by (simp, blast)
  have "plain w \<longrightarrow> bs = raw"
  proof
    assume "plain w"
    then obtain c'' where "cmap c'' = (cmap (fst s))(name \<mapsto> bs)" "c'' = c'"
      using p(1) base_Put [OF env(1) c n(1), of name "[]"] by (auto simp: plain_Put)
    then show "bs = raw" using p(3) by (metis fun_upd_same option.inject)
  qed
  then have "winv env w cinv cmap cmd (c', k')" using inv p(2-4,7,8) by (auto simp: winv_def)
  moreover have "wmap env w cmap cmd (c', k') = (wmap env w cmap cmd s)(name \<mapsto> bs)"
    using p(3,4,7) by (auto simp: wmap_def reads_as_def fun_eq_iff split: option.split)
  ultimately show ?thesis using p(1,5,6) by (intro exI [of _ it] exI [of _ "(c', k')"]) simp
qed

lemma container_item:
  assumes env: "base_ok env cinv cmap cmd" and inv: "winv env w cinv cmap cmd s" and it: "wproper w it"
    and bs: "wmap env w cmap cmd s (item_Name env it) = Some bs"
  shows "item_Size env (fst s) it = Inr (int (length bs)) \<and> item_Open env (fst s) it = Inr (bs, None)"
proof -
  have c: "cinv (fst s)" using inv by (simp add: winv_def)
  obtain b where b: "it = wrap_item w b \<or> plain w \<and> it = BaseItem b" using it by (auto simp: wproper_def)
  then have nm: "item_Name env it = it_Name (ce_base env) b" by auto
  let ?nm = "it_Name (ce_base env) b"
  obtain raw where raw: "cmap (fst s) ?nm = Some raw" using bs nm by (cases "cmap (fst s) ?nm") auto
  obtain md where md: "it_Metadata (ce_base env) (fst s) b = Inr md" "map_of md = map_of (cmd (fst s) ?nm)"
    using base_item(3) [OF env c raw] by blast
  show ?thesis
    by (rule winvD [OF inv raw])
      (use b bs nm raw md base_item(1,2) [OF env c raw] layers_cong(1) [OF md(2), where env = env and w = w]
        layers_cong(2) [OF md(2), where w = w] in \<open>auto simp: reads_as_def\<close>)
qed

lemma container_Items:
  assumes env: "base_ok env cinv cmap cmd" and inv: "winv env w cinv cmap cmd s"
    and fin: "finite {nm. wmap env w cmap cmd s nm \<noteq> None \<and> take (length prefix) nm = prefix}"
    and card: "card {nm. wmap env w cmap cmd s nm \<noteq> None \<and> take (length prefix) nm = prefix} < n"
  shows "\<exists>its. cont_Items env w (fst s) prefix n = Inr (its, True) \<and> distinct (map (item_Name env) its) \<and>
    (\<forall>it \<in> set its. wproper w it) \<and>
    set (map (item_Name env) its) = {nm. wmap env w cmap cmd s nm \<noteq> None \<and> take (length prefix) nm = prefix}"
proof -
  have eq: "{nm. wmap env w cmap cmd s nm \<noteq> None \<and> take (length prefix) nm = prefix} =
      {nm. cmap (fst s) nm \<noteq> None \<and> take (length prefix) nm = prefix}" (is "?A = ?B")
    using wmap_eq_None [OF inv] by auto
  have c: "cinv (fst s)" using inv by (simp add: winv_def)
  obtain its where its: "ct_Items (ce_base env) (fst s) prefix n = Inr (its, True)" "distinct (map (it_Name (ce_base env)) its)"
    "set (map (it_Name (ce_base env)) its) = ?B"
    using base_Items [OF env c] fin card unfolding eq by blast
  have "item_Name env \<circ> wrap_item w = it_Name (ce_base env)" by (simp add: fun_eq_iff)
  then show ?thesis
    using its unfolding eq by (intro exI [of _ "map (wrap_item w) its"]) (auto simp: cont_Items_wrap wproper_def)
qed

lemma container_stow_ok:
  assumes "base_ok env cinv cmap cmd" "env_ok env" "layers_ok w"
  shows "stow_ok (container_ops env w) (winv env w cinv cmap cmd) (wmap env w cmap cmd) (wproper w)"
  unfolding stow_ok_def container_ops_def stow_ops.simps
proof (intro conjI allI impI, goal_cases)
  case (1 s name bs)
  then show ?case by (rule container_Put [OF assms])
next
  case (2 s it bs)
  then show ?case using container_item [OF assms(1)] by blast
next
  case (3 s it bs)
  then show ?case using container_item [OF assms(1)] by blast
next
  case (4 s prefix n)
  then show ?case by (rule container_Items [OF assms(1)])
qed

lemma plain_put_proper: "plain w \<Longrightarrow> put_proper (container_ops env w) (wproper w)"
  by (auto simp: put_proper_def container_ops_def plain_Put wproper_def split: sum.splits prod.splits)

section \<open>An instance of the parameters\<close>

text \<open>A base container that keeps its objects and their metadata in a list, and formats that store the
  data as it is.\<close>

type_synonym list_cont = "(string \<times> bytes \<times> metadata) list"

definition list_base :: "(list_cont, string) stow_ops" where
  "list_base = \<lparr>ct_Name = (\<lambda>_. ''vol''),
     ct_Put = (\<lambda>c name rdr n md. case snd rdr of
        Some e \<Rightarrow> (Inl e, c)
      | None \<Rightarrow> (Inr name, (name, fst rdr, md) # filter (\<lambda>x. fst x \<noteq> name) c)),
     ct_Item = (\<lambda>c nm. if map_of c nm = None then (None, Some ErrNotFound) else (Some nm, None)),
     ct_Items = (\<lambda>c prefix n. let nms = filter (\<lambda>nm. take (length prefix) nm = prefix) (map fst c) in
        Inr (take n nms, length nms \<le> n)),
     it_Name = (\<lambda>it. it),
     it_Size = (\<lambda>c it. case map_of c it of None \<Rightarrow> Inl ErrNotFound | Some (bs, _) \<Rightarrow> Inr (int (length bs))),
     it_Open = (\<lambda>c it. case map_of c it of None \<Rightarrow> Inl ErrNotFound | Some (bs, _) \<Rightarrow> Inr (bs, None)),
     it_ETag = (\<lambda>c it. case map_of c it of None \<Rightarrow> Inl ErrNotFound | Some (bs, _) \<Rightarrow> Inr (hex_Encode bs)),
     it_Metadata = (\<lambda>c it. case map_of c it of None \<Rightarrow> Inl ErrNotFound | Some (_, md) \<Rightarrow> Inr md)\<rparr>"

definition stored_codec :: codec where
  "stored_codec = \<lparr>cd_enc = (\<lambda>bs. bs), cd_part = (\<lambda>bs. bs), cd_new = (\<lambda>_. None), cd_dec = (\<lambda>rdr. rdr)\<rparr>"

definition list_env :: "(list_cont, string) cenv" where
  "list_env = \<lparr>ce_base = list_base, ce_rand = (\<lambda>k. Some (replicate 15 0 @ [of_nat k])),
     ce_codecs = \<lparr>c_gzip = stored_codec, c_s2 = stored_codec\<rparr>, ce_SizeUnknown = - 1\<rparr>"

abbreviation list_inv :: "list_cont \<Rightarrow> bool" where
  "list_inv c \<equiv> distinct (map fst c)"

definition list_map :: "list_cont \<Rightarrow> string \<Rightarrow> bytes option" where
  "list_map c nm = map_option fst (map_of c nm)"

definition list_md :: "list_cont \<Rightarrow> string \<Rightarrow> metadata" where
  "list_md c nm = (case map_of c nm of None \<Rightarrow> [] | Some (_, md) \<Rightarrow> md)"

lemma map_of_filter_neq: "map_of (filter (\<lambda>x. fst x \<noteq> name) c) nm = (if nm = name then None else map_of c nm)"
  by (induction c) auto

lemma list_env_ok: "env_ok list_env"
  by (simp add: env_ok_def list_env_def codecs_ok_def codec_ok_def stored_codec_def in64_def)

lemma list_names:
  assumes "list_inv c"
  shows "{nm. list_map c nm \<noteq> None \<and> take (length p) nm = p} = set (filter (\<lambda>nm. take (length p) nm = p) (map fst c))"
  by (auto simp: list_map_def map_of_eq_None_iff image_iff)

lemma list_base_ok: "base_ok list_env list_inv list_map list_md"
  unfolding base_ok_def
proof (intro conjI allI impI, goal_cases)
  case (1 c name bs n md)
  then show ?case
    by (auto simp: list_env_def list_base_def list_map_def list_md_def fun_eq_iff map_of_filter_neq distinct_map_filter)
next
  case (2 c it bs)
  then show ?case by (auto simp: list_env_def list_base_def list_map_def list_md_def)
next
  case (3 c it bs)
  then show ?case by (auto simp: list_env_def list_base_def list_map_def list_md_def)
next
  case (4 c it bs)
  then show ?case by (auto simp: list_env_def list_base_def list_map_def list_md_def)
next
  case (5 c prefix n)
  let ?nms = "filter (\<lambda>nm. take (length prefix) nm = prefix) (map fst c)"
  have "distinct ?nms" using 5(1) by simp
  then have "length ?nms < n" using 5(3) distinct_card [of ?nms] unfolding list_names [OF 5(1)] by simp
  then show ?case
    using \<open>distinct ?nms\<close> unfolding list_names [OF 5(1)] by (simp add: list_env_def list_base_def Let_def)
qed

end
