(* ===== verification/Container_Props.thy ===== *)
theory Container_Props
  imports Container_Laws
begin

text \<open>
  Properties of the encrypting and compressing containers of \<^verbatim>\<open>src/pkg/devices/objstore/encrypt\<close> and
  \<^verbatim>\<open>src/pkg/devices/objstore/compress\<close>, in any nesting over a container that keeps its laws.
\<close>

text \<open>
  C11: what is put into a container with encryption and compression layers is what its items read: every
  listed item of that name opens to the bytes that were put and reports their number, and the
  contents of the other objects do not change.
\<close>

theorem container_roundtrip:
  assumes env: "base_ok env cinv cmap cmd" "env_ok env" "layers_ok w" and inv: "winv env w cinv cmap cmd s"
    and len: "int (length bs) < 2 ^ 63"
  shows "\<exists>it0 s'. cont_Put env w s name (bs, None) (int (length bs)) [] = (Inr it0, s') \<and>
    wmap env w cmap cmd s' = (wmap env w cmap cmd s)(name \<mapsto> bs) \<and>
    (\<forall>prefix n its more. cont_Items env w (fst s') prefix n = Inr (its, more) \<longrightarrow>
       (\<forall>it \<in> set its. item_Name env it = name \<longrightarrow>
          item_Open env (fst s') it = Inr (bs, None) \<and> item_Size env (fst s') it = Inr (int (length bs))))"
proof -
  obtain it0 s' where put: "cont_Put env w s name (bs, None) (int (length bs)) [] = (Inr it0, s')" "winv env w cinv cmap cmd s'"
    "wmap env w cmap cmd s' = (wmap env w cmap cmd s)(name \<mapsto> bs)"
    using container_Put [OF env inv len] by blast
  have "wproper w it" if "cont_Items env w (fst s') prefix n = Inr (its, more)" "it \<in> set its" for prefix n its more it
    using that by (auto simp: cont_Items_wrap wproper_def split: sum.splits)
  then show ?thesis
    using put container_item [OF env(1) put(2)] by (intro exI [of _ it0] exI [of _ s']) auto
qed

definition both_layers :: container where
  "both_layers = compressedContainer (encryptedContainer BaseContainer ModeAESCTR (replicate 16 1)) ModeGzip"

theorem container_roundtrip_witness:
  "\<exists>it0 s'. cont_Put list_env both_layers ([], 0) ''x'' ([1, 2], None) (int (length [1, 2 :: u8])) [] = (Inr it0, s') \<and>
    (\<forall>prefix n its more. cont_Items list_env both_layers (fst s') prefix n = Inr (its, more) \<longrightarrow>
       (\<forall>it \<in> set its. item_Name list_env it = ''x'' \<longrightarrow> item_Open list_env (fst s') it = Inr ([1, 2], None)))"
proof -
  have "layers_ok both_layers" by (simp add: both_layers_def enc_mode_ok_def cmp_mode_ok_def encrypt_headers compress_headers)
  moreover have "winv list_env both_layers list_inv list_map list_md ([], 0)" by (simp add: winv_def list_map_def)
  moreover have "int (length [1, 2 :: u8]) < 2 ^ 63" by simp
  ultimately show ?thesis
    using container_roundtrip [OF list_base_ok list_env_ok, of both_layers "([], 0)" "[1, 2]" "''x''"] by blast
qed

text \<open>
  C29: the item that a put answers is the item of the innermost container, without the layers: it opens to
  the stored form of the object, not to the bytes that were put.
\<close>

theorem put_item_has_no_layers:
  assumes "cont_Put env w s name rdr n md = (Inr it, s')"
  shows "\<exists>b. it = BaseItem b \<and> (\<forall>c. item_Open env c it = it_Open (ce_base env) c b)"
  using assms
  by (induction env w s name rdr n md rule: cont_Put.induct) (auto split: prod.splits sum.splits if_splits)

theorem put_item_has_no_layers_witness:
  "let env = list_env\<lparr>ce_codecs := \<lparr>c_gzip = stored_codec\<lparr>cd_enc := Cons 31, cd_dec := apfst tl\<rparr>, c_s2 = stored_codec\<rparr>\<rparr>;
     w = compressedContainer BaseContainer ModeGzip
   in \<exists>it s'. cont_Put env w ([], 0) ''x'' ([1, 2], None) 2 [] = (Inr it, s') \<and> item_Open env (fst s') it = Inr ([31, 1, 2], None) \<and>
     item_Open env (fst s') (wrap_item w ''x'') = Inr ([1, 2], None)"
proof -
  let ?env = "list_env\<lparr>ce_codecs := \<lparr>c_gzip = stored_codec\<lparr>cd_enc := Cons 31, cd_dec := apfst tl\<rparr>, c_s2 = stored_codec\<rparr>\<rparr>"
  let ?w = "compressedContainer BaseContainer ModeGzip"
  obtain c where put: "cont_Put ?env ?w ([], 0) ''x'' ([1, 2], None) 2 [] = (Inr (BaseItem ''x''), (c, 0))"
    "map_of c ''x'' = Some ([31, 1, 2], [(compressMetaSizeHeader, MdString (FormatInt 2 36)),
        (compressMetaAlgoHeader, MdString (cmp_AlgoName ModeGzip))])"
    by (auto simp: list_env_def list_base_def cmp_encode_def cmp_NewWriter_def cd_write_def stored_codec_def
        cmp_modes)
  have "item_Open ?env c (BaseItem ''x'') = it_Open (ce_base ?env) c ''x''"
    using put_item_has_no_layers [OF put(1)] by auto
  then have "item_Open ?env c (BaseItem ''x'') = Inr ([31, 1, 2], None)"
    using put(2) by (simp add: list_env_def list_base_def)
  moreover have "item_Open ?env c (wrap_item ?w ''x'') = Inr ([1, 2], None)"
    using put(2) by (simp add: list_env_def list_base_def cmpItem_Open_def cmpItem_Mode_def compress_headers cmp_ModeFromName_AlgoName
        cmp_mode_ok_def cmp_NewReader_def stored_codec_def) (simp add: cmp_modes)
  ultimately show ?thesis using put(1) by (simp add: Let_def)
qed

end
