(* ===== verification/Objopts.thy ===== *)
theory Objopts
  imports Objdev Container_Laws
begin

text \<open>
  Building an object store device: the options of \<^verbatim>\<open>src/pkg/devices/objstore/options.go\<close>, and
  \<open>applyOpts\<close> and \<open>NewDevice\<close> of \<^verbatim>\<open>src/pkg/devices/objstore/device.go\<close>. The semaphore package is a
  parameter, the constructor of a semaphore with a number of units. A nil context or container is
  \<^const>\<open>None\<close>.
\<close>

section \<open>Options\<close>

datatype option' =
    OptAutoflushIval i64
  | OptConcurFlushCount u64
  | OptCompressRemoteObjects u8
  | OptNoMetadataSupport bool
  | OptThickProvisionLocalFiles bool
  | OptEncrypt u8 bytes
  | OptQuotaBytes i64
  | OptPersistCache bool

record devopts =
  do_autoflush :: i64
  do_concurFlush :: u64
  do_compressMode :: u8
  do_quotaBytes :: i64
  do_noMetadata :: bool
  do_thickProvision :: bool
  do_persistCache :: bool
  do_encryptMode :: u8
  do_encryptKey :: bytes

definition no_opts :: devopts where
  "no_opts = \<lparr>do_autoflush = 0, do_concurFlush = 0, do_compressMode = 0, do_quotaBytes = 0, do_noMetadata = False,
     do_thickProvision = False, do_persistCache = False, do_encryptMode = 0, do_encryptKey = []\<rparr>"

fun opt_apply :: "option' \<Rightarrow> devopts \<Rightarrow> devopts" where
  "opt_apply (OptAutoflushIval interval) dev = dev\<lparr>do_autoflush := interval\<rparr>"
| "opt_apply (OptConcurFlushCount count) dev = dev\<lparr>do_concurFlush := count\<rparr>"
| "opt_apply (OptCompressRemoteObjects mode) dev = dev\<lparr>do_compressMode := mode\<rparr>"
| "opt_apply (OptNoMetadataSupport noMeta) dev = dev\<lparr>do_noMetadata := noMeta\<rparr>"
| "opt_apply (OptThickProvisionLocalFiles thick) dev = dev\<lparr>do_thickProvision := thick\<rparr>"
| "opt_apply (OptEncrypt mode key) dev = dev\<lparr>do_encryptMode := mode, do_encryptKey := key\<rparr>"
| "opt_apply (OptQuotaBytes quota) dev = dev\<lparr>do_quotaBytes := quota\<rparr>"
| "opt_apply (OptPersistCache keep) dev = dev\<lparr>do_persistCache := keep\<rparr>"

section \<open>Constructor\<close>

text \<open>The semaphore package: the operations of a semaphore with a capacity, and its initial state.\<close>

record 's sema_pkg =
  sk_ops :: "nat \<Rightarrow> 's sema_ops"
  sk_new :: "nat \<Rightarrow> 's"

text \<open>\<open>applyOpts\<close> answers the options, the container to use and the number of units of the quota, if
  there is one. Starting the flush worker has no other effect on the device.\<close>

definition applyOpts :: "option' list \<Rightarrow> container \<Rightarrow> i64 \<Rightarrow> i64 \<Rightarrow> (goerr + devopts \<times> container \<times> nat option) go" where
  "applyOpts options cont totalBytes segmentBytes =
     (let dev = fold opt_apply options no_opts;
          withQuota = (\<lambda>cont.
            let dev = (if do_concurFlush dev < 1 then dev\<lparr>do_concurFlush := 1\<rparr> else dev) in
            if do_quotaBytes dev > 0 then
              (if do_quotaBytes dev < segmentBytes
               then Ret (Inl (Msg ''Provided quota was smaller than a single segment/object''))
               else if do_quotaBytes dev < totalBytes
               then (if segmentBytes = 0 then Panic
                     else Ret (Inr (dev, cont, Some (nat (do_quotaBytes dev sdiv segmentBytes)))))
               else Ret (Inr (dev, cont, None)))
            else Ret (Inr (dev, cont, None)))
      in
      if do_noMetadata dev then
        (if do_compressMode dev \<noteq> cmp_ModeIdentity
         then Ret (Inl (Msg ''Backing store does not support metadata, but store compression is enabled''))
         else if do_encryptMode dev \<noteq> enc_ModeIdentity
         then Ret (Inl (Msg ''Backing store does not support metadata, but store encryption is enabled''))
         else withQuota cont)
      else if do_encryptMode dev \<noteq> enc_ModeIdentity then
        (if length (do_encryptKey dev) < 1
         then Ret (Inl (Msg ''store encryption is enabled but no key was provided''))
         else
           (case ValidAESKey (do_encryptKey dev) of
              Some e \<Rightarrow> Ret (Inl (Wrap ''Invalid AES key provided'' e))
            | None \<Rightarrow> withQuota (NewCompressedContainer
                (NewEncryptedContainer cont (do_encryptMode dev) (do_encryptKey dev)) (do_compressMode dev))))
      else withQuota (NewCompressedContainer cont (do_compressMode dev)))"

text \<open>\<open>NewDevice\<close>. The sizes are unsigned machine words that become signed ones.\<close>

definition NewDevice :: "('c, 'i) cenv \<Rightarrow> 's sema_pkg \<Rightarrow> unit option \<Rightarrow> container option \<Rightarrow> string \<Rightarrow> u64 \<Rightarrow> u64 \<Rightarrow>
    option' list \<Rightarrow> ('c \<times> nat, 's) world \<Rightarrow> (goerr + ('c \<times> nat, 'i item, 's) objdev) go" where
  "NewDevice env sk ctx cont cacheDir totalBytes objectBytes options w =
     (case (ctx, cont) of
        (None, _) \<Rightarrow> Ret (Inl (Msg ''Provided context was nil''))
      | (_, None) \<Rightarrow> Ret (Inl (Msg ''Provided container was nil''))
      | (Some _, Some cont) \<Rightarrow>
        (if totalBytes < objectBytes
         then Ret (Inl (Msg ''Provided object size must be not exceeds provided total size''))
         else
           go_bind (applyOpts options cont (sint totalBytes) (sint objectBytes)) (\<lambda>r.
           case r of
             Inl e \<Rightarrow> Ret (Inl (Wrap ''Could not apply configuration options'' e))
           | Inr (dev, cont, quota) \<Rightarrow>
             (let sp = \<lparr>sp_container = container_ops env cont, sp_segmentBytes = sint objectBytes, sp_cacheDir = cacheDir,
                    sp_thickProvision = do_thickProvision dev, sp_persistCache = do_persistCache dev,
                    sp_quotaSema = map_option (sk_ops sk) quota\<rparr>;
                  w = (case quota of None \<Rightarrow> w | Some n \<Rightarrow> w\<lparr>w_sema := sk_new sk n\<rparr>)
              in
              go_bind (loadSegments sp (sint totalBytes) w) (\<lambda>r.
              case r of
                Inl e \<Rightarrow> Ret (Inl (Wrap ''Could not create device'' e))
              | Inr segs \<Rightarrow>
                Ret (Inr \<lparr>od_cancelled = False, od_totalBytes = sint totalBytes, od_segments = segs, od_params = sp,
                  od_world = w\<rparr>))))))"

section \<open>Facts\<close>

text \<open>The containers that \<open>applyOpts\<close> builds over a base container have well-formed layers when the modes
  are known.\<close>

lemma applyOpts_layers:
  assumes "applyOpts options BaseContainer totalBytes segmentBytes = Ret (Inr (dev, cont, quota))"
    and "do_compressMode dev = cmp_ModeIdentity \<or> cmp_mode_ok (do_compressMode dev)"
    and "do_encryptMode dev = enc_ModeIdentity \<or> enc_mode_ok (do_encryptMode dev)"
  shows "layers_ok cont"
    "plain cont \<longleftrightarrow> do_compressMode dev = cmp_ModeIdentity \<and> do_encryptMode dev = enc_ModeIdentity"
  using assms ValidAESKey_length
  by (auto simp: applyOpts_def Let_def NewCompressedContainer_def NewEncryptedContainer_def encrypt_headers compress_headers
      split: if_splits option.splits)

lemma applyOpts_accepts:
  assumes dev: "dev = fold opt_apply options no_opts"
    and size: "0 < segmentBytes" "do_quotaBytes dev \<le> 0 \<or> segmentBytes \<le> do_quotaBytes dev"
    and md: "do_noMetadata dev \<longrightarrow> do_compressMode dev = cmp_ModeIdentity \<and> do_encryptMode dev = enc_ModeIdentity"
    and key: "do_encryptMode dev \<noteq> enc_ModeIdentity \<longrightarrow> ValidAESKey (do_encryptKey dev) = None"
  shows "\<exists>dev' cont quota. applyOpts options cont0 totalBytes segmentBytes = Ret (Inr (dev', cont, quota)) \<and>
    do_compressMode dev' = do_compressMode dev \<and> do_encryptMode dev' = do_encryptMode dev"
proof -
  have "\<not> length (do_encryptKey dev) < 1" if "do_encryptMode dev \<noteq> enc_ModeIdentity"
    using ValidAESKey_length [of "do_encryptKey dev"] key that by auto
  then show ?thesis using size md key by (auto simp: applyOpts_def Let_def simp flip: dev)
qed

end
