(* ===== verification/Objdev_New.thy ===== *)
theory Objdev_New
  imports Objdev_Disk Objopts
begin

text \<open>
  The constructor establishes the invariant of the device: on a container that holds the objects of
  an earlier device, or none, the new device stands for the stored bytes.
\<close>

section \<open>Specification of a constructed device\<close>

text \<open>The specification that belongs to a container, to laws of its base and to a quota.\<close>

definition cont_spec :: "('c, 'i) cenv \<Rightarrow> container \<Rightarrow> ('c \<Rightarrow> bool) \<Rightarrow> ('c \<Rightarrow> string \<Rightarrow> bytes option) \<Rightarrow>
    ('c \<Rightarrow> string \<Rightarrow> metadata) \<Rightarrow> ('s \<Rightarrow> nat) \<Rightarrow> nat \<Rightarrow> string \<Rightarrow> ('c \<times> nat, 'i item, 's) ospec" where
  "cont_spec env cont cinv cmap cmd free cap name =
     \<lparr>x_cinv = winv env cont cinv cmap cmd, x_cmap = wmap env cont cmap cmd, x_proper = wproper cont,
      x_free = free, x_cap = cap, x_name = name\<rparr>"

text \<open>A semaphore package: a new semaphore of capacity \<open>n\<close> has \<open>n\<close> free units.\<close>

definition sema_pkg_ok :: "'s sema_pkg \<Rightarrow> ('s \<Rightarrow> nat) \<Rightarrow> bool" where
  "sema_pkg_ok sk free \<longleftrightarrow> (\<forall>n. sema_ok (sk_ops sk n) free n \<and> free (sk_new sk n) = n)"

lemma od_blocks_opened:
  assumes "length (od_segments dev) = n"
    and "\<forall>i < n. seg_content X (od_params dev) (od_segments dev ! i) (od_world dev) =
      (case x_cmap X (w_cont (od_world dev)) (seg_name X i) of None \<Rightarrow> zeros N | Some bs \<Rightarrow> bs)"
  shows "od_content X dev = stored X N n (od_world dev)"
proof -
  have "od_blocks X dev = map (\<lambda>i. case x_cmap X (w_cont (od_world dev)) (seg_name X i) of None \<Rightarrow> zeros N | Some bs \<Rightarrow> bs) [0..<n]"
    by (rule nth_equalityI) (use assms in \<open>auto simp: od_blocks_def\<close>)
  then show ?thesis by (simp add: od_content_def stored_def)
qed

text \<open>Opening gives the invariant: with \<open>fr\<close> when there is no object and no quota.\<close>

lemma opened_inv:
  assumes op: "openable X sp n w" and segs: "length segs = n"
    "\<forall>i < n. seg_ok X sp i (segs ! i) w \<and> sg_localFile (segs ! i) = None \<and> proper X (segs ! i) \<and>
       seg_content X sp (segs ! i) w = (case x_cmap X (w_cont w) (seg_name X i) of None \<Rightarrow> zeros (sp_len sp) | Some bs \<Rightarrow> bs)"
    and mode: "sp_mode X fr sp" "fr \<or> \<not> sp_thickProvision sp \<longrightarrow> (\<forall>i < n. x_cmap X (w_cont w) (seg_name X i) = None)"
    and total: "total' = sp_segmentBytes sp * int n"
  shows "od_inv X fr (sp_len sp) \<lparr>od_cancelled = False, od_totalBytes = total', od_segments = segs, od_params = sp, od_world = w\<rparr>"
    "od_content X \<lparr>od_cancelled = False, od_totalBytes = total', od_segments = segs, od_params = sp, od_world = w\<rparr> =
       stored X (sp_len sp) n w"
proof -
  let ?dev = "\<lparr>od_cancelled = False, od_totalBytes = total', od_segments = segs, od_params = sp, od_world = w\<rparr>"
  have len: "sp_segmentBytes sp = int (sp_len sp)" using op by (simp add: openable_def sp_ok_def)
  have local: "\<forall>seg \<in> set segs. sg_localFile seg = None" using segs by (auto simp: in_set_conv_nth)
  then have "held segs = 0" by (simp add: held_def)
  then have "od_core X (sp_len sp) ?dev"
    using op segs total len by (simp add: od_core_def openable_def mult.commute)
  moreover have "seg_mode X sp fr seg" if seg: "seg \<in> set segs" for seg
  proof -
    obtain i where i: "i < n" "seg = segs ! i" using seg segs(1) by (auto simp: in_set_conv_nth)
    have ok: "seg_ok X sp i seg w" "sg_localFile seg = None" "proper X seg" using segs(2) i by auto
    then have "x_cmap X (w_cont w) (seg_name X i) = None \<longrightarrow> sg_remoteItem seg = None"
      by (auto simp: seg_ok_def remote_ok_def split: option.splits)
    then have "fr \<or> \<not> sp_thickProvision sp \<longrightarrow> sg_remoteItem seg = None" using mode(2) [THEN mp, THEN spec, THEN mp, OF _ i(1)] by (intro impI) simp
    then show ?thesis using ok by (auto simp: seg_mode_def loadable_def fresh_def)
  qed
  ultimately show "od_inv X fr (sp_len sp) ?dev" using mode(1) by (simp add: od_inv_def)
  show "od_content X ?dev = stored X (sp_len sp) n w" using od_blocks_opened [of ?dev n X "sp_len sp"] segs by simp
qed

lemma NewDevice_ok:
  fixes env :: "('c, 'i) cenv" and sk :: "'s sema_pkg"
  assumes opts: "applyOpts options BaseContainer (sint totalBytes) (sint objectBytes) = Ret (Inr (dev, cont, quota))"
    and sp: "sp = \<lparr>sp_container = container_ops env cont, sp_segmentBytes = sint objectBytes, sp_cacheDir = cacheDir,
        sp_thickProvision = do_thickProvision dev, sp_persistCache = do_persistCache dev,
        sp_quotaSema = map_option (sk_ops sk) quota\<rparr>"
    and w': "w' = (case quota of None \<Rightarrow> w | Some n \<Rightarrow> w\<lparr>w_sema := sk_new sk n\<rparr>)"
    and op: "openable X sp n w'" and size: "sint totalBytes = sint objectBytes * int n" "objectBytes \<le> totalBytes"
    and mode: "sp_mode X fr sp" "fr \<or> \<not> do_thickProvision dev \<longrightarrow> (\<forall>i < n. x_cmap X (w_cont w') (seg_name X i) = None)"
  shows "\<exists>d. NewDevice env sk (Some ()) (Some BaseContainer) cacheDir totalBytes objectBytes options w = Ret (Inr d) \<and>
    od_inv X fr (sp_len sp) d \<and> od_content X d = stored X (sp_len sp) n w' \<and> od_params d = sp"
proof -
  have pos: "0 < sint objectBytes" using op sp by (simp add: openable_def sp_ok_def)
  then have "sint totalBytes div sp_segmentBytes sp = int n" "0 \<le> sint totalBytes" using size sp by auto
  from loadSegments_ok [OF op this] obtain segs where segs: "loadSegments sp (sint totalBytes) w' = Ret (Inr segs)" "length segs = n"
    "\<forall>i < n. seg_ok X sp i (segs ! i) w' \<and> sg_localFile (segs ! i) = None \<and> proper X (segs ! i) \<and>
       seg_content X sp (segs ! i) w' = (case x_cmap X (w_cont w') (seg_name X i) of None \<Rightarrow> zeros (sp_len sp) | Some bs \<Rightarrow> bs)"
    by blast
  let ?d = "\<lparr>od_cancelled = False, od_totalBytes = sint totalBytes, od_segments = segs, od_params = sp, od_world = w'\<rparr>"
  have "NewDevice env sk (Some ()) (Some BaseContainer) cacheDir totalBytes objectBytes options w = Ret (Inr ?d)"
    using opts size(2) segs(1) by (simp add: NewDevice_def Let_def not_less flip: sp w')
  moreover have "fr \<or> \<not> sp_thickProvision sp \<longrightarrow> (\<forall>i < n. x_cmap X (w_cont w') (seg_name X i) = None)"
    using mode(2) by (simp add: sp)
  moreover have "sint totalBytes = sp_segmentBytes sp * int n" using size(1) by (simp add: sp)
  ultimately show ?thesis
    using opened_inv [OF op segs(2,3) mode(1)] by (intro exI [of _ ?d]) simp
qed

section \<open>From the laws of the base container\<close>

lemma applyOpts_quota:
  assumes "applyOpts options cont0 totalBytes segmentBytes = Ret (Inr (dev, cont, Some q))" "0 < segmentBytes"
  shows "0 < q"
proof -
  have "segmentBytes \<le> do_quotaBytes dev" "q = nat (do_quotaBytes dev sdiv segmentBytes)"
    using assms by (auto simp: applyOpts_def Let_def split: if_splits option.splits)
  moreover have "do_quotaBytes dev sdiv segmentBytes = do_quotaBytes dev div segmentBytes"
    using assms(2) \<open>segmentBytes \<le> do_quotaBytes dev\<close> by (simp add: signed_divide_int_def)
  ultimately show ?thesis using assms(2) by (simp add: pos_imp_zdiv_pos_iff)
qed

text \<open>A cache directory without files of the device, on a file system that works.\<close>

definition cache_ok :: "('c, 'i, 's) ospec \<Rightarrow> ('c, 'i, 's) storeParams \<Rightarrow> nat \<Rightarrow> ('c, 's) world \<Rightarrow> bool" where
  "cache_ok X sp n w \<longleftrightarrow> \<not> fs_createErr (w_fs w) \<and> \<not> fs_removeErr (w_fs w) \<and> healthy (fs_new (w_fs w)) \<and>
     (\<forall>i < n. w_file w (seg_path X sp i) = None \<and> w_file w (eTagFileName (seg_path X sp i)) = None)"

text \<open>A container whose objects under the prefix of the device are segments of length \<open>N\<close>.\<close>

definition objects_ok :: "('c, 'i, 's) ospec \<Rightarrow> nat \<Rightarrow> nat \<Rightarrow> ('c, 's) world \<Rightarrow> bool" where
  "objects_ok X N n w \<longleftrightarrow> only_objects X n w \<and>
     (\<forall>i < n. \<forall>bs. x_cmap X (w_cont w) (seg_name X i) = Some bs \<longrightarrow> length bs = N)"

lemma cont_openable:
  assumes X: "X = cont_spec env cont cinv cmap cmd free cap (ct_Name (ce_base env) (fst (w_cont w)))"
    and base: "base_ok env cinv cmap cmd" "env_ok env" "layers_ok cont" "winv env cont cinv cmap cmd (w_cont w)"
    and sp: "sp_ok sp" "sp_container sp = container_ops env cont" "sp_segmentBytes sp * int n < 2 ^ 63"
    and quota: "quota_ok X sp 0 w"
    and ok: "cache_ok X sp n w" "objects_ok X (sp_len sp) n w"
  shows "openable X sp n w"
proof -
  have "world_ok X sp w"
    using container_stow_ok [OF base(1-3)] base(4) ok(1)
    by (simp add: X world_ok_def cont_spec_def sp(2) cache_ok_def) (simp add: container_ops_def)
  then show ?thesis using sp quota ok by (auto simp: openable_def cache_ok_def objects_ok_def)
qed

text \<open>What a device may be constructed from: options with known modes, a quota only over plain thick
  segments, a base container and a semaphore package that keep their laws, and a size that is a multiple
  of the object size.\<close>

definition constructible :: "('c, 'i) cenv \<Rightarrow> 's sema_pkg \<Rightarrow> ('c \<Rightarrow> bool) \<Rightarrow> ('c \<Rightarrow> string \<Rightarrow> bytes option) \<Rightarrow>
    ('c \<Rightarrow> string \<Rightarrow> metadata) \<Rightarrow> ('s \<Rightarrow> nat) \<Rightarrow> devopts \<Rightarrow> container \<Rightarrow> nat option \<Rightarrow> bool" where
  "constructible env sk cinv cmap cmd free dev cont quota \<longleftrightarrow>
     base_ok env cinv cmap cmd \<and> env_ok env \<and> sema_pkg_ok sk free \<and> \<not> do_persistCache dev \<and>
     (do_compressMode dev = cmp_ModeIdentity \<or> cmp_mode_ok (do_compressMode dev)) \<and>
     (do_encryptMode dev = enc_ModeIdentity \<or> enc_mode_ok (do_encryptMode dev)) \<and>
     (quota \<noteq> None \<longrightarrow> do_thickProvision dev \<and> plain cont)"

text \<open>The parameters, the specification and the world that the constructor starts from.\<close>

definition new_params :: "('c, 'i) cenv \<Rightarrow> 's sema_pkg \<Rightarrow> string \<Rightarrow> u64 \<Rightarrow> devopts \<Rightarrow> container \<Rightarrow> nat option \<Rightarrow>
    ('c \<times> nat, 'i item, 's) storeParams" where
  "new_params env sk cacheDir objectBytes dev cont quota =
     \<lparr>sp_container = container_ops env cont, sp_segmentBytes = sint objectBytes, sp_cacheDir = cacheDir,
      sp_thickProvision = do_thickProvision dev, sp_persistCache = do_persistCache dev,
      sp_quotaSema = map_option (sk_ops sk) quota\<rparr>"

definition new_world :: "'s sema_pkg \<Rightarrow> nat option \<Rightarrow> ('c, 's) world \<Rightarrow> ('c, 's) world" where
  "new_world sk quota w = (case quota of None \<Rightarrow> w | Some n \<Rightarrow> w\<lparr>w_sema := sk_new sk n\<rparr>)"

definition new_spec :: "('c, 'i) cenv \<Rightarrow> ('c \<Rightarrow> bool) \<Rightarrow> ('c \<Rightarrow> string \<Rightarrow> bytes option) \<Rightarrow> ('c \<Rightarrow> string \<Rightarrow> metadata) \<Rightarrow>
    ('s \<Rightarrow> nat) \<Rightarrow> container \<Rightarrow> nat option \<Rightarrow> ('c \<times> nat, 's) world \<Rightarrow> ('c \<times> nat, 'i item, 's) ospec" where
  "new_spec env cinv cmap cmd free cont quota w =
     cont_spec env cont cinv cmap cmd free (case quota of None \<Rightarrow> 0 | Some q \<Rightarrow> q) (ct_Name (ce_base env) (fst (w_cont w)))"

lemma w_cont_new_world [simp]: "w_cont (new_world sk quota w) = w_cont w"
  by (simp add: new_world_def split: option.splits)

lemma w_fs_new_world [simp]: "w_fs (new_world sk quota w) = w_fs w"
  by (simp add: new_world_def split: option.splits)

lemma constructed:
  fixes env :: "('c, 'i) cenv" and sk :: "'s sema_pkg"
  assumes opts: "applyOpts options BaseContainer (sint totalBytes) (sint objectBytes) = Ret (Inr (dev, cont, quota))"
    and con: "constructible env sk cinv cmap cmd free dev cont quota"
    and defs: "X = new_spec env cinv cmap cmd free cont quota w" "sp = new_params env sk cacheDir objectBytes dev cont quota"
    and size: "0 < sint objectBytes" "sint totalBytes = sint objectBytes * int n" "objectBytes \<le> totalBytes"
    and w: "winv env cont cinv cmap cmd (w_cont w)" "cache_ok X sp n w" "objects_ok X (nat (sint objectBytes)) n w"
    and fr: "fr \<longrightarrow> quota = None" "fr \<or> \<not> do_thickProvision dev \<longrightarrow> (\<forall>i < n. x_cmap X (w_cont w) (seg_name X i) = None)"
  shows "\<exists>d. NewDevice env sk (Some ()) (Some BaseContainer) cacheDir totalBytes objectBytes options w = Ret (Inr d) \<and>
    od_inv X fr (nat (sint objectBytes)) d \<and> od_content X d = stored X (nat (sint objectBytes)) n w \<and> od_params d = sp"
proof -
  note con = con [unfolded constructible_def]
  have lay: "layers_ok cont" using applyOpts_layers(1) [OF opts] con by blast
  have sp: "sp_ok sp" "sp_container sp = container_ops env cont" "sp_segmentBytes sp * int n < 2 ^ 63"
    using size con sint_less [of totalBytes] sint_less [of objectBytes] by (auto simp: defs(2) new_params_def sp_ok_def)
  have q: "quota_ok X sp 0 (new_world sk quota w)"
    using con applyOpts_quota [OF _ size(1)] opts
    by (cases quota) (auto simp: quota_ok_def defs new_params_def new_spec_def cont_spec_def new_world_def sema_pkg_ok_def)
  have "openable X sp n (new_world sk quota w)"
    by (rule cont_openable [where cap = "case quota of None \<Rightarrow> 0 | Some q \<Rightarrow> q"])
      (use con lay sp q w defs in \<open>auto simp: new_spec_def cache_ok_def objects_ok_def only_objects_def new_params_def\<close>)
  moreover have "sp_mode X fr sp"
    using con fr(1) plain_put_proper [of cont env]
    by (auto simp: sp_mode_def defs new_params_def new_spec_def cont_spec_def)
  moreover have "stored X N n (new_world sk quota w) = stored X N n w" for N by (simp add: stored_def)
  ultimately show ?thesis
    using NewDevice_ok [OF opts defs(2) [unfolded new_params_def] new_world_def, where X = X and n = n and fr = fr and w = w] size fr(2)
    by (simp add: defs(2) new_params_def)
qed

end
