(* ===== verification/Objdev_Props.thy ===== *)
theory Objdev_Props
  imports Objdev_New
begin

text \<open>
  Properties of the object store device as a whole, from its constructor through NBD sessions to its
  shutdown and the next construction, over a container with any of the encryption and compression layers.
\<close>

section \<open>After a shutdown\<close>

lemma closed_world:
  assumes core: "od_core X N dev" and local: "\<forall>seg \<in> set (od_segments dev). sg_localFile seg = None"
  shows "cache_ok X (od_params dev) (length (od_segments dev)) (od_world dev)"
    "objects_ok X N (length (od_segments dev)) (od_world dev)"
    "stored X N (length (od_segments dev)) (od_world dev) = od_content X dev"
proof -
  have seg: "seg_ok X (od_params dev) i (od_segments dev ! i) (od_world dev)" "sg_localFile (od_segments dev ! i) = None"
    if "i < length (od_segments dev)" for i using od_core_seg [OF core that] local that by auto
  have N: "sp_len (od_params dev) = N" using od_coreD(2) [OF core] by simp
  have len: "length bs = N" if "i < length (od_segments dev)" "x_cmap X (w_cont (od_world dev)) (seg_name X i) = Some bs" for i bs
    using seg(1) [OF that(1)] that(2) by (auto simp: seg_ok_def remote_ok_def N split: option.splits)
  show "objects_ok X N (length (od_segments dev)) (od_world dev)"
    using core len by (auto simp: objects_ok_def od_core_def)
  show "cache_ok X (od_params dev) (length (od_segments dev)) (od_world dev)"
    using od_coreD(6) [OF core] seg by (auto simp: cache_ok_def world_ok_def seg_ok_def local_ok_def)
  have "od_blocks X dev = map (\<lambda>i. case x_cmap X (w_cont (od_world dev)) (seg_name X i) of None \<Rightarrow> zeros N | Some bs \<Rightarrow> bs)
      [0..<length (od_segments dev)]"
  proof (rule nth_equalityI, goal_cases)
    case (2 i)
    then have i: "i < length (od_segments dev)" by (simp add: od_blocks_def)
    show ?case
      using seg [OF i] i by (auto simp: od_blocks_def seg_content_def remote_content_def seg_ok_def remote_ok_def N split: option.splits)
  qed (simp add: od_blocks_def)
  then show "stored X N (length (od_segments dev)) (od_world dev) = od_content X dev"
    by (simp add: stored_def od_content_def)
qed

lemma length_stored:
  assumes "objects_ok X N n w"
  shows "length (stored X N n w) = N * n"
proof -
  have "length (concat (map (\<lambda>i. case x_cmap X (w_cont w) (seg_name X i) of None \<Rightarrow> zeros N | Some bs \<Rightarrow> bs) [0..<n])) =
      N * length (map (\<lambda>i. case x_cmap X (w_cont w) (seg_name X i) of None \<Rightarrow> zeros N | Some bs \<Rightarrow> bs) [0..<n])"
    by (rule length_concat_blocks) (use assms in \<open>auto simp: objects_ok_def split: option.splits\<close>)
  then show ?thesis by (simp add: stored_def)
qed

lemma held_filter: "held segs = length (filter (\<lambda>seg. sg_localFile seg \<noteq> None) segs)"
  by (induction segs) (auto simp: held_def)

section \<open>An instance of the parameters\<close>

definition nat_sema :: "nat sema_pkg" where
  "nat_sema = \<lparr>sk_ops = (\<lambda>n. \<lparr>sm_P = (\<lambda>s. if 0 < s then (True, s - 1) else (False, s)),
     sm_V = (\<lambda>s. if s < n then (True, Suc s) else (False, s))\<rparr>), sk_new = (\<lambda>n. n)\<rparr>"

definition new_store :: "(list_cont \<times> nat, nat) world" where
  "new_store = \<lparr>w_cont = ([], 0), w_sema = 0,
     w_fs = \<lparr>fs_files = Map.empty, fs_new = new_file [], fs_createErr = False, fs_removeErr = False, fs_openErr = False,
       fs_readFileErr = False, fs_writeFileErr = False\<rparr>,
     w_time = (\<lambda>t. int t + 1), w_tick = 0\<rparr>"

definition ex_options :: "option' list" where
  "ex_options = [OptEncrypt ModeAESCTR (replicate 16 1), OptCompressRemoteObjects ModeGzip, OptThickProvisionLocalFiles True]"

definition ex_devopts :: devopts where
  "ex_devopts = (fold opt_apply ex_options no_opts)\<lparr>do_concurFlush := 1\<rparr>"

definition ex_container :: container where
  "ex_container = compressedContainer (encryptedContainer BaseContainer ModeAESCTR (replicate 16 1)) ModeGzip"

lemma nat_sema_ok: "sema_pkg_ok nat_sema (\<lambda>n. n)"
  by (auto simp: sema_pkg_ok_def sema_ok_def nat_sema_def)

lemma ex_applyOpts: "applyOpts ex_options BaseContainer totalBytes segmentBytes = Ret (Inr (ex_devopts, ex_container, None))"
  by (simp add: applyOpts_def ex_options_def ex_devopts_def ex_container_def no_opts_def Let_def ValidAESKey_def
      aes_NewCipher_def NewCompressedContainer_def NewEncryptedContainer_def ModeAESCTR_def ModeGzip_def
      enc_ModeIdentity_def cmp_ModeIdentity_def IsZeros_iff replicate_eq_replicate)

lemma ex_constructible: "constructible list_env nat_sema list_inv list_map list_md (\<lambda>n. n) ex_devopts ex_container None"
  using nat_sema_ok list_base_ok list_env_ok
  by (simp add: constructible_def ex_devopts_def ex_options_def no_opts_def enc_mode_ok_def cmp_mode_ok_def)

lemma new_store_ok:
  "winv env cont list_inv list_map cmd (w_cont new_store)" "cache_ok X sp n new_store"
  "objects_ok (new_spec env cinv list_map cmd free cont quota new_store) N n new_store"
  "x_cmap (new_spec env cinv list_map cmd free cont quota new_store) (w_cont new_store) nm = None"
  by (simp_all add: winv_def list_map_def new_store_def cache_ok_def objects_ok_def only_objects_def new_spec_def cont_spec_def wmap_def)

lemma zeros_blocks: "concat (map (\<lambda>_. zeros N) [0..<n]) = zeros (N * n)"
  by (induction n) (simp_all add: add.commute flip: replicate_add)

lemma stored_new_store: "stored (new_spec env cinv list_map cmd free cont quota new_store) N n new_store = zeros (N * n)"
  by (simp add: stored_def new_store_ok zeros_blocks)

section \<open>Properties\<close>





text \<open>
  C8: nothing is lost by a restart. Closing a thick-provisioned object store device succeeds, and
  constructing it again from the container and the cache directory that the shutdown leaves gives a device
  with the same contents, whatever encryption and compression layers the options ask for.
\<close>

theorem objdev_close_reopen:
  fixes env :: "('c, 'i) cenv" and sk :: "'s sema_pkg"
  assumes opts: "applyOpts options BaseContainer (sint totalBytes) (sint objectBytes) = Ret (Inr (dev, cont, quota))"
    and con: "constructible env sk cinv cmap cmd free dev cont quota" "do_thickProvision dev"
    and defs: "X = new_spec env cinv cmap cmd free cont quota w" "sp = new_params env sk cacheDir objectBytes dev cont quota"
      "N = nat (sint objectBytes)"
    and size: "0 < sint objectBytes" "sint totalBytes = sint objectBytes * int n" "objectBytes \<le> totalBytes"
    and d: "od_inv X fr N d" "od_params d = sp" "length (od_segments d) = n"
  shows "\<exists>d' d2. od_Close d = Ret (None, d') \<and>
    NewDevice env sk (Some ()) (Some BaseContainer) cacheDir totalBytes objectBytes options (od_world d') = Ret (Inr d2) \<and>
    od_inv X False N d2 \<and> od_content X d2 = od_content X d"
proof -
  obtain d' where d': "od_Close d = Ret (None, d')" "od_core X N d'" "od_content X d' = od_content X d"
    "od_params d' = sp" "length (od_segments d') = n" "\<forall>seg \<in> set (od_segments d'). sg_localFile seg = None"
    using od_Close_ok [OF d(1)] d(2,3) by auto
  have sp: "sp_container sp = container_ops env cont" by (simp add: defs(2) new_params_def)
  have "world_ok X sp (od_world d')" using od_coreD(6) [OF d'(2)] d'(4) by simp
  then have inv: "winv env cont cinv cmap cmd (w_cont (od_world d'))"
    and name: "ct_Name (ce_base env) (fst (w_cont (od_world d'))) = ct_Name (ce_base env) (fst (w_cont w))"
    using sp by (auto simp: world_ok_def defs(1) new_spec_def cont_spec_def container_ops_def)
  have X: "X = new_spec env cinv cmap cmd free cont quota (od_world d')" by (simp add: defs(1) new_spec_def name)
  note closed = closed_world [OF d'(2,6), unfolded d'(4,5)]
  obtain d2 where "NewDevice env sk (Some ()) (Some BaseContainer) cacheDir totalBytes objectBytes options (od_world d') = Ret (Inr d2)"
    "od_inv X False N d2" "od_content X d2 = stored X N n (od_world d')"
    using constructed [OF opts con(1) X defs(2) size inv closed(1) closed(2) [unfolded defs(3)], of False] con(2) defs(3) by auto
  then show ?thesis using d'(1,3) closed(3) by auto
qed

theorem objdev_close_reopen_witness:
  "\<exists>d d' d2. NewDevice list_env nat_sema (Some ()) (Some BaseContainer) ''cache'' 8192 4096 ex_options new_store = Ret (Inr d) \<and>
    od_Close d = Ret (None, d') \<and>
    NewDevice list_env nat_sema (Some ()) (Some BaseContainer) ''cache'' 8192 4096 ex_options (od_world d') = Ret (Inr d2) \<and>
    od_content (new_spec list_env list_inv list_map list_md (\<lambda>n. n) ex_container None new_store) d2 = zeros 8192"
proof -
  let ?X = "new_spec list_env list_inv list_map list_md (\<lambda>n. n) ex_container None new_store"
  obtain d where d: "NewDevice list_env nat_sema (Some ()) (Some BaseContainer) ''cache'' 8192 4096 ex_options new_store = Ret (Inr d)"
    "od_inv ?X True 4096 d" "od_content ?X d = zeros 8192" "od_params d = new_params list_env nat_sema ''cache'' 4096 ex_devopts ex_container None"
    using constructed [OF ex_applyOpts ex_constructible refl refl, of 4096 8192 2 new_store "''cache''" True]
    by (auto simp: new_store_ok stored_new_store)
  have "length (od_segments d) = 2" using length_od_content [OF od_invD(1) [OF d(2)]] d(3) by simp
  then show ?thesis
    using objdev_close_reopen [OF ex_applyOpts ex_constructible _ refl refl refl _ _ _ _ d(4), of 8192 2 new_store True] d(1-3)
    by (auto simp: ex_devopts_def ex_options_def no_opts_def)
qed





end
