(* ===== verification/Eviction.thy ===== *)
theory Eviction
  imports Objdev
begin

text \<open>
  The choice of the segment whose local file makes room for another,
  \<open>removeLeastRecentUsed\<close> of \<^verbatim>\<open>src/pkg/devices/objstore/device.go\<close>: the single pass over the segments
  finds the least of the clean candidates and the least of the dirty ones.
\<close>

section \<open>The pass over the segments\<close>

text \<open>Which segments the choice may take: clean ones, or dirty ones, with a local file.\<close>

definition evictable :: "bool \<Rightarrow> nat \<Rightarrow> nat \<times> 'i segment \<Rightarrow> bool" where
  "evictable dirty k iseg \<longleftrightarrow> fst iseg \<noteq> k \<and> seg_Backed (snd iseg) \<and> seg_Dirty (snd iseg) = dirty"

abbreviation lru_best :: "(nat \<times> 'i segment) list \<Rightarrow> nat option \<times> int \<Rightarrow> nat option \<times> int" where
  "lru_best xs \<equiv> fold (\<lambda>x. lru_better (fst x) (seg_LastOp (snd x))) xs"

lemma lru_fold_filters:
  "fold (lru_visit k) xs (c, d) = (lru_best (filter (evictable False k) xs) c, lru_best (filter (evictable True k) xs) d)"
  by (induction xs arbitrary: c d) (auto simp: lru_visit_def evictable_def split: prod.splits)

lemma lru_best_from:
  assumes "fst c = None \<longrightarrow> snd c = 0"
  shows "(fst (lru_best xs c) = None \<longleftrightarrow> fst c = None \<and> xs = []) \<and>
    (\<forall>i. fst (lru_best xs c) = Some i \<longrightarrow> fst c = Some i \<or> i \<in> fst ` set xs)"
  using assms
proof (induction xs arbitrary: c)
  case (Cons x xs)
  define c1 where "c1 = lru_better (fst x) (seg_LastOp (snd x)) c"
  have c1: "fst c1 \<noteq> None" "fst c1 = fst c \<or> fst c1 = Some (fst x)"
    using Cons.prems by (auto simp: c1_def lru_better_def)
  have "lru_best (x # xs) c = lru_best xs c1" by (simp add: c1_def)
  then show ?case using Cons.IH [of c1] c1 by auto
qed simp

lemma lru_best_least:
  assumes "0 < t" "\<forall>x \<in> set xs. 0 < seg_LastOp (snd x)"
  shows "\<exists>j u. lru_best xs (Some i, t) = (Some j, u) \<and> u \<le> t \<and> (\<forall>x \<in> set xs. u \<le> seg_LastOp (snd x)) \<and>
    ((j, u) = (i, t) \<or> (\<exists>x \<in> set xs. fst x = j \<and> seg_LastOp (snd x) = u))"
  using assms
proof (induction xs arbitrary: i t)
  case (Cons x xs)
  define i1 t1 where "i1 = (if seg_LastOp (snd x) < t then fst x else i)" and "t1 = min (seg_LastOp (snd x)) t"
  have "lru_better (fst x) (seg_LastOp (snd x)) (Some i, t) = (Some i1, t1)"
    using Cons.prems(1) by (simp add: lru_better_def i1_def t1_def)
  then have step: "lru_best (x # xs) (Some i, t) = lru_best xs (Some i1, t1)" by simp
  have "0 < t1" "\<forall>x \<in> set xs. 0 < seg_LastOp (snd x)" using Cons.prems by (simp_all add: t1_def)
  from Cons.IH [OF this, of i1] obtain j u where ih: "lru_best xs (Some i1, t1) = (Some j, u)" "u \<le> t1"
    "\<forall>x \<in> set xs. u \<le> seg_LastOp (snd x)" "(j, u) = (i1, t1) \<or> (\<exists>x \<in> set xs. fst x = j \<and> seg_LastOp (snd x) = u)"
    by blast
  have "u \<le> t" "u \<le> seg_LastOp (snd x)" using ih(2) by (simp_all add: t1_def)
  moreover have "(j, u) = (i, t) \<or> (\<exists>x \<in> set (x # xs). fst x = j \<and> seg_LastOp (snd x) = u)"
    using ih(4) by (auto simp: i1_def t1_def min_def split: if_splits)
  ultimately show ?case using step ih(1,3) by auto
qed simp

lemma lru_best_Cons_None:
  "lru_best (x # xs) (None, 0) = lru_best xs (Some (fst x), seg_LastOp (snd x))"
  by (simp add: lru_better_def)

lemma lru_best_member:
  assumes "fst (lru_best ys (None, 0)) = Some i" "\<forall>x \<in> set ys. 0 < seg_LastOp (snd x)"
  shows "\<exists>y \<in> set ys. fst y = i \<and> (\<forall>x \<in> set ys. seg_LastOp (snd y) \<le> seg_LastOp (snd x))"
proof (cases ys)
  case (Cons x xs)
  have pos: "0 < seg_LastOp (snd x)" "\<forall>y \<in> set xs. 0 < seg_LastOp (snd y)" using assms(2) Cons by simp_all
  obtain j u where u: "lru_best xs (Some (fst x), seg_LastOp (snd x)) = (Some j, u)" "u \<le> seg_LastOp (snd x)"
    "\<forall>y \<in> set xs. u \<le> seg_LastOp (snd y)"
    "(j, u) = (fst x, seg_LastOp (snd x)) \<or> (\<exists>y \<in> set xs. fst y = j \<and> seg_LastOp (snd y) = u)"
    using lru_best_least [OF pos, of "fst x"] by blast
  have "j = i" using assms(1) u(1) unfolding Cons lru_best_Cons_None by simp
  then show ?thesis using u(2-4) Cons by auto
qed (use assms in simp)

lemma in_indexed: "(i, seg) \<in> set (zip [0..<length segs] segs) \<longleftrightarrow> i < length segs \<and> seg = segs ! i"
  by (auto simp: set_zip intro!: exI [of _ i])

lemma lru_pick_filters:
  "lru_pick k segs = (let xs = zip [0..<length segs] segs in
     case fst (lru_best (filter (evictable False k) xs) (None, 0)) of
       Some i \<Rightarrow> Some i | None \<Rightarrow> fst (lru_best (filter (evictable True k) xs) (None, 0)))"
  by (auto simp: lru_pick_def lru_fold_filters Let_def split: prod.splits option.splits)

section \<open>The choice\<close>

text \<open>
  The segment chosen for eviction has a local file and is not the one that room is made for; a
  dirty segment is chosen only when no clean one can be; and none is chosen exactly when no other
  segment has a local file.
\<close>

lemma lru_pick_clean:
  "(case lru_pick k segs of
      None \<Rightarrow> \<forall>j < length segs. j = k \<or> \<not> seg_Backed (segs ! j)
    | Some i \<Rightarrow> i < length segs \<and> i \<noteq> k \<and> seg_Backed (segs ! i) \<and>
        (seg_Dirty (segs ! i) \<longrightarrow> (\<forall>j < length segs. j = k \<or> \<not> seg_Backed (segs ! j) \<or> seg_Dirty (segs ! j))))"
proof -
  let ?ys = "\<lambda>d. filter (evictable d k) (zip [0..<length segs] segs)"
  define b where "b d = fst (lru_best (?ys d) (None, 0))" for d
  have none: "b d = None \<longleftrightarrow> (\<forall>j < length segs. \<not> evictable d k (j, segs ! j))" for d
    using lru_best_from [of "(None, 0)" "?ys d"] by (auto simp: b_def filter_empty_conv in_indexed)
  have chosen: "i < length segs \<and> evictable d k (i, segs ! i)" if "b d = Some i" for d i
    using lru_best_from [of "(None, 0)" "?ys d"] that by (auto simp: b_def in_indexed)
  have pick: "lru_pick k segs = (case b False of Some i \<Rightarrow> Some i | None \<Rightarrow> b True)"
    by (simp add: lru_pick_filters Let_def b_def split: option.splits)
  show ?thesis
  proof (cases "b False")
    case None
    then show ?thesis
      using none [of False] none [of True] chosen [of True] pick by (cases "b True") (auto simp: evictable_def)
  next
    case (Some i)
    then show ?thesis using chosen [of False i] pick by (simp add: evictable_def)
  qed
qed

lemma seg_LastOp_min: "seg_LastOp seg = min (seg_LastRead seg) (seg_LastWrite seg)"
  by (simp add: seg_LastOp_def min_def)

text \<open>
  Among segments that were both read and written, the one chosen is the least recently used of
  its kind (clean or dirty), where the time of a segment's last use is the earlier of its last read
  and its last write.
\<close>

lemma lru_pick_least:
  assumes pick: "lru_pick k segs = Some i" and j: "j < length segs" "j \<noteq> k" "seg_Backed (segs ! j)"
    and kind: "seg_Dirty (segs ! j) = seg_Dirty (segs ! i)"
    and used: "\<forall>seg \<in> set segs. 0 < sg_lastRead seg \<and> 0 < sg_lastWrite seg"
  shows "min (sg_lastRead (segs ! i)) (sg_lastWrite (segs ! i)) \<le> min (sg_lastRead (segs ! j)) (sg_lastWrite (segs ! j))"
proof -
  let ?ys = "\<lambda>d. filter (evictable d k) (zip [0..<length segs] segs)"
  have op: "seg_LastOp seg = min (sg_lastRead seg) (sg_lastWrite seg)" "0 < seg_LastOp seg" if "seg \<in> set segs" for seg
    using used that by (auto simp: seg_LastOp_min seg_LastRead_def seg_LastWrite_def loadTime_def)
  have best: "evictable d k (i, segs ! i) \<and> i < length segs \<and> (\<forall>x \<in> set (?ys d). seg_LastOp (segs ! i) \<le> seg_LastOp (snd x))"
    if d: "fst (lru_best (?ys d) (None, 0)) = Some i" for d
  proof -
    have "\<forall>x \<in> set (?ys d). 0 < seg_LastOp (snd x)" using op(2) by (auto simp: in_indexed)
    from lru_best_member [OF d this] show ?thesis by (auto simp: in_indexed)
  qed
  have "(j, segs ! j) \<in> set (?ys (seg_Dirty (segs ! i)))" using j kind by (simp add: in_indexed evictable_def)
  moreover have "fst (lru_best (?ys d) (None, 0)) = Some i \<longrightarrow> seg_Dirty (segs ! i) = d" for d
    using best [of d] by (auto simp: evictable_def)
  ultimately have "seg_LastOp (segs ! i) \<le> seg_LastOp (segs ! j) \<and> i < length segs"
    using best pick by (auto simp: lru_pick_filters Let_def split: option.splits)
  then show ?thesis using op(1) [of "segs ! i"] op(1) [of "segs ! j"] j(1) by simp
qed

section \<open>Properties\<close>



end
