(* ===== verification/Segment_Faults.thy ===== *)
theory Segment_Faults
  imports Objdev_Props
begin

text \<open>
  Where the segments of \<^verbatim>\<open>src/pkg/devices/objstore\<close> depart from what the device promises: zeros written over
  an object that is not cached, a flush that fails, the copy that keeps holes, and an object whose
  number is one past the last segment.
\<close>

section \<open>A segment that is stored but not cached\<close>

definition one_params :: "(list_cont \<times> nat, string item, nat) storeParams" where
  "one_params = \<lparr>sp_container = container_ops list_env BaseContainer, sp_segmentBytes = 4, sp_cacheDir = ''c'',
     sp_thickProvision = True, sp_persistCache = False, sp_quotaSema = None\<rparr>"

definition one_world :: "(list_cont \<times> nat, nat) world" where
  "one_world = new_store\<lparr>w_cont := ([(''osbd-dev_vol-blk_0'', [1, 2, 3, 4], [])], 0)\<rparr>"

definition one_segment :: "string item segment" where
  "one_segment = (newSegment 0)\<lparr>sg_remoteItem := Some (BaseItem ''osbd-dev_vol-blk_0'')\<rparr>"

definition one_spec :: "(list_cont \<times> nat, string item, nat) ospec" where
  "one_spec = cont_spec list_env BaseContainer list_inv list_map list_md (\<lambda>n. n) 0 ''vol''"

lemma Itoa_zero: "Itoa 0 = ''0''"
  by code_simp

lemma one_name: "seg_name one_spec 0 = ''osbd-dev_vol-blk_0''"
  by (simp add: seg_name_def one_spec_def cont_spec_def osbdPrefix_def devicePrefix_def blockPrefix_def Itoa_zero)

lemma one_map: "x_cmap one_spec (w_cont one_world) ''osbd-dev_vol-blk_0'' = Some [1, 2, 3, 4]"
  by (simp add: one_spec_def cont_spec_def wmap_def one_world_def list_map_def)

lemma one_winv: "winv list_env BaseContainer list_inv list_map list_md (w_cont one_world)"
  by (auto simp: winv_def one_world_def list_map_def reads_as_def)

lemma one_env: "seg_env one_spec one_params 0 0 one_segment one_world"
proof -
  have "stow_ok (container_ops list_env BaseContainer) (winv list_env BaseContainer list_inv list_map list_md)
      (wmap list_env BaseContainer list_map list_md) (wproper BaseContainer)"
    by (rule container_stow_ok [OF list_base_ok list_env_ok]) simp
  then have "world_ok one_spec one_params one_world"
    using one_winv by (simp add: world_ok_def one_spec_def one_params_def cont_spec_def)
      (simp add: container_ops_def list_env_def list_base_def one_world_def new_store_def)
  moreover have "it_Name (sp_container one_params) (BaseItem ''osbd-dev_vol-blk_0'') = ''osbd-dev_vol-blk_0''"
    by (simp add: one_params_def container_ops_def list_env_def list_base_def)
  moreover have "w_file one_world p = None" for p by (simp add: one_world_def new_store_def)
  ultimately show ?thesis
    by (simp add: seg_env_def seg_ok_def local_ok_def remote_ok_def sp_ok_def quota_ok_def one_name one_map
        seg_content_def remote_content_def one_segment_def newSegment_def seg_Backed_def seg_Dirty_def)
      (simp add: one_params_def one_spec_def cont_spec_def)
qed

section \<open>Zeros over an object that is not cached\<close>

text \<open>
  C31: a write of zeros to a segment that is stored remotely and not cached reports that all bytes were
  written, but does nothing: a read of the same range still returns the bytes of the object.
\<close>

theorem zero_write_not_stored:
  assumes env: "seg_env X sp i m seg w" and seg: "sg_localFile seg = None" "loadable X sp seg" "has_room X sp m"
    and range: "0 \<le> pos" "pos + int n \<le> sp_segmentBytes sp"
  shows "\<exists>seg' w' seg'' w''. seg_WriteAt sp seg (zeros n) pos w = Ret (int n, None, seg', w') \<and>
    seg_ReadAt sp seg' (zeros n) pos w' = Ret (int n, None, chunk (seg_content X sp seg w) (nat pos) n, seg'', w'')"
proof -
  let ?seg = "seg\<lparr>sg_lastWrite := w_time w (w_tick w)\<rparr>" and ?w = "w\<lparr>w_tick := Suc (w_tick w)\<rparr>"
  have "seg_WriteAt sp seg (zeros n) pos w = Ret (int n, None, ?seg, ?w)"
    using seg(1) by (simp add: seg_WriteAt_def w_now_def IsZeros_zeros)
  moreover have "seg_env X sp i m ?seg ?w" using env by (rule seg_env_times)
  moreover have "loadable X sp ?seg" using seg(2) by (simp add: loadable_def fresh_def proper_def)
  ultimately show ?thesis
    using seg_ReadAt_ok [of X sp i m ?seg ?w pos "zeros n"] seg(3) range by auto
qed

theorem zero_write_not_stored_witness:
  "\<exists>seg' w' seg'' w''. seg_WriteAt one_params one_segment (zeros 2) 1 one_world = Ret (2, None, seg', w') \<and>
    seg_ReadAt one_params seg' (zeros 2) 1 w' = Ret (2, None, [2, 3], seg'', w'')"
proof -
  have "loadable one_spec one_params one_segment"
    by (simp add: loadable_def one_params_def proper_def one_segment_def newSegment_def one_spec_def cont_spec_def wproper_def)
  moreover have "has_room one_spec one_params 0" by (simp add: has_room_def one_params_def)
  moreover have "seg_content one_spec one_params one_segment one_world = [1, 2, 3, 4]"
    using one_map by (simp add: seg_content_def remote_content_def one_segment_def newSegment_def one_params_def container_ops_def
        list_env_def list_base_def)
  ultimately show ?thesis
    using zero_write_not_stored [OF one_env, of 1 2] by (simp add: one_segment_def newSegment_def one_params_def chunk_def)
qed


section \<open>A flush that fails\<close>

text \<open>
  C32: a failed upload loses data. When the container refuses the upload of a dirty segment, the flush reports
  the error but leaves the segment clean and without its remote item, so that the next eviction
  deletes the only copy without an error, and the segment then reads as zeros.
\<close>

theorem failed_flush_loses_data:
  assumes seg: "seg_Dirty seg" "seg_Backed seg" "sg_localFile seg = Some p" "w_file w p = Some f" "healthy f"
      "int (length (fdata f)) = sp_segmentBytes sp"
    and sp: "\<not> sp_persistCache sp" "sp_quotaSema sp = None" "\<not> fs_removeErr (w_fs w)"
    and put: "ct_Put (sp_container sp) (w_cont w) (itemName sp w (Itoa (sg_ID seg))) (fdata f, None) (sp_segmentBytes sp) [] = (Inl e, c)"
    and range: "0 \<le> pos" "pos + int (length buf) \<le> sp_segmentBytes sp" "sp_segmentBytes sp < 2 ^ 63"
  shows "\<exists>err seg1 w1 seg2 w2 seg3 w3. seg_Flush sp seg optBuf w = (Some err, seg1, w1) \<and>
    DeleteFile sp seg1 w1 = Ret (None, seg2, w2) \<and>
    seg_ReadAt sp seg2 buf pos w2 = Ret (int (length buf), None, zeros (length buf), seg3, w3)"
proof -
  let ?seg1 = "seg\<lparr>sg_atomicDirty := False, sg_remoteItem := None\<rparr>" and ?w1 = "w\<lparr>w_cont := c\<rparr>"
  let ?seg2 = "?seg1\<lparr>sg_atomicBacked := False, sg_localFile := None\<rparr>" and ?w2 = "w_set ?w1 p None"
  have "\<exists>err. seg_Flush sp seg optBuf w = (Some err, ?seg1, ?w1)"
    using seg put
    by (auto simp: seg_Flush_def seg_flush_def syncFile_def h_Sync_def h_file_def file_Sync_def healthy_def h_stream_def Let_def)
  moreover have "DeleteFile sp ?seg1 ?w1 = Ret (None, ?seg2, ?w2)"
    using seg sp
    by (simp add: DeleteFile_def seg_Backed_def seg_Dirty_def removeFile_def h_Close_def h_file_def file_Close_def healthy_def
        os_Remove_def releaseCapacity_def)
  moreover have "wrap64 (pos + int (length buf)) = pos + int (length buf)"
    using range by (intro wrap64_id) (simp add: in64_def)
  then have "\<exists>seg3 w3. seg_ReadAt sp ?seg2 buf pos ?w2 = Ret (int (length buf), None, zeros (length buf), seg3, w3)"
    using range by (simp add: seg_ReadAt_def w_now_def loadFile_def Let_def ZeroFill_total blit_def)
  ultimately show ?thesis by blast
qed


theorem failed_flush_loses_data_witness:
  "let sp = one_params\<lparr>sp_container := (sp_container one_params)\<lparr>ct_Put := \<lambda>c _ _ _ _. (Inl (Msg ''refused''), c)\<rparr>\<rparr>;
     seg = (newSegment 0)\<lparr>sg_localFile := Some ''f'', sg_atomicBacked := True, sg_atomicDirty := True\<rparr>;
     w = w_set one_world ''f'' (Some (new_file [5, 6, 7, 8]))
   in \<exists>err seg1 w1 seg2 w2 seg3 w3. seg_Flush sp seg None w = (Some err, seg1, w1) \<and>
    DeleteFile sp seg1 w1 = Ret (None, seg2, w2) \<and> seg_ReadAt sp seg2 (zeros 4) 0 w2 = Ret (4, None, zeros 4, seg3, w3)"
proof -
  let ?sp = "one_params\<lparr>sp_container := (sp_container one_params)\<lparr>ct_Put := \<lambda>c _ _ _ _. (Inl (Msg ''refused''), c)\<rparr>\<rparr>"
  let ?seg = "(newSegment 0)\<lparr>sg_localFile := Some ''f'', sg_atomicBacked := True, sg_atomicDirty := True\<rparr> :: string item segment"
  show ?thesis
    using failed_flush_loses_data [of ?seg "''f''" "w_set one_world ''f'' (Some (new_file [5, 6, 7, 8]))" "new_file [5, 6, 7, 8]"
        ?sp "Msg ''refused''" _ 0 "zeros 4" None]
    by (simp add: seg_Dirty_def seg_Backed_def one_params_def one_world_def new_store_def w_set_def Let_def)
qed

section \<open>The copy that keeps holes\<close>

text \<open>
  C33: the copy that keeps holes of zeros, which fills the cache files of a thinly provisioned device, reports
  the bytes of the source but leaves one more zero byte in the file unless the source ends in a zero.
\<close>

theorem sparse_copy_length:
  assumes "healthy f" "fdata f = []" "fpos f = 0" "src = [] \<or> last src \<noteq> 0"
  shows "\<exists>f'. sparseCopy f src None = (int (length src), None, f') \<and> fdata f' = src @ [0]"
  using sparseCopy_new [OF assms(1-3), of src] assms(4) by auto

theorem sparse_copy_length_witness:
  "\<exists>f'. sparseCopy (new_file []) [0, 0, 7] None = (3, None, f') \<and> fdata f' = [0, 0, 7, 0]"
  using sparse_copy_length [of "new_file []" "[0, 0, 7]"] by simp

section \<open>An object past the last segment\<close>

text \<open>
  C34: an object numbered one past the last segment passes the range check of \<open>loadSegments\<close> and makes it panic
  instead of reporting that the number is out of range, as it does for larger numbers.
\<close>

theorem loadSegments_off_by_one:
  assumes "0 < sp_segmentBytes sp" "0 < n" "int n < 2 ^ 63" "totalBytes = sp_segmentBytes sp * int n"
    and "ct_Items (sp_container sp) (w_cont w) (osbdPrefix @ devicePrefix @ ct_Name (sp_container sp) (w_cont w) @ blockPrefix) (Suc n)
        = Inr ([it], True)"
    and "it_Name (sp_container sp) it = itemName sp w (Itoa k)" "int n \<le> k" "k < 2 ^ 63"
  shows "if k = int n then loadSegments sp totalBytes w = Panic
    else loadSegments sp totalBytes w = Ret (Inl (Msg ''Parsed ID was not in expected range''))"
proof -
  have count: "totalBytes sdiv sp_segmentBytes sp = int n" using assms(1,2,4) by (simp add: signed_divide_int_def sgn_mult)
  have parse: "Atoi (TrimSuffix (Itoa k) (Ext (Itoa k))) = Inr k" using parse_Itoa [of "nat k"] assms(7,8) by simp
  have prefix: "TrimPrefix (it_Name (sp_container sp) it)
      (osbdPrefix @ devicePrefix @ ct_Name (sp_container sp) (w_cont w) @ blockPrefix) = Itoa k"
    by (simp add: assms(6) itemName_def TrimPrefix_def)
  have "nat (int n + 1) = Suc n" by simp
  with assms(1-5,7) count parse prefix show ?thesis by (auto simp: loadSegments_def Let_def)
qed

theorem loadSegments_off_by_one_witness:
  "loadSegments one_params 4 (one_world\<lparr>w_cont := ([(''osbd-dev_vol-blk_1'', [1, 2, 3, 4], [])], 0)\<rparr>) = Panic"
proof -
  let ?w = "one_world\<lparr>w_cont := ([(''osbd-dev_vol-blk_1'', [1, 2, 3, 4], [])], 0)\<rparr>"
  have name: "ct_Name (sp_container one_params) c = ''vol''" for c
    by (simp add: one_params_def container_ops_def list_env_def list_base_def)
  have "Itoa 1 = ''1''" by code_simp
  then have item: "it_Name (sp_container one_params) (BaseItem ''osbd-dev_vol-blk_1'') = itemName one_params ?w (Itoa 1)"
    by (simp add: itemName_def name osbdPrefix_def devicePrefix_def blockPrefix_def)
      (simp add: one_params_def container_ops_def list_env_def list_base_def)
  have "ct_Items (sp_container one_params) (w_cont ?w) ''osbd-dev_vol-blk_'' (Suc 1) = Inr ([BaseItem ''osbd-dev_vol-blk_1''], True)"
    by (simp add: one_params_def container_ops_def list_env_def list_base_def)
  then show ?thesis
    using loadSegments_off_by_one [of one_params 1 4 ?w, OF _ _ _ _ _ item]
    by (simp add: name osbdPrefix_def devicePrefix_def blockPrefix_def) (simp add: one_params_def)
qed

end
