(* ===== verification/Strms.thy ===== *)
theory Strms
  imports Stow
begin

text \<open>
  The stream helpers of \<^verbatim>\<open>src/pkg/util/strms\<close>: a source of zeros, readers and writers that keep their own
  position over \<open>ReadAt\<close> and \<open>WriteAt\<close>, and a reader that closes a list of readers. A consumer that reads
  to the end, as \<^verbatim>\<open>bytes.Buffer.ReadFrom\<close> and \<^verbatim>\<open>bufio.Reader\<close> do, sees exactly the stream that the
  model of the uploads uses.
\<close>

section \<open>Definitions\<close>

definition devZero_Read :: "bytes \<Rightarrow> int \<times> goerr option \<times> bytes" where
  "devZero_Read buf = (int (length buf), None, map (\<lambda>_. 0) buf)"

definition devZero_Write :: "bytes \<Rightarrow> int \<times> goerr option" where
  "devZero_Write buf = (int (length buf), None)"

text \<open>The position of a \<open>readAtReader\<close> moves by what was read.\<close>

definition rar_Read :: "(bytes \<Rightarrow> i64 \<Rightarrow> int \<times> goerr option \<times> bytes) \<Rightarrow> i64 \<Rightarrow> bytes \<Rightarrow> int \<times> goerr option \<times> bytes \<times> i64" where
  "rar_Read readAt cur buf = (case readAt buf cur of (n, err, buf) \<Rightarrow> (n, err, buf, wrap64 (cur + n)))"

definition waw_Write :: "('f \<Rightarrow> bytes \<Rightarrow> i64 \<Rightarrow> int \<times> goerr option \<times> 'f) \<Rightarrow> i64 \<Rightarrow> 'f \<Rightarrow> bytes \<Rightarrow> int \<times> goerr option \<times> i64 \<times> 'f" where
  "waw_Write writeAt cur f buf = (case writeAt f buf cur of (n, err, f) \<Rightarrow> (n, err, wrap64 (cur + n), f))"

text \<open>Closing all closers, each given by what its \<open>Close\<close> answers; the first error is kept.\<close>

fun rfc_Close :: "goerr option list \<Rightarrow> goerr option \<Rightarrow> goerr option" where
  "rfc_Close [] err = err"
| "rfc_Close (clsrErr # closers) err = rfc_Close closers (if clsrErr \<noteq> None \<and> err = None then clsrErr else err)"

text \<open>A consumer that reads to the end with buffers of the sizes \<open>sz k\<close>, \<open>sz (k + 1)\<close> and so on.\<close>

partial_function (option) drain :: "(bytes \<Rightarrow> i64 \<Rightarrow> int \<times> goerr option \<times> bytes) \<Rightarrow> (nat \<Rightarrow> nat) \<Rightarrow> nat \<Rightarrow> i64 \<Rightarrow> bytes \<Rightarrow>
    strm option" where
  "drain readAt sz k cur acc =
     (case rar_Read readAt cur (zeros (sz k)) of (n, err, buf, cur) \<Rightarrow>
      (case err of
         None \<Rightarrow> drain readAt sz (Suc k) cur (acc @ take (nat n) buf)
       | Some e \<Rightarrow> Some (acc @ take (nat n) buf, if e = EOF then None else Some e)))"

fun waw_WriteAll :: "i64 \<Rightarrow> osfile \<Rightarrow> bytes list \<Rightarrow> goerr option \<times> i64 \<times> osfile" where
  "waw_WriteAll cur f [] = (None, cur, f)"
| "waw_WriteAll cur f (b # bs) =
     (case waw_Write file_WriteAt cur f b of
        (n, Some e, cur, f) \<Rightarrow> (Some e, cur, f)
      | (n, None, cur, f) \<Rightarrow> waw_WriteAll cur f bs)"

section \<open>Facts\<close>

lemma rfc_Close_first: "rfc_Close errs err = (if err \<noteq> None then err else Option.bind (find (\<lambda>e. e \<noteq> None) errs) (\<lambda>e. e))"
  by (induction errs arbitrary: err) auto

lemma drain_file_from:
  assumes "\<not> fclosed f" "\<not> frderr f" "\<forall>k. 0 < sz k" "int (length (fdata f)) < 2 ^ 63" "c \<le> length (fdata f)"
  shows "drain (file_ReadAt f) sz k (int c) acc = Some (acc @ drop c (fdata f), None)"
  using assms(5)
proof (induction "length (fdata f) - c" arbitrary: c k acc rule: less_induct)
  case less
  define m where "m = sz k"
  have m: "0 < m" using assms(3) by (simp add: m_def)
  let ?got = "chunk (fdata f) c m"
  have len: "length ?got = min m (length (fdata f) - c)" by (simp add: chunk_def)
  have wrap: "wrap64 (int c + int (length ?got)) = int (c + length ?got)"
    using assms(4) less.prems len by (subst wrap64_id) (auto simp: in64_def)
  have rd: "rar_Read (file_ReadAt f) (int c) (zeros m) =
      (int (length ?got), if length ?got < m then Some EOF else None, blit (zeros m) 0 ?got, int (c + length ?got))"
    using assms(1,2) m wrap by (simp add: rar_Read_def file_ReadAt_def Let_def)
  have "length ?got \<le> m" using len by simp
  then have tk: "take (length ?got) (blit (zeros m) 0 ?got) = ?got" by (simp add: blit_def)
  show ?case
  proof (cases "length ?got < m")
    case True
    then have "?got = drop c (fdata f)" using len by (simp add: chunk_def)
    then show ?thesis using rd tk True by (subst drain.simps) (simp add: m_def)
  next
    case False
    then have eq: "length ?got = m" "m \<le> length (fdata f) - c" using len by auto
    then have "drain (file_ReadAt f) sz (Suc k) (int (c + m)) (acc @ ?got) = Some ((acc @ ?got) @ drop (c + m) (fdata f), None)"
      using less.hyps [of "c + m"] m less.prems by simp
    moreover have "?got @ drop (c + m) (fdata f) = drop c (fdata f)"
      by (metis append_take_drop_id drop_drop add.commute chunk_def)
    ultimately show ?thesis using rd tk eq by (subst drain.simps) (simp add: m_def)
  qed
qed

lemma store_inside: "c \<le> length xs \<Longrightarrow> store xs c ys = take c xs @ ys @ drop (c + length ys) xs"
  by (simp add: store_def)

text \<open>Writing pieces one after the other writes their concatenation.\<close>

lemma waw_WriteAll_ok:
  assumes "healthy f" "c \<le> length (fdata f)" "int (c + length (concat bs)) < 2 ^ 63"
  shows "\<exists>f'. waw_WriteAll (int c) f bs = (None, int (c + length (concat bs)), f') \<and> healthy f' \<and>
    fdata f' = store (fdata f) c (concat bs)"
  using assms
proof (induction bs arbitrary: c f)
  case (Cons b bs)
  let ?f = "f\<lparr>fdata := store (fdata f) c b\<rparr>"
  have wrap: "wrap64 (int c + int (length b)) = int (c + length b)"
    using Cons.prems(3) by (subst wrap64_id) (auto simp: in64_def)
  then have "waw_Write file_WriteAt (int c) f b = (int (length b), None, int (c + length b), ?f)"
    using Cons.prems(1) by (auto simp: waw_Write_def file_WriteAt_def accept_def healthy_def store_def Let_def)
  moreover have "healthy ?f" using Cons.prems(1) by (simp add: healthy_def)
  moreover have "c + length b \<le> length (fdata ?f)" using Cons.prems(2) by (simp add: store_inside)
  moreover have "store (fdata ?f) (c + length b) (concat bs) = store (fdata f) c (concat (b # bs))"
    using Cons.prems(2) by (simp add: store_inside ac_simps)
  ultimately show ?case using Cons.IH [of ?f "c + length b"] Cons.prems(3) by (auto simp: add.assoc)
qed (simp add: store_def)

section \<open>Properties\<close>

text \<open>
  C35: reading a file to its end through a position-keeping reader terminates for every choice of non-empty
  buffers, and yields the file's bytes from the start, or the error of a file that cannot be read.
\<close>

theorem read_at_reader_drains:
  assumes "w_file w p = Some f" "\<forall>k. 0 < sz k" "int (length (fdata f)) < 2 ^ 63"
  shows "drain (h_ReadAt w (Some p)) sz 0 0 [] = Some (h_stream w (Some p))"
proof -
  have rd: "h_ReadAt w (Some p) = file_ReadAt f" using assms(1) by (simp add: h_ReadAt_def h_file_def fun_eq_iff)
  show ?thesis
  proof (cases "fclosed f \<or> frderr f")
    case True
    have "zeros (sz 0) \<noteq> []" using assms(2) by simp
    then show ?thesis
      unfolding rd using True assms(1)
      by (subst drain.simps) (auto simp: rar_Read_def file_ReadAt_def h_stream_def h_file_def)
  next
    case False
    then show ?thesis
      using drain_file_from [of f sz 0 0 "[]"] assms by (simp add: rd h_stream_def h_file_def)
  qed
qed

theorem read_at_reader_drains_witness:
  "drain (h_ReadAt \<lparr>w_cont = (), w_sema = (), w_fs = \<lparr>fs_files = [''f'' \<mapsto> new_file [1, 2, 3, 4, 5]], fs_new = new_file [],
       fs_createErr = False, fs_removeErr = False, fs_openErr = False, fs_readFileErr = False, fs_writeFileErr = False\<rparr>,
       w_time = \<lambda>_. 0, w_tick = 0\<rparr> (Some ''f'')) (\<lambda>_. 2) 0 0 [] = Some ([1, 2, 3, 4, 5], None)"
  by (subst read_at_reader_drains [where f = "new_file [1, 2, 3, 4, 5]"])
    (simp_all add: h_stream_def h_file_def new_file_def)

end
