(* ===== verification/Conf.thy ===== *)
theory Conf
  imports Objopts
begin

text \<open>
  The configuration of the daemon, \<^verbatim>\<open>src/cmd/usbdsrvd/conf\<close>, and the options that
  \<^verbatim>\<open>src/cmd/usbdsrvd/osbd.go\<close> makes of it. \<^verbatim>\<open>log.Fatalf\<close>, which ends the program, is \<^const>\<open>Inl\<close> with the
  message. What the program finds outside itself (flags that the flag package has parsed, files,
  environment variables, entropy, the validation of the object store package) is an argument.
  Strings are ASCII.
\<close>

section \<open>Backing devices and capacities\<close>

definition bytes_of :: "string \<Rightarrow> bytes" where
  "bytes_of s = map of_char s"

type_synonym BackingDevice = u8

definition DevUnknown :: BackingDevice where "DevUnknown = 0"
definition DevMem :: BackingDevice where "DevMem = 1"
definition DevFile :: BackingDevice where "DevFile = 2"
definition DevDedupFile :: BackingDevice where "DevDedupFile = 3"
definition DevObjStore :: BackingDevice where "DevObjStore = 4"

lemmas bakdevs = DevUnknown_def DevMem_def DevFile_def DevDedupFile_def DevObjStore_def

definition NewBackingDevice :: "string \<Rightarrow> BackingDevice" where
  "NewBackingDevice devDesc =
     (let d = ToLower devDesc in
      if d \<in> {''mem'', ''memory''} then DevMem
      else if d \<in> {''file'', ''disk''} then DevFile
      else if d \<in> {''dedup'', ''dedup-file'', ''dedup-disk''} then DevDedupFile
      else if d \<in> {''osbd'', ''objstore''} then DevObjStore
      else DevUnknown)"

definition bd_String :: "BackingDevice \<Rightarrow> string" where
  "bd_String bd =
     (if bd = DevMem then ''ramdisk''
      else if bd = DevFile then ''filedisk''
      else if bd = DevDedupFile then ''deduplicated-filedisk''
      else if bd = DevObjStore then ''locally-cached objectstore''
      else ''unknown'')"

text \<open>\<open>Capacity.Set\<close>, over the parser of the humanize package: the new value of the capacity.\<close>

definition Capacity_Set :: "(string \<Rightarrow> goerr + u64) \<Rightarrow> i64 \<Rightarrow> string \<Rightarrow> goerr option \<times> i64" where
  "Capacity_Set ParseBytes c str =
     (case ParseBytes str of
        Inl e \<Rightarrow> (Some (Wrap ''Parseing failed'' e), c)
      | Inr val \<Rightarrow> (None, sint val))"

section \<open>Configurations\<close>

type_synonym configMap = "(string \<times> string) list"

record objStoreConfig =
  oc_Kind :: string
  oc_Config :: configMap
  oc_LocalDiskCacheBytes :: i64
  oc_PersistCache :: bool
  oc_ObjectBytes :: i64
  oc_AESMode :: u8
  oc_AESKey :: bytes
  oc_CompressMode :: u8
  oc_ConcurFlush :: u64
  oc_FlushInterval :: i64

record config =
  cf_NBDDevName :: string
  cf_NBDDevCount :: u64
  cf_BackingMode :: BackingDevice
  cf_StorageDirectory :: string
  cf_StorageName :: string
  cf_StorageBytes :: i64
  cf_IDStoreMemoryCacheBytes :: i64
  cf_ObjStoreConfig :: objStoreConfig

text \<open>\<open>recConcurFlush\<close>, for the number of processors; the product may wrap around.\<close>

definition recConcurFlush :: "int \<Rightarrow> i64 \<Rightarrow> int go" where
  "recConcurFlush numCPU objsize =
     (let budgetBytes = 1024 * 1024 * 1024; atLeastOne = (\<lambda>rec. if rec < 1 then 1 else rec) in
      if budgetBytes < wrap64 (numCPU * objsize)
      then (if objsize = 0 then Panic else Ret (atLeastOne (budgetBytes sdiv objsize)))
      else Ret (atLeastOne numCPU))"

section \<open>Reading the configuration\<close>

record confenv =
  ev_ReadFile :: "string \<Rightarrow> goerr + bytes"
  ev_WriteFile :: "goerr option"
  ev_LookupEnv :: "string \<Rightarrow> string option"
  ev_rand :: "bytes option"
  ev_numCPU :: int
  ev_Validate :: "string \<Rightarrow> configMap \<Rightarrow> goerr option"

definition defKeyFile :: string where "defKeyFile = ''key.aes''"

text \<open>The key without a key argument: the default key file, or a new key that is written to it (the
  second component). The key of an existing file is not validated.\<close>

definition defaultAESKey :: "confenv \<Rightarrow> string \<Rightarrow> (string + bytes) \<times> (string \<times> bytes) option" where
  "defaultAESKey env dir =
     (let keyFile = path_Join dir defKeyFile in
      case ev_ReadFile env keyFile of
        Inr key \<Rightarrow> (Inr key, None)
      | Inl e \<Rightarrow>
        (if \<not> errIs e ErrNotExist then (Inl ''Could not read AES key file'', None)
         else
           (case MakeRandomAESKey (ev_rand env) of
              Inl e \<Rightarrow> (Inl ''Could not create AES key'', None)
            | Inr key \<Rightarrow>
              (case ev_WriteFile env of
                 Some e \<Rightarrow> (Inl ''Could not write AES key to file'', None)
               | None \<Rightarrow> (Inr key, Some (keyFile, key))))))"

definition givenAESKey :: "confenv \<Rightarrow> string \<Rightarrow> string + bytes" where
  "givenAESKey env AESKey =
     (let found =
        (if HasPrefix AESKey ''file:'' then
           (case ev_ReadFile env (TrimPrefix AESKey ''file:'') of
              Inl e \<Rightarrow> Inl ''Could not read AES key file'' | Inr key \<Rightarrow> Inr key)
         else if HasPrefix AESKey ''key:'' then Inr (bytes_of (TrimPrefix AESKey ''key:''))
         else if HasPrefix AESKey ''env:'' then
           (case ev_LookupEnv env (TrimPrefix AESKey ''env:'') of
              None \<Rightarrow> Inl ''Could not read AES key from non-existent environment variable''
            | Some envVal \<Rightarrow> Inr (bytes_of envVal))
         else Inl ''AES key source is not valid'')
      in case found of
           Inl msg \<Rightarrow> Inl msg
         | Inr key \<Rightarrow>
           (case ValidAESKey key of
              Some e \<Rightarrow> Inl ''Could not validate provided AES key''
            | None \<Rightarrow> Inr key))"

text \<open>The end of \<open>mustGetObjStoreConfig\<close>: the compression mode and the number of flush workers.\<close>

definition finishObjStoreConfig :: "confenv \<Rightarrow> string \<Rightarrow> objStoreConfig \<Rightarrow> (string + objStoreConfig) go" where
  "finishObjStoreConfig env Compress oc =
     (let oc = oc\<lparr>oc_CompressMode := cmp_ModeFromName Compress\<rparr> in
      if oc_CompressMode oc = cmp_ModeUnknown then Ret (Inl ''Unknown compression mode was provided'')
      else if oc_ConcurFlush oc = 0
      then go_bind (recConcurFlush (ev_numCPU env) (oc_ObjectBytes oc)) (\<lambda>rec.
        Ret (Inr (oc\<lparr>oc_ConcurFlush := word_of_int rec\<rparr>)))
      else Ret (Inr oc))"

text \<open>\<open>mustGetObjStoreConfig\<close>: the completed configuration, and the file that was written. \<open>parsed\<close> is what
  the JSON package makes of the configuration text.\<close>

definition mustGetObjStoreConfig :: "confenv \<Rightarrow> string \<Rightarrow> objStoreConfig \<Rightarrow> string \<Rightarrow> goerr + configMap \<Rightarrow> string \<Rightarrow> string \<Rightarrow> string \<Rightarrow>
    (string + objStoreConfig) go \<times> (string \<times> bytes) option" where
  "mustGetObjStoreConfig env dir oc objStoreConfigJSON parsed AESMode AESKey Compress =
     (if ToLower (oc_Kind oc) = '''' then (Ret (Inl ''An objectstore kind must be provided (-objstore-kind=X)''), None)
      else if ToLower (oc_Kind oc) \<notin> {''s3'', ''b2'', ''local'', ''azure'', ''swift'', ''google'', ''oracle'', ''sftp''}
      then (Ret (Inl ''Unknown objectstore kind was provided''), None)
      else if objStoreConfigJSON = ''''
      then (Ret (Inl ''No JSON configuration was provided for remote objectstore (use -objstore-cfg=JSON)''), None)
      else
        (case parsed of
           Inl e \<Rightarrow> (Ret (Inl ''Provided JSON configuration for remote objectstore could not be parsed''), None)
         | Inr cm \<Rightarrow>
           (case ev_Validate env (oc_Kind oc) cm of
              Some e \<Rightarrow> (Ret (Inl ''Provided configuration for remote objectstore was not valid''), None)
            | None \<Rightarrow>
              (let oc = oc\<lparr>oc_Config := cm\<rparr> in
               if AESMode = ''identity'' then (finishObjStoreConfig env Compress oc, None)
               else if enc_ModeFromName AESMode = enc_ModeUnknown then (Ret (Inl ''Unknown AES mode was provided''), None)
               else
                 (let oc = oc\<lparr>oc_AESMode := enc_ModeFromName AESMode\<rparr>;
                      (key, written) = (if AESKey = '''' then defaultAESKey env dir else (givenAESKey env AESKey, None))
                  in case key of
                       Inl msg \<Rightarrow> (Ret (Inl msg), written)
                     | Inr key \<Rightarrow> (finishObjStoreConfig env Compress (oc\<lparr>oc_AESKey := key\<rparr>), written))))))"

text \<open>\<open>MustGetConfig\<close> after the flag package has parsed the arguments: \<open>fl_cfg\<close> holds the fields that
  are bound to flags directly.\<close>

datatype pathStat = StatDir | StatOther | StatNotExist | StatErr

record flags =
  fl_devKind :: string
  fl_cfg :: config
  fl_arg0 :: string
  fl_IDStoreMemoryCache :: string
  fl_objStoreConfigJSON :: string
  fl_parsed :: "goerr + configMap"
  fl_AESMode :: string
  fl_AESKey :: string
  fl_Compress :: string

definition MustGetConfig :: "confenv \<Rightarrow> (string \<Rightarrow> goerr + u64) \<Rightarrow> (string \<Rightarrow> goerr + string) \<Rightarrow> (string \<Rightarrow> pathStat) \<Rightarrow> flags \<Rightarrow>
    (string + config) go \<times> (string \<times> bytes) option" where
  "MustGetConfig env ParseBytes Abs Stat fl =
     (let cfg = (fl_cfg fl)\<lparr>cf_NBDDevName := fl_arg0 fl, cf_BackingMode := NewBackingDevice (fl_devKind fl)\<rparr>;
          driver = (\<lambda>cfg.
            if cf_BackingMode cfg = DevDedupFile then
              (if fl_IDStoreMemoryCache fl = ''''
               then (Ret (Inl ''No memory quota for the dedup store ID cache was provided (use -dedup-memcache=X)''), None)
               else
                 (case ParseBytes (fl_IDStoreMemoryCache fl) of
                    Inl e \<Rightarrow> (Ret (Inl ''Could not parse provided capacity for dedup store ID cache''), None)
                  | Inr n \<Rightarrow> (Ret (Inr (cfg\<lparr>cf_IDStoreMemoryCacheBytes := sint n\<rparr>)), None)))
            else if cf_BackingMode cfg = DevObjStore then
              (case mustGetObjStoreConfig env (cf_StorageDirectory cfg) (cf_ObjStoreConfig cfg) (fl_objStoreConfigJSON fl)
                  (fl_parsed fl) (fl_AESMode fl) (fl_AESKey fl) (fl_Compress fl) of
                 (r, written) \<Rightarrow>
                   (go_bind r (\<lambda>r. Ret (case r of Inl msg \<Rightarrow> Inl msg | Inr oc \<Rightarrow> Inr (cfg\<lparr>cf_ObjStoreConfig := oc\<rparr>))), written))
            else (Ret (Inr cfg), None))
      in
      if cf_BackingMode cfg = DevUnknown then (Ret (Inl ''Bad argument: Unknown backing device type''), None)
      else if cf_StorageName cfg = '''' then (Ret (Inl ''No volume name was provided (use -store-name=X)''), None)
      else if cf_BackingMode cfg = DevMem then driver cfg
      else if cf_StorageDirectory cfg = '''' then (Ret (Inl ''No storage directory was provided (use -store-dir=X)''), None)
      else
        (case Abs (cf_StorageDirectory cfg) of
           Inl e \<Rightarrow> (Ret (Inl ''Could not resolve storage directory to an absolute path''), None)
         | Inr dir \<Rightarrow>
           (case Stat dir of
              StatNotExist \<Rightarrow> (Ret (Inl ''Provided storage directory does not exist''), None)
            | StatErr \<Rightarrow> (Ret (Inl ''Provided storage directory could not be be accessed''), None)
            | StatOther \<Rightarrow> (Ret (Inl ''Provided storage directory is not a directory''), None)
            | StatDir \<Rightarrow> driver (cfg\<lparr>cf_StorageDirectory := dir\<rparr>))))"

text \<open>The flags' default values; the default configuration text and its parse are arguments.\<close>

definition defStoreSize :: i64 where "defStoreSize = 1024 * 1024 * 1024"
definition defObjectSize :: i64 where "defObjectSize = 64 * 1024 * 1024"

definition defaultFlags :: "string \<Rightarrow> string \<Rightarrow> goerr + configMap \<Rightarrow> flags" where
  "defaultFlags KindS3 json parsed =
     \<lparr>fl_devKind = ''mem'',
      fl_cfg = \<lparr>cf_NBDDevName = '''', cf_NBDDevCount = 32, cf_BackingMode = DevUnknown, cf_StorageDirectory = ''./'',
        cf_StorageName = ''test-lun'', cf_StorageBytes = defStoreSize, cf_IDStoreMemoryCacheBytes = 0,
        cf_ObjStoreConfig = \<lparr>oc_Kind = KindS3, oc_Config = [], oc_LocalDiskCacheBytes = 0, oc_PersistCache = False,
          oc_ObjectBytes = defObjectSize, oc_AESMode = enc_ModeIdentity, oc_AESKey = [], oc_CompressMode = cmp_ModeIdentity,
          oc_ConcurFlush = 0, oc_FlushInterval = 10 * 10 ^ 9\<rparr>\<rparr>,
      fl_arg0 = '''', fl_IDStoreMemoryCache = ''512 MiB'', fl_objStoreConfigJSON = json, fl_parsed = parsed,
      fl_AESMode = enc_AlgoName (enc_ModeFromName ''aes-rec''), fl_AESKey = '''', fl_Compress = ''s2''\<rparr>"

section \<open>From the configuration to the device\<close>

text \<open>The kinds of object store without metadata; the names of the kinds belong to the drivers.\<close>

definition SupportsMetaData :: "string \<Rightarrow> string \<Rightarrow> string \<Rightarrow> bool" where
  "SupportsMetaData KindLocalTest KindSFTP kind = (if kind = KindLocalTest \<or> kind = KindSFTP then False else True)"

definition osbdOptions :: "string \<Rightarrow> string \<Rightarrow> objStoreConfig \<Rightarrow> option' list" where
  "osbdOptions KindLocalTest KindSFTP oscfg =
     [OptConcurFlushCount (oc_ConcurFlush oscfg)] @
     (if oc_LocalDiskCacheBytes oscfg > 0 then [OptQuotaBytes (oc_LocalDiskCacheBytes oscfg)] else []) @
     (if oc_PersistCache oscfg then [OptPersistCache True] else []) @
     (if oc_AESMode oscfg \<noteq> enc_ModeIdentity then [OptEncrypt (oc_AESMode oscfg) (oc_AESKey oscfg)] else []) @
     (if oc_CompressMode oscfg \<noteq> cmp_ModeIdentity then [OptCompressRemoteObjects (oc_CompressMode oscfg)] else []) @
     (if oc_FlushInterval oscfg > 0 then [OptAutoflushIval (oc_FlushInterval oscfg)] else []) @
     (if \<not> SupportsMetaData KindLocalTest KindSFTP (oc_Kind oscfg) then [OptNoMetadataSupport True] else [])"

text \<open>\<open>osbdFromCfg\<close>: \<open>dial\<close> is what dialling the store answers, \<open>open'\<close> and \<open>create\<close> what opening and creating
  the container answer; the container of the world is the one that was opened or created.\<close>

definition osbdFromCfg :: "('c, 'i) cenv \<Rightarrow> 's sema_pkg \<Rightarrow> string \<Rightarrow> string \<Rightarrow> goerr option \<Rightarrow> goerr option \<Rightarrow> goerr option \<Rightarrow>
    config \<Rightarrow> ('c \<times> nat, 's) world \<Rightarrow> (goerr + ('c \<times> nat, 'i item, 's) objdev) go" where
  "osbdFromCfg env sk KindLocalTest KindSFTP dial open' create cfg w =
     (let device = NewDevice env sk (Some ()) (Some BaseContainer) (cf_StorageDirectory cfg) (word_of_int (cf_StorageBytes cfg))
            (word_of_int (oc_ObjectBytes (cf_ObjStoreConfig cfg))) (osbdOptions KindLocalTest KindSFTP (cf_ObjStoreConfig cfg)) w
      in case dial of
           Some e \<Rightarrow> Ret (Inl (Wrap ''Could not create s3 object store'' e))
         | None \<Rightarrow>
           (case open' of
              None \<Rightarrow> device
            | Some e \<Rightarrow>
              (if \<not> errIs e ErrNotFound then Ret (Inl (Wrap ''Could not open remote container'' e))
               else
                 (case create of
                    Some e \<Rightarrow> Ret (Inl (Wrap ''Could not create remote container'' e))
                  | None \<Rightarrow> device))))"

section \<open>Facts\<close>

text \<open>Without wrap-around the recommendation keeps within the budget of 1 GiB, or is 1.\<close>

lemma recConcurFlush_budget:
  assumes "0 < objsize" "0 < numCPU" "numCPU * objsize < 2 ^ 63"
  shows "\<exists>rec. recConcurFlush numCPU objsize = Ret rec \<and> 1 \<le> rec \<and> rec \<le> numCPU \<and> (rec = 1 \<or> rec * objsize \<le> 2 ^ 30)"
proof -
  have nw: "wrap64 (numCPU * objsize) = numCPU * objsize"
    using assms by (intro wrap64_id) (auto simp: in64_def intro: order_trans [of _ 0])
  have q: "1024 * 1024 * 1024 sdiv objsize = 2 ^ 30 div objsize" using assms(1) by (simp add: signed_divide_int_def)
  show ?thesis
  proof (cases "2 ^ 30 < numCPU * objsize")
    case True
    have "2 ^ 30 div objsize * objsize \<le> 2 ^ 30"
      using assms(1) div_mult_mod_eq [of "2 ^ 30 :: int" objsize] pos_mod_sign [OF assms(1), of "2 ^ 30"] by linarith
    moreover from this have "2 ^ 30 div objsize < numCPU"
      using True assms(1) mult_less_cancel_right_pos [OF assms(1), of "2 ^ 30 div objsize" numCPU] by linarith
    ultimately show ?thesis using True assms(1,2) nw q by (auto simp: recConcurFlush_def Let_def)
  next
    case False
    then show ?thesis using assms(2) nw by (simp add: recConcurFlush_def Let_def)
  qed
qed

lemma ModeFromName_known:
  "enc_ModeFromName s \<noteq> enc_ModeUnknown \<Longrightarrow> enc_ModeFromName s = enc_ModeIdentity \<or> enc_mode_ok (enc_ModeFromName s)"
  "cmp_ModeFromName t \<noteq> cmp_ModeUnknown \<Longrightarrow> cmp_ModeFromName t = cmp_ModeIdentity \<or> cmp_mode_ok (cmp_ModeFromName t)"
  by (auto simp: enc_ModeFromName_def cmp_ModeFromName_def enc_mode_ok_def cmp_mode_ok_def)

lemma givenAESKey_valid: "givenAESKey env AESKey = Inr key \<Longrightarrow> ValidAESKey key = None"
  by (auto simp: givenAESKey_def Let_def split: sum.splits option.splits)

text \<open>What an accepted configuration holds.\<close>

lemma finishObjStoreConfig_accepts:
  assumes "finishObjStoreConfig env Compress oc = Ret (Inr oc')"
  shows "oc_CompressMode oc' = cmp_ModeFromName Compress" "cmp_ModeFromName Compress \<noteq> cmp_ModeUnknown"
    "oc_Kind oc' = oc_Kind oc" "oc_LocalDiskCacheBytes oc' = oc_LocalDiskCacheBytes oc"
    "oc_AESMode oc' = oc_AESMode oc" "oc_AESKey oc' = oc_AESKey oc"
  using assms
  by (cases "recConcurFlush (ev_numCPU env) (oc_ObjectBytes oc)"; auto simp: finishObjStoreConfig_def Let_def split: if_splits)+

lemma mustGetObjStoreConfig_accepts:
  assumes "mustGetObjStoreConfig env dir oc json parsed AESMode AESKey Compress = (Ret (Inr oc'), written)"
    and "AESKey \<noteq> ''''" "oc_AESMode oc = enc_ModeIdentity"
  shows "\<exists>oc1. finishObjStoreConfig env Compress oc1 = Ret (Inr oc') \<and> oc_Kind oc1 = oc_Kind oc \<and>
    oc_LocalDiskCacheBytes oc1 = oc_LocalDiskCacheBytes oc \<and> oc_AESMode oc1 = enc_ModeFromName AESMode \<and>
    enc_ModeFromName AESMode \<noteq> enc_ModeUnknown \<and> (AESMode \<noteq> ''identity'' \<longrightarrow> ValidAESKey (oc_AESKey oc1) = None)"
proof (cases "AESMode = ''identity''")
  case True
  then show ?thesis
    using assms by (auto simp: mustGetObjStoreConfig_def Let_def enc_ModeFromName_def enc_modes split: if_splits sum.splits option.splits)
next
  case False
  then show ?thesis
    using assms givenAESKey_valid
    by (fastforce simp: mustGetObjStoreConfig_def Let_def split: if_splits sum.splits option.splits)
qed

lemma osbdOptions_fields:
  "do_encryptMode (fold opt_apply (osbdOptions kl ks oc) no_opts) = oc_AESMode oc"
  "oc_AESMode oc \<noteq> enc_ModeIdentity \<Longrightarrow> do_encryptKey (fold opt_apply (osbdOptions kl ks oc) no_opts) = oc_AESKey oc"
  "do_compressMode (fold opt_apply (osbdOptions kl ks oc) no_opts) = oc_CompressMode oc"
  "do_quotaBytes (fold opt_apply (osbdOptions kl ks oc) no_opts) = max 0 (oc_LocalDiskCacheBytes oc)"
  "do_noMetadata (fold opt_apply (osbdOptions kl ks oc) no_opts) \<longleftrightarrow> \<not> SupportsMetaData kl ks (oc_Kind oc)"
  by (simp_all add: osbdOptions_def no_opts_def enc_ModeIdentity_def cmp_ModeIdentity_def)

section \<open>Properties\<close>



definition ex_env :: confenv where
  "ex_env = \<lparr>ev_ReadFile = (\<lambda>_. Inl ErrNotExist), ev_WriteFile = None, ev_LookupEnv = (\<lambda>_. None), ev_rand = Some (replicate 32 7),
     ev_numCPU = 4, ev_Validate = (\<lambda>_ _. None)\<rparr>"

definition ex_objStoreConfig :: objStoreConfig where
  "ex_objStoreConfig = \<lparr>oc_Kind = ''s3'', oc_Config = [], oc_LocalDiskCacheBytes = 0, oc_PersistCache = False, oc_ObjectBytes = 4096,
     oc_AESMode = 0, oc_AESKey = [], oc_CompressMode = 0, oc_ConcurFlush = 2, oc_FlushInterval = 0\<rparr>"


end
