(* ===== verification/Conf_Show.thy ===== *)
theory Conf_Show
  imports Conf
begin

text \<open>
  The description of the configuration that the daemon writes to its log, the \<open>String\<close> methods of
  \<^verbatim>\<open>src/cmd/usbdsrvd/conf/cfg.go\<close>. Sizes are formatted by the humanize package, an argument. The
  standard library's quoting and its format of durations are modelled for ASCII strings.
\<close>

section \<open>Formatting\<close>

text \<open>\<^verbatim>\<open>%q\<close>: a quoted string with Go's escapes.\<close>

definition quote_char :: "char \<Rightarrow> string" where
  "quote_char c =
     (let n = of_char c :: nat in
      if n = 0x22 \<or> n = 0x5c then [CHR 0x5c, c]
      else if 0x20 \<le> n \<and> n < 0x7f then [c]
      else if n = 7 then CHR 0x5c # ''a'' else if n = 8 then CHR 0x5c # ''b'' else if n = 9 then CHR 0x5c # ''t''
      else if n = 10 then CHR 0x5c # ''n'' else if n = 11 then CHR 0x5c # ''v'' else if n = 12 then CHR 0x5c # ''f''
      else if n = 13 then CHR 0x5c # ''r''
      else CHR 0x5c # ''x'' @ hex_Encode [of_nat n])"

definition Quote :: "string \<Rightarrow> string" where
  "Quote s = CHR 0x22 # concat (map quote_char s) @ [CHR 0x22]"

text \<open>\<^verbatim>\<open>time.Duration.String\<close>. \<open>fmtFrac\<close> is the fraction of \<open>v\<close> below \<open>10 ^ prec\<close> without trailing zeros.\<close>

definition fmtFrac :: "nat \<Rightarrow> nat \<Rightarrow> string" where
  "fmtFrac v prec =
     (let ds = map (\<lambda>i. v div 10 ^ i mod 10) (rev [0..<prec]);
          kept = rev (dropWhile (\<lambda>d. d = 0) (rev ds))
      in if kept = [] then '''' else CHR ''.'' # map digit_char kept)"

definition Duration_String :: "i64 \<Rightarrow> string" where
  "Duration_String d =
     (let u = nat \<bar>d\<bar>; sec = u div 10 ^ 9; num = (\<lambda>n. Itoa (int n)) in
      (if d < 0 then ''-'' else '''') @
      (if u = 0 then ''0s''
       else if u < 10 ^ 3 then num u @ ''ns''
       else if u < 10 ^ 6 then num (u div 10 ^ 3) @ fmtFrac u 3 @ [CHR 0xc2, CHR 0xb5] @ ''s''
       else if u < 10 ^ 9 then num (u div 10 ^ 6) @ fmtFrac u 6 @ ''ms''
       else
         (if 3600 \<le> sec then num (sec div 3600) @ ''h'' else '''') @
         (if 60 \<le> sec then num (sec div 60 mod 60) @ ''m'' else '''') @
         num (sec mod 60) @ fmtFrac u 9 @ ''s''))"

section \<open>Descriptions\<close>

text \<open>The parameters of the object store. The map is a list in the order
  in which the program happens to visit it.\<close>

definition mayBeSecret :: "string \<Rightarrow> bool" where
  "mayBeSecret s = (\<exists>cannidate \<in> set [''secret'', ''cred'', ''pass'', ''token'']. Contains (ToLower s) cannidate)"

definition stowCfgStr :: "configMap \<Rightarrow> string" where
  "stowCfgStr cm =
     (let str = concat (map (\<lambda>(k, v). k @ ''='' @
            (if mayBeSecret k then ''<REDACTED>'' else CHR 0x22 # v @ [CHR 0x22]) @ '', '') cm)
      in if 2 < length str then take (length str - 2) str else str)"

text \<open>\<open>Capacity.String\<close> and the three descriptions; a capacity is converted to an unsigned word.\<close>

definition Capacity_String :: "(u64 \<Rightarrow> string) \<Rightarrow> i64 \<Rightarrow> string" where
  "Capacity_String IBytes c = IBytes (word_of_int c)"

definition DedupConfig_String :: "(u64 \<Rightarrow> string) \<Rightarrow> i64 \<Rightarrow> string" where
  "DedupConfig_String IBytes cacheBytes = ''using up to '' @ IBytes (word_of_int cacheBytes) @ '' memory for ID Store cache''"

definition ObjStoreConfig_String :: "(u64 \<Rightarrow> string) \<Rightarrow> objStoreConfig \<Rightarrow> string" where
  "ObjStoreConfig_String IBytes c =
     (let size' = (if oc_LocalDiskCacheBytes c > 0 then IBytes (word_of_int (oc_LocalDiskCacheBytes c)) else ''as much as total device size'');
          flushDesc = (if oc_FlushInterval c > 0
            then '', flushing to remote story every '' @ Duration_String (oc_FlushInterval c) @ '' using '' @
              Itoa (int (unat (oc_ConcurFlush c))) @ '' workers''
            else '''');
          persistMode = (if oc_PersistCache c then ''persistent'' else ''non-persistent'')
      in ''using a '' @ oc_Kind c @ '' remote object store ('' @ stowCfgStr (oc_Config c) @ ''), with '' @
         IBytes (word_of_int (oc_ObjectBytes c)) @ '' objects, using up to '' @ size' @ '' of '' @ persistMode @
         '' local storage for cache, '' @ cmp_AlgoName (oc_CompressMode c) @ '' compression, '' @
         enc_AlgoName (oc_AESMode c) @ '' encryption'' @ flushDesc)"

definition Config_String :: "(u64 \<Rightarrow> string) \<Rightarrow> config \<Rightarrow> string" where
  "Config_String IBytes cfg =
     (let devName = (if cf_NBDDevName cfg \<noteq> '''' then cf_NBDDevName cfg else ''next available NBD device'');
          driverParams =
            (if cf_BackingMode cfg = DevDedupFile then '' '' @ DedupConfig_String IBytes (cf_IDStoreMemoryCacheBytes cfg)
             else if cf_BackingMode cfg = DevObjStore then '' '' @ ObjStoreConfig_String IBytes (cf_ObjStoreConfig cfg)
             else '''')
      in ''Exporting '' @ IBytes (word_of_int (cf_StorageBytes cfg)) @ '' volume '' @ Quote (cf_StorageName cfg) @ '' as '' @ devName @
         '' with local storage at '' @ Quote (cf_StorageDirectory cfg) @ '' using driver '' @ bd_String (cf_BackingMode cfg) @
         driverParams @ ''.'')"

section \<open>Secrets\<close>

text \<open>Two parameter maps that differ only in values of keys that may be secret.\<close>

definition same_public :: "configMap \<Rightarrow> configMap \<Rightarrow> bool" where
  "same_public cm cm' \<longleftrightarrow> list_all2 (\<lambda>(k, v) (k', v'). k = k' \<and> (mayBeSecret k \<or> v = v')) cm cm'"

lemma stowCfgStr_public:
  assumes "same_public cm cm'"
  shows "stowCfgStr cm = stowCfgStr cm'"
proof -
  let ?f = "\<lambda>(k, v). k @ ''='' @ (if mayBeSecret k then ''<REDACTED>'' else CHR 0x22 # v @ [CHR 0x22]) @ '', ''"
  have "map ?f cm = map ?f cm'"
    using assms unfolding same_public_def by (induction rule: list_all2_induct) auto
  then show ?thesis by (simp add: stowCfgStr_def)
qed



end
