(* ===== verification/Nbd_Errs.thy ===== *)
theory Nbd_Errs
  imports Nbd_Wire Strconv
begin

text \<open>
  The error codes of NBD replies and their texts, \<^verbatim>\<open>src/pkg/usbdlib/nbdutil_linux.go\<close>.
\<close>

section \<open>Definitions\<close>

definition ndbRespErrPerms :: nbdErr where "ndbRespErrPerms = 1"
definition ndbRespErrMem :: nbdErr where "ndbRespErrMem = 12"
definition ndbRespErrNoSpace :: nbdErr where "ndbRespErrNoSpace = 28"
definition ndbRespErrTooLarge :: nbdErr where "ndbRespErrTooLarge = 75"
definition ndbRespErrUnsupportedOp :: nbdErr where "ndbRespErrUnsupportedOp = 95"
definition ndbRespErrShuttingDown :: nbdErr where "ndbRespErrShuttingDown = 108"

lemmas respErrs = nbdRespSuccess_def ndbRespErrPerms_def ndbRespErrIO_def ndbRespErrMem_def ndbRespErrInvalid_def
  ndbRespErrNoSpace_def ndbRespErrTooLarge_def ndbRespErrUnsupportedOp_def ndbRespErrShuttingDown_def

definition newRespErr :: "u32 \<Rightarrow> nbdErr option" where
  "newRespErr errNo = (if errNo = 0 then None else Some errNo)"

definition nbdErr_Error :: "nbdErr \<Rightarrow> string" where
  "nbdErr_Error err =
     (let msg = ''NBD Error #'' @ Itoa (int (unat err)) @ '': '' in
      if err = nbdRespSuccess then ''Not an error!''
      else if err = ndbRespErrPerms then msg @ ''Operation not permitted''
      else if err = ndbRespErrIO then msg @ ''Input/output error''
      else if err = ndbRespErrMem then msg @ ''Cannot allocate memory''
      else if err = ndbRespErrInvalid then msg @ ''Invalid argument''
      else if err = ndbRespErrNoSpace then msg @ ''No space left on device''
      else if err = ndbRespErrTooLarge then msg @ ''Value too large''
      else if err = ndbRespErrUnsupportedOp then msg @ ''Operation not supported''
      else if err = ndbRespErrShuttingDown then msg @ ''Server is in the process of being shut down''
      else msg @ ''Unknown (likely invalid) error'')"

section \<open>Facts\<close>

text \<open>The text of an error names its code: different errors have different texts.\<close>

lemma nbdErr_Error_shape:
  "err \<noteq> 0 \<Longrightarrow> \<exists>txt. nbdErr_Error err = ''NBD Error #'' @ digits 10 (unat err) @ CHR '':'' # txt"
  by (simp add: nbdErr_Error_def Let_def nbdRespSuccess_def Itoa_def FormatInt_def)

lemma colon_not_digit: "CHR '':'' \<notin> set (digits 10 n)"
proof
  assume "CHR '':'' \<in> set (digits 10 n)"
  then obtain d where "d < 10" "digit_char d = CHR '':''" using set_digits [of 10 "CHR '':''" n] by auto
  then have "char_digit (CHR '':'') = Some d" using char_digit_char [of d] by simp
  then show False by (simp add: char_digit_def)
qed

lemma nbdErr_Error_inj:
  assumes "newRespErr e = Some a" "newRespErr e' = Some b" "nbdErr_Error a = nbdErr_Error b"
  shows "e = e'"
proof -
  have ab: "a = e" "b = e'" "a \<noteq> 0" "b \<noteq> 0" using assms(1,2) by (auto simp: newRespErr_def split: if_splits)
  obtain x where x: "nbdErr_Error a = ''NBD Error #'' @ digits 10 (unat a) @ CHR '':'' # x" using nbdErr_Error_shape [OF ab(3)] ..
  obtain y where y: "nbdErr_Error b = ''NBD Error #'' @ digits 10 (unat b) @ CHR '':'' # y" using nbdErr_Error_shape [OF ab(4)] ..
  have word: "takeWhile (\<lambda>c. c \<noteq> CHR '':'') (digits 10 n @ CHR '':'' # z) = digits 10 n" for n z
    using colon_not_digit [of n] by (subst takeWhile_append2) auto
  have "digits 10 (unat a) @ CHR '':'' # x = digits 10 (unat b) @ CHR '':'' # y" using x y assms(3) by simp
  then have "digits 10 (unat a) = digits 10 (unat b)" using word by metis
  then show ?thesis using ab by (simp add: digits_inj word_unat_eq_iff)
qed

end
