(* ===== verification/Nbd_Kern.thy ===== *)
theory Nbd_Kern
  imports Strconv
begin

text \<open>
  Finding and loading NBD devices, \<^verbatim>\<open>src/pkg/usbdlib/nbdkern_linux.go\<close>, and the choice of a device in
  \<open>NewNbdHandler\<close> of \<^verbatim>\<open>src/pkg/usbdlib/nbdstrm.go\<close>. The parts of the kernel that the code reads are a
  record; the package that loads kernel modules and the one that splits device numbers are arguments.
\<close>

section \<open>The kernel's files\<close>

text \<open>A text file read line by line: it cannot be opened, or it has lines and then maybe a read error.\<close>

type_synonym lines = "goerr + string list \<times> goerr option"

record pathinfo =
  st_isDir :: bool
  st_isRegular :: bool
  st_size :: i64

record kern =
  k_modules :: lines
  k_devices :: lines
  k_stat :: "string \<Rightarrow> goerr + pathinfo"
  k_rawstat :: "string \<Rightarrow> goerr + u32 \<times> u64"
  k_sysblock :: "goerr + string list"

section \<open>Definitions\<close>

definition nbdLoaded :: "kern \<Rightarrow> goerr option" where
  "nbdLoaded k =
     (case k_modules k of
        Inl e \<Rightarrow> Some (Wrap ''Could not open procfs file listing kernel modules'' e)
      | Inr (lines, err) \<Rightarrow>
        (case find (\<lambda>line. HasPrefix line ''nbd'') lines of
           Some line \<Rightarrow>
             (if Contains line ''Live'' then None
              else Some (Msg ''The NDB kernel module is loaded but is not live''))
         | None \<Rightarrow>
             (case err of
                Some e \<Rightarrow> Some (Wrap ''Could not read procfs file listing kernel modules'' e)
              | None \<Rightarrow> Some (Msg ''The NDB kernel module is not loaded''))))"

text \<open>The module loader: the error of making it, and what loading a module with a parameter does.\<close>

record kmod_pkg =
  km_New :: "goerr option"
  km_Load :: "string \<Rightarrow> string \<Rightarrow> kern \<Rightarrow> goerr option \<times> kern"

definition loadNbd :: "kmod_pkg \<Rightarrow> u64 \<Rightarrow> kern \<Rightarrow> goerr option \<times> kern" where
  "loadNbd km maxNBDDevices k =
     (if maxNBDDevices < 1 then (Some (Msg ''Loading NBD with fewer than 1 devices provisioned is pointless''), k)
      else
        (case km_New km of
           Some e \<Rightarrow> (Some (Wrap ''Failed to contruct kernel module loader'' e), k)
         | None \<Rightarrow>
           (case km_Load km ''nbd'' (''nbds_max='' @ Itoa (int (unat maxNBDDevices))) k of
              (Some e, k) \<Rightarrow> (Some (Wrap ''Failed to load kernel module'' e), k)
            | (None, k) \<Rightarrow>
              (map_option (Wrap ''NBD did not appear as loaded after load attempt'') (nbdLoaded k), k))))"

definition nbdMajor :: "kern \<Rightarrow> goerr + int" where
  "nbdMajor k =
     (case k_devices k of
        Inl e \<Rightarrow> Inl (Wrap ''Could not open procfs file listing kernel device major numbers'' e)
      | Inr (lines, err) \<Rightarrow>
        (case find (\<lambda>line. HasSuffix line '' nbd'') lines of
           Some line \<Rightarrow>
             (case Atoi (TrimSpace (TrimSuffix line '' nbd'')) of
                Inl e \<Rightarrow> Inl (Wrap ''Could not parse device major entry'' e)
              | Inr devMajor \<Rightarrow> Inr devMajor)
         | None \<Rightarrow>
             (case err of
                Some e \<Rightarrow> Inl (Wrap ''Could not read procfs file listing device major numbers'' e)
              | None \<Rightarrow> Inl (Msg ''Could not find device major entry''))))"

text \<open>The test of the mode: \<^verbatim>\<open>os.ModeDevice\<close> is bit 26 of Go's file modes. \<open>devno\<close> splits device numbers.\<close>

definition ndbMajorMinorForDevice :: "(u64 \<Rightarrow> u32 \<times> u32) \<Rightarrow> kern \<Rightarrow> string \<Rightarrow> goerr + int \<times> int" where
  "ndbMajorMinorForDevice devno k devPath =
     (case k_rawstat k devPath of
        Inl e \<Rightarrow> Inl (Wrap ''Could not stat provided potential device file'' e)
      | Inr (mode, rdev) \<Rightarrow>
        (if bit mode 26 then Inl (Msg ''Provided device file is not a block device'')
         else Inr (int (unat (fst (devno rdev))), int (unat (snd (devno rdev))))))"

definition validateDevPath :: "(u64 \<Rightarrow> u32 \<times> u32) \<Rightarrow> kern \<Rightarrow> string \<Rightarrow> goerr option" where
  "validateDevPath devno k devPath =
     (case k_stat k devPath of
        Inl e \<Rightarrow>
          (if errIs e ErrNotExist then Some (Msg ''Provided device does not exist'')
           else Some (Msg (''Provided device could not be stat'' @ [CHR 0x27] @ ''d'')))
      | Inr fstat \<Rightarrow>
        (if st_isDir fstat then Some (Msg ''Provided device is a directory'')
         else if st_isRegular fstat then Some (Msg ''Provided device is not special therefore cannot be a device file'')
         else if 0 < st_size fstat then Some (Msg ''Provided device has a size greater than zero so it may be in use'')
         else
           (case nbdMajor k of
              Inl e \<Rightarrow> Some (Wrap ''Could not determine major device number for NDB'' e)
            | Inr devMajor \<Rightarrow>
              (case ndbMajorMinorForDevice devno k devPath of
                 Inl e \<Rightarrow> Some (Wrap ''Could not validate device major and minor were correct'' e)
               | Inr (actualMajor, _) \<Rightarrow>
                 (if actualMajor \<noteq> devMajor then Some (Msg ''Create device had device major number other than expected'')
                  else None)))))"

fun firstFree :: "(u64 \<Rightarrow> u32 \<times> u32) \<Rightarrow> kern \<Rightarrow> string list \<Rightarrow> string option" where
  "firstFree devno k [] = None"
| "firstFree devno k (devName # dirs) =
     (if \<not> HasPrefix devName ''nbd'' then firstFree devno k dirs
      else if validateDevPath devno k (path_Join ''/dev'' devName) \<noteq> None then firstFree devno k dirs
      else Some (path_Join ''/dev'' devName))"

definition nbdFreeDev :: "(u64 \<Rightarrow> u32 \<times> u32) \<Rightarrow> kern \<Rightarrow> goerr + string" where
  "nbdFreeDev devno k =
     (case k_sysblock k of
        Inl e \<Rightarrow> Inl (Wrap ''Could not list blocks devices in sysfs directory'' e)
      | Inr dirs \<Rightarrow>
        (case firstFree devno k dirs of
           Some devPath \<Rightarrow> Inr devPath
         | None \<Rightarrow> Inl (Msg ''None of the NDB devices found were free (empty) and valid (correct device major number)'')))"

definition useNbdDev :: "(u64 \<Rightarrow> u32 \<times> u32) \<Rightarrow> kern \<Rightarrow> string \<Rightarrow> goerr option" where
  "useNbdDev devno k devPath =
     (case nbdLoaded k of
        Some e \<Rightarrow> Some (Wrap ''NBD is not loaded'' e)
      | None \<Rightarrow> map_option (Wrap ''not a usable NBD'') (validateDevPath devno k devPath))"

definition makeNbdDev :: "(u64 \<Rightarrow> u32 \<times> u32) \<Rightarrow> kmod_pkg \<Rightarrow> u64 \<Rightarrow> kern \<Rightarrow> (goerr + string) \<times> kern" where
  "makeNbdDev devno km maxNBDDevices k =
     (case (if nbdLoaded k = None then (None, k) else loadNbd km maxNBDDevices k) of
        (Some e, k) \<Rightarrow> (Inl (Wrap ''NBD was not loaded and an attempt to load it failed'' e), k)
      | (None, k) \<Rightarrow>
        (case nbdFreeDev devno k of
           Inl e \<Rightarrow> (Inl (Wrap ''Did not find usable NBD'' e), k)
         | Inr devPath \<Rightarrow> (Inr devPath, k)))"

section \<open>The choice of a device\<close>

text \<open>\<open>NewNbdHandler\<close> takes options of any type: a number of devices, names to try, or anything else.\<close>

datatype handlerOpt = HUint u64 | HString string | HOther

definition DefMaxNBDDevices :: u64 where "DefMaxNBDDevices = 32"

text \<open>The loop over the names: the first usable one, and the error of the last one tried.\<close>

fun tryNames :: "(string \<Rightarrow> goerr option) \<Rightarrow> handlerOpt list \<Rightarrow> goerr option \<Rightarrow> string \<times> goerr option" where
  "tryNames use' [] err = ('''', err)"
| "tryNames use' (HString devName # options) err =
     (case use' devName of
        Some e \<Rightarrow> tryNames use' options (Some e)
      | None \<Rightarrow> (devName, None))"
| "tryNames use' (_ # options) err = tryNames use' options err"

text \<open>The number of devices to create and the names to try; a failed type assertion gives 0.\<close>

definition handlerOptions :: "handlerOpt list \<Rightarrow> u64 \<times> handlerOpt list" where
  "handlerOptions options =
     (case options of
        [HUint n] \<Rightarrow> (n, [])
      | [_] \<Rightarrow> (0, options)
      | _ \<Rightarrow> (DefMaxNBDDevices, options))"

definition nbdDeviceName :: "(u64 \<Rightarrow> u32 \<times> u32) \<Rightarrow> kmod_pkg \<Rightarrow> handlerOpt list \<Rightarrow> kern \<Rightarrow> (goerr + string) \<times> kern" where
  "nbdDeviceName devno km options k =
     (case handlerOptions options of (maxNBDDevices, options) \<Rightarrow>
         if options \<noteq> [] then
           (case tryNames (useNbdDev devno k) options None of
              (devName, err) \<Rightarrow>
                (if devName = ''''
                 then (Inl (Wrap ''Could not use any of provided device names'' (case err of None \<Rightarrow> Msg '''' | Some e \<Rightarrow> e)), k)
                 else (Inr devName, k)))
         else
           (case makeNbdDev devno km maxNBDDevices k of
              (Inl e, k) \<Rightarrow> (Inl (Wrap ''Could not create NDB'' e), k)
            | (Inr devName, k) \<Rightarrow> (Inr devName, k)))"

section \<open>Facts\<close>

text \<open>What the code has checked of a device it uses.\<close>

definition usable_dev :: "(u64 \<Rightarrow> u32 \<times> u32) \<Rightarrow> kern \<Rightarrow> string \<Rightarrow> bool" where
  "usable_dev devno k p \<longleftrightarrow>
     (\<exists>st mode rdev maj. k_stat k p = Inr st \<and> \<not> st_isDir st \<and> \<not> st_isRegular st \<and> st_size st \<le> 0 \<and>
        nbdMajor k = Inr maj \<and> k_rawstat k p = Inr (mode, rdev) \<and> int (unat (fst (devno rdev))) = maj)"

lemma validateDevPath_usable: "validateDevPath devno k p = None \<Longrightarrow> usable_dev devno k p"
  by (fastforce simp: validateDevPath_def usable_dev_def ndbMajorMinorForDevice_def split: sum.splits if_splits)

lemma firstFree_usable: "firstFree devno k dirs = Some p \<Longrightarrow> usable_dev devno k p \<and> (\<exists>d \<in> set dirs. p = path_Join ''/dev'' d)"
  by (induction dirs) (auto dest: validateDevPath_usable split: if_splits)

lemma tryNames_used: "tryNames use' options err = (d, err') \<Longrightarrow> d \<noteq> '''' \<Longrightarrow> use' d = None \<and> HString d \<in> set options"
  by (induction use' options err rule: tryNames.induct) (auto split: option.splits)

text \<open>Whatever the options, a device that is used was checked when the module was loaded.\<close>

lemma nbdDeviceName_usable:
  assumes "nbdDeviceName devno km options k = (Inr d, k')"
  shows "nbdLoaded k' = None \<and> usable_dev devno k' d"
proof -
  have free: "usable_dev devno k'' p" if "nbdFreeDev devno k'' = Inr p" for k'' p
    using that firstFree_usable by (auto simp: nbdFreeDev_def split: sum.splits option.splits)
  have made: "nbdLoaded k2 = None \<and> usable_dev devno k2 p" if "makeNbdDev devno km n k = (Inr p, k2)" for n p k2
    using that free
    by (auto simp: makeNbdDev_def loadNbd_def split: if_splits option.splits prod.splits sum.splits)
  have used: "nbdLoaded k = None \<and> usable_dev devno k p" if "useNbdDev devno k p = None" for p
    using that validateDevPath_usable by (auto simp: useNbdDev_def split: option.splits)
  obtain m opts where mo: "handlerOptions options = (m, opts)" by (cases "handlerOptions options")
  show ?thesis
  proof (cases "opts = []")
    case True
    then have "makeNbdDev devno km m k = (Inr d, k')"
      using assms mo by (auto simp: nbdDeviceName_def split: prod.splits sum.splits)
    then show ?thesis by (rule made)
  next
    case False
    then have "fst (tryNames (useNbdDev devno k) opts None) = d" "d \<noteq> ''''" "k' = k"
      using assms mo by (auto simp: nbdDeviceName_def split: prod.splits if_splits)
    then show ?thesis using tryNames_used [of "useNbdDev devno k" opts None d] used by (metis prod.collapse)
  qed
qed

end
