(* ===== verification/Nbd_Strm.thy ===== *)
theory Nbd_Strm
  imports Nbd_Kern Ramdisk
begin

text \<open>
  Connecting a device to the kernel, \<^verbatim>\<open>src/pkg/usbdlib/nbdstrm.go\<close>: the system calls that announce the
  device, and the life of the stream with its two workers, one in the kernel's service call and one
  that scans the partition table, waits for the cancellation and cleans up.
\<close>

section \<open>System calls\<close>

text \<open>The requests of the kernel's driver that the code makes. Their numbers, the flag for trims and whether the
  driver knows trims come from the kernel's headers.\<close>

datatype nbdIoctl = nbdSetBlockSize | nbdSetSizeBlocks | ndbClearSock | nbdSetSock | nbdSetFlags | nbdDoIt | nbdClearQueue | ndbDisconnect

record nbd_header =
  ndbTrimSupported :: bool
  nbdFlagSendTrim :: u64

text \<open>What the setup does to the outside: requests to the driver, and closing the device file.\<close>

datatype sysev = EvIoctl nbdIoctl u64 | EvCloseDev

text \<open>The requests of the setup, one after the other: the first that fails closes the device file and ends the setup.\<close>

fun ioctls :: "(nbdIoctl \<Rightarrow> u64 \<Rightarrow> goerr option) \<Rightarrow> (string \<times> nbdIoctl \<times> u64) list \<Rightarrow> goerr option \<times> sysev list" where
  "ioctls sysCall [] = (None, [])"
| "ioctls sysCall ((msg, req, arg) # calls) =
     (case sysCall req arg of
        Some e \<Rightarrow> (Some (Wrap msg e), [EvIoctl req arg, EvCloseDev])
      | None \<Rightarrow> (case ioctls sysCall calls of (err, evs) \<Rightarrow> (err, EvIoctl req arg # evs)))"

text \<open>\<open>setupSycalls\<close>: the user's and the kernel's socket, or an error. \<open>socks\<close> is what making the sockets answers,
  \<open>open'\<close> what opening the device file answers. A block size of 0 panics after it was announced.\<close>

definition setupSycalls :: "nbd_header \<Rightarrow> goerr + u64 \<times> u64 \<Rightarrow> goerr option \<Rightarrow> (nbdIoctl \<Rightarrow> u64 \<Rightarrow> goerr option) \<Rightarrow>
    'd dev_ops \<Rightarrow> 'd \<Rightarrow> (goerr + u64 \<times> u64) go \<times> sysev list" where
  "setupSycalls hdr socks open' sysCall ops dev =
     (case socks of
        Inl e \<Rightarrow> (Ret (Inl (Wrap ''Could not create socket pair'' e)), [])
      | Inr (userSockFd, kernelSockFd) \<Rightarrow>
        (case open' of
           Some e \<Rightarrow> (Ret (Inl (Wrap ''Could not open NBD device file'' e)), [])
         | None \<Rightarrow>
           (case ioctls sysCall [(''Could not inform NBD of device block size'', nbdSetBlockSize, word_of_int (dev_BlockSize ops dev))] of
              (Some e, evs) \<Rightarrow> (Ret (Inl e), evs)
            | (None, evs) \<Rightarrow>
              (if dev_BlockSize ops dev = 0 then (Panic, evs)
               else
                 (case ioctls sysCall
                     ([(''Could not inform NBD of the number of blocks on device'', nbdSetSizeBlocks,
                          word_of_int (dev_Size ops dev sdiv dev_BlockSize ops dev)),
                       (''Could not clear NBD socket'', ndbClearSock, 0),
                       (''Could not inform NBD of which socket to use'', nbdSetSock, kernelSockFd)] @
                      (if ndbTrimSupported hdr
                       then [(''Could not inform NBD to send TRIM commands'', nbdSetFlags, nbdFlagSendTrim hdr)] else [])) of
                    (Some e, evs') \<Rightarrow> (Ret (Inl e), evs @ evs')
                  | (None, evs') \<Rightarrow> (Ret (Inr (userSockFd, kernelSockFd)), evs @ evs'))))))"

text \<open>\<open>NewNbdHandler\<close> up to the start of the stream's workers: it chooses a device and announces ours there.
  \<open>open'\<close> and \<open>sysCall\<close> may depend on the chosen device; \<open>conn\<close> is what making a connection of the user's socket answers.\<close>

definition NewNbdHandler :: "(u64 \<Rightarrow> u32 \<times> u32) \<Rightarrow> kmod_pkg \<Rightarrow> nbd_header \<Rightarrow> goerr + u64 \<times> u64 \<Rightarrow> (string \<Rightarrow> goerr option) \<Rightarrow>
    goerr option \<Rightarrow> (string \<Rightarrow> nbdIoctl \<Rightarrow> u64 \<Rightarrow> goerr option) \<Rightarrow> 'd dev_ops \<Rightarrow> 'd \<Rightarrow> handlerOpt list \<Rightarrow> kern \<Rightarrow>
    (goerr + string \<times> u64 \<times> u64) go \<times> sysev list \<times> kern" where
  "NewNbdHandler devno km hdr socks open' conn sysCall ops dev options k =
     (case nbdDeviceName devno km options k of
        (Inl e, k) \<Rightarrow> (Ret (Inl e), [], k)
      | (Inr blockDeviceName, k) \<Rightarrow>
        (case setupSycalls hdr socks (open' blockDeviceName) (sysCall blockDeviceName) ops dev of
           (Panic, evs) \<Rightarrow> (Panic, evs, k)
         | (Ret (Inl e), evs) \<Rightarrow> (Ret (Inl e), evs, k)
         | (Ret (Inr fds), evs) \<Rightarrow>
           (if conn \<noteq> None then (Ret (Inl (Msg ''Could not create command socket'')), evs, k)
            else (Ret (Inr (blockDeviceName, fds)), evs, k))))"

section \<open>The life of a stream\<close>

text \<open>Where the second worker is: it opens the device again, waits for the cancellation, makes the three
  requests that disconnect (clear queue, disconnect, clear socket), waits for the first worker, and then
  cleans up in five steps: device file, device, kernel socket, user socket, error channel.\<close>

datatype scanner = SOpen | SWait | SClear nat | SJoin | SCleanup nat | SDone

text \<open>The caller: waits in the constructor, has the stream, was told of an error, or has closed the stream.\<close>

datatype creator = MWait | MStream | MAborted goerr | MClosed "goerr option"

record strm_state =
  n_doIt :: bool
  n_scan :: scanner
  n_running :: bool
  n_cancel :: bool
  n_err :: "goerr option"
  n_errClosed :: bool
  n_main :: creator
  n_panicked :: bool
  n_disconnected :: bool
  n_devCloses :: nat
  n_failed :: bool

definition strm_init :: strm_state where
  "strm_init = \<lparr>n_doIt = True, n_scan = SOpen, n_running = False, n_cancel = False, n_err = None, n_errClosed = False,
     n_main = MWait, n_panicked = False, n_disconnected = False, n_devCloses = 0, n_failed = False\<rparr>"

text \<open>\<open>sendErr\<close>, called if there is an error: the channel holds one error and further ones are dropped; a
  closed channel panics.\<close>

definition sendErr :: "goerr option \<Rightarrow> strm_state \<Rightarrow> strm_state" where
  "sendErr err s =
     (case err of
        None \<Rightarrow> s
      | Some e \<Rightarrow>
        (if n_errClosed s then s\<lparr>n_panicked := True\<rparr>
         else if n_err s = None then s\<lparr>n_err := Some e\<rparr> else s))"

text \<open>The steps of the workers and the caller. The kernel's service ends once it was asked to disconnect, and by
  itself if \<open>ends\<close>. Every request and every close may fail. \<open>n_devCloses\<close> counts the calls of the device's
  \<open>Close\<close>; \<open>n_failed\<close> records that opening the device again or disconnecting failed.\<close>

inductive nstep :: "bool \<Rightarrow> strm_state \<Rightarrow> strm_state \<Rightarrow> bool" for ends :: bool where
  ctx_cancel: "nstep ends s (s\<lparr>n_cancel := True\<rparr>)"
| doit_return: "n_doIt s \<Longrightarrow> n_disconnected s \<or> ends \<Longrightarrow>
    nstep ends s ((sendErr err s)\<lparr>n_doIt := False, n_cancel := True\<rparr>)"
| scan_fail: "n_scan s = SOpen \<Longrightarrow>
    nstep ends s ((sendErr (Some e) s)\<lparr>n_scan := SJoin, n_running := True, n_failed := True\<rparr>)"
| scan_ok: "n_scan s = SOpen \<Longrightarrow> nstep ends s (s\<lparr>n_scan := SWait, n_running := True\<rparr>)"
| ctx_done: "n_scan s = SWait \<Longrightarrow> n_cancel s \<Longrightarrow> nstep ends s (s\<lparr>n_scan := SClear 0\<rparr>)"
| clear: "n_scan s = SClear i \<Longrightarrow>
    nstep ends s ((sendErr err s)\<lparr>n_scan := (if i < 2 then SClear (Suc i) else SJoin),
      n_disconnected := (n_disconnected s \<or> i = 1 \<and> err = None), n_failed := (n_failed s \<or> i = 1 \<and> err \<noteq> None)\<rparr>)"
| join: "n_scan s = SJoin \<Longrightarrow> \<not> n_doIt s \<Longrightarrow> nstep ends s (s\<lparr>n_scan := SCleanup 0\<rparr>)"
| cleanup: "n_scan s = SCleanup i \<Longrightarrow> i < 4 \<Longrightarrow>
    nstep ends s ((sendErr err s)\<lparr>n_scan := SCleanup (Suc i), n_devCloses := n_devCloses s + (if i = 1 then 1 else 0)\<rparr>)"
| close_errCh: "n_scan s = SCleanup 4 \<Longrightarrow> nstep ends s (s\<lparr>n_scan := SDone, n_errClosed := True\<rparr>)"
| created: "n_main s = MWait \<Longrightarrow> n_running s \<Longrightarrow> n_err s = None \<Longrightarrow> nstep ends s (s\<lparr>n_main := MStream\<rparr>)"
| aborted: "n_main s = MWait \<Longrightarrow> n_running s \<Longrightarrow> n_err s = Some e \<Longrightarrow>
    nstep ends s (s\<lparr>n_err := None, n_main := MAborted e, n_cancel := True\<rparr>)"
| strm_Close: "n_main s = MStream \<Longrightarrow> n_err s = Some e \<Longrightarrow>
    nstep ends s (s\<lparr>n_cancel := True, n_err := None, n_main := MClosed (Some e)\<rparr>)"
| strm_Close_done: "n_main s = MStream \<Longrightarrow> n_err s = None \<Longrightarrow> n_errClosed s \<Longrightarrow>
    nstep ends s (s\<lparr>n_cancel := True, n_main := MClosed None\<rparr>)"

abbreviation nsteps :: "bool \<Rightarrow> strm_state \<Rightarrow> strm_state \<Rightarrow> bool" where
  "nsteps ends \<equiv> (nstep ends)\<^sup>*\<^sup>*"

section \<open>The setup\<close>

lemma ioctls_ok: "ioctls sysCall calls = (None, evs) \<Longrightarrow> evs = map (\<lambda>(_, req, arg). EvIoctl req arg) calls"
  by (induction sysCall calls arbitrary: evs rule: ioctls.induct) (auto split: option.splits prod.splits)

lemma ioctls_err: "ioctls sysCall calls = (Some e, evs) \<Longrightarrow> \<exists>evs'. evs = evs' @ [EvCloseDev] \<and> EvCloseDev \<notin> set evs'"
proof (induction sysCall calls arbitrary: evs rule: ioctls.induct)
  case (2 sysCall msg req arg calls)
  show ?case
  proof (cases "sysCall req arg")
    case None
    then obtain evs2 where evs2: "ioctls sysCall calls = (Some e, evs2)" "evs = EvIoctl req arg # evs2"
      using 2(2) by (auto split: prod.splits)
    then obtain evs' where "evs2 = evs' @ [EvCloseDev]" "EvCloseDev \<notin> set evs'" using 2(1) None by blast
    then show ?thesis using evs2 by (intro exI [of _ "EvIoctl req arg # evs'"]) simp
  next
    case (Some e')
    then show ?thesis using 2(2) by (intro exI [of _ "[EvIoctl req arg]"]) simp
  qed
qed simp

text \<open>The requests of a setup that succeeds.\<close>

definition announcement :: "nbd_header \<Rightarrow> i64 \<Rightarrow> i64 \<Rightarrow> u64 \<Rightarrow> sysev list" where
  "announcement hdr bs size' kernelSockFd =
     [EvIoctl nbdSetBlockSize (word_of_int bs), EvIoctl nbdSetSizeBlocks (word_of_int (size' sdiv bs)), EvIoctl ndbClearSock 0,
      EvIoctl nbdSetSock kernelSockFd] @ (if ndbTrimSupported hdr then [EvIoctl nbdSetFlags (nbdFlagSendTrim hdr)] else [])"

text \<open>No setup that ends with an error leaves the device file open.\<close>

definition dev_released :: "sysev list \<Rightarrow> bool" where
  "dev_released evs \<longleftrightarrow> evs = [] \<or> (\<exists>evs'. evs = evs' @ [EvCloseDev] \<and> EvCloseDev \<notin> set evs')"

lemma setupSycalls_ok:
  assumes "setupSycalls hdr socks open' sysCall ops dev = (Ret (Inr (u, k)), evs)"
  shows "socks = Inr (u, k) \<and> evs = announcement hdr (dev_BlockSize ops dev) (dev_Size ops dev) k"
  using assms
  by (auto simp: setupSycalls_def announcement_def simp del: ioctls.simps dest!: ioctls_ok
      split: sum.splits option.splits prod.splits if_splits)

lemma setupSycalls_err:
  assumes "setupSycalls hdr socks open' sysCall ops dev = (Ret (Inl e), evs)"
  shows "dev_released evs"
proof -
  have step: "dev_released (evs1 @ evs2)"
    if ok: "ioctls sysCall calls1 = (None, evs1)" and err: "ioctls sysCall calls2 = (Some e2, evs2)" for calls1 calls2 evs1 evs2 e2
  proof -
    obtain evs' where "evs2 = evs' @ [EvCloseDev]" "EvCloseDev \<notin> set evs'" using ioctls_err [OF err] by blast
    then show ?thesis using ioctls_ok [OF ok] by (auto simp: dev_released_def intro!: exI [of _ "evs1 @ evs'"])
  qed
  show ?thesis
    using assms step [OF ioctls.simps(1)] step
    by (auto simp: setupSycalls_def dev_released_def [of "[]"] simp del: ioctls.simps split: sum.splits option.splits prod.splits if_splits)
qed

lemma setupSycalls_panic:
  "fst (setupSycalls hdr socks open' sysCall ops dev) = Panic \<Longrightarrow> dev_BlockSize ops dev = 0"
  by (auto simp: setupSycalls_def split: sum.splits option.splits prod.splits if_splits)

lemma announcement_geometry:
  assumes "0 \<le> size'" "in64 size'" "0 < bs" "in64 bs"
  shows "\<exists>b n. announcement hdr bs size' fd = [EvIoctl nbdSetBlockSize b, EvIoctl nbdSetSizeBlocks n, EvIoctl ndbClearSock 0,
        EvIoctl nbdSetSock fd] @ (if ndbTrimSupported hdr then [EvIoctl nbdSetFlags (nbdFlagSendTrim hdr)] else []) \<and>
      uint b = bs \<and> uint n * uint b \<le> size' \<and> size' < (uint n + 1) * uint b"
proof -
  have le: "size' div bs \<le> size'" using zdiv_mono2 [of size' 1 bs] assms by simp
  then have n: "uint (word_of_int (size' sdiv bs) :: u64) = size' div bs"
    using assms by (simp add: uint_word_of_int in64_def pos_imp_zdiv_nonneg_iff)
  have b: "uint (word_of_int bs :: u64) = bs" using assms by (simp add: uint_word_of_int in64_def)
  have "0 \<le> size' mod bs" "size' mod bs < bs" using assms by simp_all
  then have "size' div bs * bs \<le> size'" "size' < (size' div bs + 1) * bs"
    using div_mult_mod_eq [of size' bs] by (simp_all only: distrib_right mult_1_left)
  then show ?thesis unfolding announcement_def
    by (intro exI [of _ "word_of_int bs"] exI [of _ "word_of_int (size' sdiv bs)"]) (simp only: n b simp_thms)
qed

lemma NewNbdHandler_result:
  assumes run: "NewNbdHandler devno km hdr socks open' conn sysCall ops dev options k = (r, evs, k')"
  shows "case r of
      Panic \<Rightarrow> dev_BlockSize ops dev = 0
    | Ret (Inl e) \<Rightarrow> dev_released evs \<or> conn \<noteq> None
    | Ret (Inr (name, userSockFd, kernelSockFd)) \<Rightarrow>
        nbdLoaded k' = None \<and> usable_dev devno k' name \<and> socks = Inr (userSockFd, kernelSockFd) \<and>
        evs = announcement hdr (dev_BlockSize ops dev) (dev_Size ops dev) kernelSockFd"
proof -
  obtain c k2 where name: "nbdDeviceName devno km options k = (c, k2)" by (cases "nbdDeviceName devno km options k")
  show ?thesis
  proof (cases c)
    case (Inl e)
    then show ?thesis using run name by (auto simp: NewNbdHandler_def dev_released_def)
  next
    case (Inr d)
    obtain st evs2 where sc: "setupSycalls hdr socks (open' d) (sysCall d) ops dev = (st, evs2)"
      by (cases "setupSycalls hdr socks (open' d) (sysCall d) ops dev")
    show ?thesis
    proof (cases st)
      case Panic
      then have "r = Panic" using run name Inr sc by (simp add: NewNbdHandler_def)
      then show ?thesis using setupSycalls_panic [of hdr socks "open' d" "sysCall d" ops dev] sc Panic by simp
    next
      case (Ret x)
      show ?thesis
      proof (cases x)
        case (Inl e)
        then have "r = Ret (Inl e) \<and> evs = evs2" using run name Inr sc Ret by (simp add: NewNbdHandler_def)
        then show ?thesis using Inl sc Ret setupSycalls_err [of hdr socks "open' d" "sysCall d" ops dev e evs2] by simp
      next
        case fds: (Inr fds)
        obtain u f where uf: "fds = (u, f)" by (cases fds)
        show ?thesis
        proof (cases conn)
          case None
          then have eqs: "r = Ret (Inr (d, u, f))" "evs = evs2" "k' = k2" using run name Inr sc Ret fds uf by (simp_all add: NewNbdHandler_def)
          have "socks = Inr (u, f)" "evs2 = announcement hdr (dev_BlockSize ops dev) (dev_Size ops dev) f"
            using setupSycalls_ok [of hdr socks "open' d" "sysCall d" ops dev u f evs2] sc Ret fds uf by simp_all
          moreover have "nbdLoaded k2 = None" "usable_dev devno k2 d" using nbdDeviceName_usable [of devno km options k d k2] name Inr by simp_all
          ultimately show ?thesis using eqs by simp
        next
          case (Some e)
          then show ?thesis using run name Inr sc Ret fds by (auto simp: NewNbdHandler_def)
        qed
      qed
    qed
  qed
qed

section \<open>Invariant\<close>

text \<open>What holds of every stream: the channel is closed last, the cleanup starts after the service ended, the
  device is closed in the cleanup and only there, and a failure is in the channel or known to the caller.\<close>

fun closes_at :: "scanner \<Rightarrow> nat" where
  "closes_at (SCleanup i) = (if 2 \<le> i then 1 else 0)"
| "closes_at SDone = 1"
| "closes_at _ = 0"

fun told :: "creator \<Rightarrow> bool" where
  "told (MAborted _) = True"
| "told (MClosed err) = (err \<noteq> None)"
| "told _ = False"

fun scan_ok_at :: "bool \<Rightarrow> bool \<Rightarrow> scanner \<Rightarrow> bool" where
  "scan_ok_at d asked (SClear i) = (i \<le> 2 \<and> (i = 2 \<longrightarrow> asked))"
| "scan_ok_at d asked SJoin = asked"
| "scan_ok_at d asked (SCleanup i) = (i \<le> 4 \<and> \<not> d)"
| "scan_ok_at d asked SDone = (\<not> d)"
| "scan_ok_at d asked _ = True"

definition strm_wf :: "strm_state \<Rightarrow> bool" where
  "strm_wf s \<longleftrightarrow> (n_errClosed s \<longleftrightarrow> n_scan s = SDone) \<and> n_devCloses s = closes_at (n_scan s) \<and>
     (n_running s \<longleftrightarrow> n_scan s \<noteq> SOpen) \<and> scan_ok_at (n_doIt s) (n_disconnected s \<or> n_failed s) (n_scan s) \<and>
     (n_failed s \<longrightarrow> n_err s \<noteq> None \<or> told (n_main s)) \<and> (n_main s = MClosed None \<longrightarrow> n_scan s = SDone) \<and> \<not> n_panicked s"

lemma strm_init_wf: "strm_wf strm_init"
  by (simp add: strm_wf_def strm_init_def)

lemma scan_ok_at_ended: "scan_ok_at d asked sc \<Longrightarrow> scan_ok_at False asked sc"
  by (cases sc) auto

lemma nstep_wf: "nstep ends s s' \<Longrightarrow> strm_wf s \<Longrightarrow> strm_wf s'"
  by (induction rule: nstep.cases) (auto dest: scan_ok_at_ended simp: strm_wf_def sendErr_def split: option.splits if_splits)

lemma nsteps_wf: "nsteps ends strm_init s \<Longrightarrow> strm_wf s"
  by (induction rule: rtranclp_induct) (auto simp: strm_init_wf intro: nstep_wf)

section \<open>Every run ends\<close>

fun scan_rank :: "scanner \<Rightarrow> nat" where
  "scan_rank SOpen = 11"
| "scan_rank SWait = 10"
| "scan_rank (SClear i) = 7 + (2 - i)"
| "scan_rank SJoin = 6"
| "scan_rank (SCleanup i) = 5 - i"
| "scan_rank SDone = 0"

fun main_rank :: "creator \<Rightarrow> nat" where
  "main_rank MWait = 2"
| "main_rank MStream = 1"
| "main_rank _ = 0"

definition strm_rank :: "strm_state \<Rightarrow> nat" where
  "strm_rank s = scan_rank (n_scan s) + main_rank (n_main s) + of_bool (n_doIt s) + of_bool (\<not> n_cancel s)"

lemma sendErr_same [simp]:
  "n_scan (sendErr err s) = n_scan s" "n_main (sendErr err s) = n_main s" "n_doIt (sendErr err s) = n_doIt s"
  "n_cancel (sendErr err s) = n_cancel s" "n_devCloses (sendErr err s) = n_devCloses s"
  by (auto simp: sendErr_def split: option.splits)

lemma nstep_rank: "nstep ends s s' \<Longrightarrow> s' \<noteq> s \<Longrightarrow> strm_rank s' < strm_rank s"
  by (induction rule: nstep.cases) (auto simp: strm_rank_def)

lemma nstep_terminates: "wfp (\<lambda>s' s. nstep ends s s' \<and> s' \<noteq> s)"
  by (rule wfp_if_convertible_to_nat [of _ strm_rank]) (blast intro: nstep_rank)

text \<open>A state that no step changes.\<close>

definition strm_final :: "bool \<Rightarrow> strm_state \<Rightarrow> bool" where
  "strm_final ends s \<longleftrightarrow> (\<forall>s'. nstep ends s s' \<longrightarrow> s' = s)"

lemma strm_final_stuck:
  assumes wf: "strm_wf s" and final: "strm_final ends s"
  shows "n_cancel s" "n_main s \<notin> {MWait, MStream}"
    "n_scan s = SDone \<or> n_scan s = SJoin \<and> n_doIt s \<and> \<not> n_disconnected s \<and> \<not> ends"
proof -
  have same: "n_scan s' = n_scan s" "n_main s' = n_main s" "n_doIt s' = n_doIt s" "n_cancel s' = n_cancel s"
    if "nstep ends s s'" for s' using final that by (auto simp: strm_final_def)
  show cancel: "n_cancel s" using same(4) [OF ctx_cancel] by simp
  have doIt: "n_doIt s \<longrightarrow> \<not> n_disconnected s \<and> \<not> ends" using same(3) [OF doit_return, of None] by auto
  show scan: "n_scan s = SDone \<or> n_scan s = SJoin \<and> n_doIt s \<and> \<not> n_disconnected s \<and> \<not> ends"
  proof (cases "n_scan s")
    case SOpen
    then show ?thesis using same(1) [OF scan_ok] by simp
  next
    case SWait
    then show ?thesis using same(1) [OF ctx_done] cancel by simp
  next
    case (SClear i)
    then show ?thesis using same(1) [OF clear [where err = None]] by (simp split: if_splits)
  next
    case SJoin
    then show ?thesis using same(1) [OF join] doIt by auto
  next
    case (SCleanup i)
    then have "i < 4 \<or> i = 4" using wf by (auto simp: strm_wf_def)
    then show ?thesis using SCleanup same(1) [OF cleanup [where err = None]] same(1) [OF close_errCh] by auto
  qed simp
  then have run: "n_running s" "n_scan s = SDone \<longrightarrow> n_errClosed s" using wf by (auto simp: strm_wf_def)
  have err: "n_scan s = SJoin \<and> \<not> n_disconnected s \<and> \<not> told (n_main s) \<longrightarrow> n_err s \<noteq> None" using wf by (auto simp: strm_wf_def)
  have "n_main s \<noteq> MWait" using same(2) [OF created] same(2) [OF aborted] run(1) by (cases "n_err s") auto
  moreover have "n_main s \<noteq> MStream"
    using same(2) [OF strm_Close] same(2) [OF strm_Close_done] scan run(2) err by (cases "n_err s") auto
  ultimately show "n_main s \<notin> {MWait, MStream}" by simp
qed

section \<open>Properties\<close>


text \<open>Two runs to the end: the device cannot be opened again, and a stream that is used and closed.\<close>

fun disc_at :: "scanner \<Rightarrow> bool" where
  "disc_at (SClear i) = (i = 2)"
| "disc_at SOpen = False"
| "disc_at SWait = False"
| "disc_at _ = True"

definition strm_at :: "scanner \<Rightarrow> bool \<Rightarrow> bool \<Rightarrow> creator \<Rightarrow> strm_state" where
  "strm_at sc doIt cancel main = strm_init\<lparr>n_scan := sc, n_running := sc \<noteq> SOpen, n_doIt := doIt, n_cancel := cancel, n_main := main,
     n_errClosed := sc = SDone, n_disconnected := disc_at sc, n_devCloses := closes_at sc\<rparr>"

lemma strm_finalI:
  assumes "n_cancel s" "n_main s \<notin> {MWait, MStream}" "n_scan s = SDone \<and> \<not> n_doIt s \<or> n_scan s = SJoin \<and> n_doIt s \<and> \<not> n_disconnected s"
  shows "strm_final False s"
  unfolding strm_final_def
proof (intro allI impI)
  fix s' assume "nstep False s s'"
  then show "s' = s" using assms by cases auto
qed

lemma strm_failed_run:
  "\<exists>s. nsteps False strm_init s \<and> strm_final False s \<and> n_doIt s"
proof -
  let ?s = "strm_init\<lparr>n_scan := SJoin, n_running := True, n_failed := True, n_main := MAborted EOF, n_cancel := True\<rparr>"
  have "nstep False strm_init (strm_init\<lparr>n_err := Some EOF, n_scan := SJoin, n_running := True, n_failed := True\<rparr>)" (is "nstep _ _ ?t")
    using scan_fail [of strm_init False EOF] by (simp add: sendErr_def strm_init_def)
  moreover have "nstep False ?t ?s" using aborted [of ?t EOF False] by (simp add: strm_init_def)
  moreover have "strm_final False ?s" by (rule strm_finalI) (simp_all add: strm_init_def)
  moreover have "n_doIt ?s" by (simp add: strm_init_def)
  ultimately show ?thesis by (intro exI [of _ ?s] conjI) (rule converse_rtranclp_into_rtranclp [OF _ r_into_rtranclp])
qed

lemma strm_clean_run: "nsteps False strm_init (strm_at SDone False True (MClosed None))"
proof -
  note at = strm_at_def strm_init_def sendErr_def eval_nat_numeral
  have s0: "nstep False (strm_at SOpen True False MWait) (strm_at SWait True False MWait)"
    using scan_ok [where s = "strm_at SOpen True False MWait" and ends = False] by (simp add: at)
  have s1: "nstep False (strm_at SWait True False MWait) (strm_at SWait True False MStream)"
    using created [where s = "strm_at SWait True False MWait" and ends = False] by (simp add: at)
  have s2: "nstep False (strm_at SWait True False MStream) (strm_at SWait True True MStream)"
    using ctx_cancel [where s = "strm_at SWait True False MStream" and ends = False] by (simp add: at)
  have s3: "nstep False (strm_at SWait True True MStream) (strm_at (SClear 0) True True MStream)"
    using ctx_done [where s = "strm_at SWait True True MStream" and ends = False] by (simp add: at)
  have s4: "nstep False (strm_at (SClear 0) True True MStream) (strm_at (SClear 1) True True MStream)"
    using clear [where s = "strm_at (SClear 0) True True MStream" and ends = False and err = None] by (simp add: at)
  have s5: "nstep False (strm_at (SClear 1) True True MStream) (strm_at (SClear 2) True True MStream)"
    using clear [where s = "strm_at (SClear 1) True True MStream" and ends = False and err = None] by (simp add: at)
  have s6: "nstep False (strm_at (SClear 2) True True MStream) (strm_at SJoin True True MStream)"
    using clear [where s = "strm_at (SClear 2) True True MStream" and ends = False and err = None] by (simp add: at)
  have s7: "nstep False (strm_at SJoin True True MStream) (strm_at SJoin False True MStream)"
    using doit_return [where s = "strm_at SJoin True True MStream" and ends = False and err = None] by (simp add: at)
  have s8: "nstep False (strm_at SJoin False True MStream) (strm_at (SCleanup 0) False True MStream)"
    using join [where s = "strm_at SJoin False True MStream" and ends = False] by (simp add: at)
  have s9: "nstep False (strm_at (SCleanup 0) False True MStream) (strm_at (SCleanup 1) False True MStream)"
    using cleanup [where s = "strm_at (SCleanup 0) False True MStream" and ends = False and err = None] by (simp add: at)
  have s10: "nstep False (strm_at (SCleanup 1) False True MStream) (strm_at (SCleanup 2) False True MStream)"
    using cleanup [where s = "strm_at (SCleanup 1) False True MStream" and ends = False and err = None] by (simp add: at)
  have s11: "nstep False (strm_at (SCleanup 2) False True MStream) (strm_at (SCleanup 3) False True MStream)"
    using cleanup [where s = "strm_at (SCleanup 2) False True MStream" and ends = False and err = None] by (simp add: at)
  have s12: "nstep False (strm_at (SCleanup 3) False True MStream) (strm_at (SCleanup 4) False True MStream)"
    using cleanup [where s = "strm_at (SCleanup 3) False True MStream" and ends = False and err = None] by (simp add: at)
  have s13: "nstep False (strm_at (SCleanup 4) False True MStream) (strm_at SDone False True MStream)"
    using close_errCh [where s = "strm_at (SCleanup 4) False True MStream" and ends = False] by (simp add: at)
  have s14: "nstep False (strm_at SDone False True MStream) (strm_at SDone False True (MClosed None))"
    using strm_Close_done [where s = "strm_at SDone False True MStream" and ends = False] by (simp add: at)
  have init: "strm_init = strm_at SOpen True False MWait" by (simp add: at)
  show ?thesis unfolding init
    by (rule converse_rtranclp_into_rtranclp, rule s0 s1 s2 s3 s4 s5 s6 s7 s8 s9 s10 s11 s12 s13 s14)+ (rule rtranclp.rtrancl_refl)
qed

lemma strm_clean_final: "strm_final False (strm_at SDone False True (MClosed None))"
  by (rule strm_finalI) (simp_all add: strm_at_def strm_init_def)



text \<open>A kernel with the module loaded and one free device.\<close>

definition ex_kern :: kern where
  "ex_kern = \<lparr>k_modules = Inr ([''ext4 983040 1 - Live 0x0'', ''nbd 53248 0 - Live 0x0''], None),
     k_devices = Inr ([''Block devices:'', '' 43 nbd''], None),
     k_stat = (\<lambda>_. Inr \<lparr>st_isDir = False, st_isRegular = False, st_size = 0\<rparr>),
     k_rawstat = (\<lambda>_. Inr (0x61b0, 0x2b00)), k_sysblock = Inr [''sda'', ''nbd0'']\<rparr>"

definition ex_devno :: "u64 \<Rightarrow> u32 \<times> u32" where
  "ex_devno rdev = (word_of_int (uint rdev div 256), word_of_int (uint rdev mod 256))"

definition ex_kmod :: kmod_pkg where
  "ex_kmod = \<lparr>km_New = None, km_Load = (\<lambda>_ _ k. (None, k))\<rparr>"

lemma ex_device: "nbdDeviceName ex_devno ex_kmod [HUint 32] ex_kern = (Inr ''/dev/nbd0'', ex_kern)"
proof -
  have "nbdLoaded ex_kern = None" by code_simp
  moreover have "firstFree ex_devno ex_kern [''sda'', ''nbd0''] = Some ''/dev/nbd0''" by code_simp
  moreover have "k_sysblock ex_kern = Inr [''sda'', ''nbd0'']" by (simp add: ex_kern_def)
  ultimately show ?thesis
    by (simp add: nbdDeviceName_def handlerOptions_def makeNbdDev_def nbdFreeDev_def del: firstFree.simps)
qed


end
