(* ===== verification/Lz4_Blocks.thy ===== *)
theory Lz4_Blocks
  imports File_Blocks
begin

text \<open>
  The compressing block store of \<^verbatim>\<open>src/pkg/devices/dedupdisk/impls/lz4blkstore.go\<close>, which its constructor
  refuses to make: several compressed blocks share a block of the underlying store. Its pool hands out
  buffers of one block, so a pooled buffer is any block. The C library LZ4 is an argument: what
  compressing a block writes, and what decompressing into a buffer of a given length answers and
  leaves there.
\<close>

section \<open>Definitions\<close>

record lz4BlockStore =
  lz_blockSize :: u64
  lz_maxLZ4BlockSize :: u64
  lz_fbs :: fileBlockStore
  lz_curBlockID :: u64
  lz_curBlock :: bytes
  lz_curBlockPos :: u64
  lz_curBlockCount :: u8

definition ErrNotImplemented :: goerr where
  "ErrNotImplemented = Msg ''This feature is not implemented''"

definition NewLZ4BlockStore :: "string \<Rightarrow> i64 \<Rightarrow> goerr + lz4BlockStore" where
  "NewLZ4BlockStore filename blockSize = Inl (Wrap ''LZ4BlockStore is expirmental and has bugs'' ErrNotImplemented)"

text \<open>A 16 bit number at an offset, and writing one; both panic without two bytes there.\<close>

definition le16_at :: "bytes \<Rightarrow> u64 \<Rightarrow> 16 word go" where
  "le16_at bs off = go_bind (go_slice bs (uint off) (int (length bs))) (\<lambda>xs. if length xs < 2 then Panic else Ret (get_le (take 2 xs)))"

definition put16_at :: "bytes \<Rightarrow> u64 \<Rightarrow> 16 word \<Rightarrow> bytes go" where
  "put16_at bs off v = (if uint off + 2 \<le> int (length bs) then Ret (blit bs (unat off) (put_le 2 v)) else Panic)"

text \<open>The wrapper of decompression takes the address of the first byte of both slices.\<close>

definition lz4Decompress :: "(nat \<Rightarrow> bytes \<Rightarrow> int \<times> bytes) \<Rightarrow> bytes \<Rightarrow> bytes \<Rightarrow> (int \<times> bytes) go" where
  "lz4Decompress decompress dst src = (if dst = [] \<or> src = [] then Panic else Ret (decompress (length dst) src))"

text \<open>Compression writes to the buffer without knowing its length; writing past its end counts as a panic.\<close>

definition lz4Compress :: "(bytes \<Rightarrow> bytes) \<Rightarrow> nat \<Rightarrow> bytes \<Rightarrow> bytes go" where
  "lz4Compress compress dstLen src =
     (if dstLen = 0 \<or> src = [] \<or> dstLen < length (compress src) then Panic else Ret (compress src))"

definition lz_GetBlock :: "(nat \<Rightarrow> bytes \<Rightarrow> int \<times> bytes) \<Rightarrow> lz4BlockStore \<Rightarrow> u64 \<Rightarrow> bytes \<Rightarrow> (goerr option \<times> bytes) go" where
  "lz_GetBlock decompress lzbs dedupID buf =
     (if dedupID = zeroBlockID then Ret (None, go_copy buf (fb_zeroBlock (lz_fbs lzbs)))
      else
        (let offsetIndex = drop_bit 56 dedupID; dedupID = and dedupID 0x00FFFFFFFFFFFFFF in
         if offsetIndex = 255 then fb_GetBlock (lz_fbs lzbs) dedupID buf
         else
           go_bind (fb_GetBlock (lz_fbs lzbs) dedupID (zeros (unat (lz_blockSize lzbs)))) (\<lambda>(err, compressedData).
             if err \<noteq> None then Ret (err, buf)
             else
               (let offsetPos = lz_blockSize lzbs - (push_bit 1 (offsetIndex + 1) + 1) in
                go_bind (le16_at compressedData offsetPos) (\<lambda>start.
                go_bind (le16_at compressedData (offsetPos - 2)) (\<lambda>end'.
                go_bind (go_slice compressedData (uint start) (uint end')) (\<lambda>src.
                go_bind (lz4Decompress decompress buf src) (\<lambda>(n, buf).
                  if n < 0 then Ret (Some (Msg ''Compressed block was malformed''), buf) else Ret (None, buf)))))))))"

definition writeToMem :: "lz4BlockStore \<Rightarrow> bytes \<Rightarrow> u64 \<Rightarrow> (u64 \<times> goerr option \<times> lz4BlockStore) go" where
  "writeToMem lzbs compressed hdrStartOffset =
     (let n = word_of_int (int (length compressed)); pos = lz_curBlockPos lzbs in
      go_bind (go_slice (lz_curBlock lzbs) (uint pos) (int (length (lz_curBlock lzbs)))) (\<lambda>rest.
      let curBlock = take (unat pos) (lz_curBlock lzbs) @ go_copy rest compressed in
      go_bind (put16_at curBlock hdrStartOffset (ucast pos)) (\<lambda>curBlock.
      let pos = pos + n in
      go_bind (put16_at curBlock (hdrStartOffset - 2) (ucast pos)) (\<lambda>curBlock.
      let count = lz_curBlockCount lzbs + 1 in
      if int (length curBlock) \<le> uint (lz_blockSize lzbs - 1) then Panic
      else
        (let curBlock = curBlock[unat (lz_blockSize lzbs - 1) := count];
             lzbs = lzbs\<lparr>lz_curBlock := curBlock, lz_curBlockPos := pos, lz_curBlockCount := count\<rparr>;
             (dedupID, err, lzbs) =
               (if pos > 0
                then (case fb_PutBlockAt (lz_fbs lzbs) curBlock (lz_curBlockID lzbs) of
                        (dedupID, err, fbs) \<Rightarrow> (dedupID, err, lzbs\<lparr>lz_fbs := fbs\<rparr>))
                else (case fb_PutBlock (lz_fbs lzbs) curBlock of
                        (dedupID, err, fbs) \<Rightarrow> (dedupID, err, lzbs\<lparr>lz_fbs := fbs, lz_curBlockID := dedupID\<rparr>)))
         in Ret (and (push_bit 52 (ucast (count - 1))) dedupID, err, lzbs))))))"

definition lz_PutBlock :: "(bytes \<Rightarrow> bytes) \<Rightarrow> lz4BlockStore \<Rightarrow> bytes \<Rightarrow> (u64 \<times> goerr option \<times> lz4BlockStore) go" where
  "lz_PutBlock compress lzbs buf =
     go_bind (lz4Compress compress (unat (lz_blockSize lzbs)) buf) (\<lambda>compressed.
     let n = word_of_int (int (length compressed)) :: u64;
         hdrStartOffset = lz_blockSize lzbs - (push_bit 1 (ucast (lz_curBlockCount lzbs + 1)) + 1);
         hdrEndOffset = hdrStartOffset - 2 in
     if lz_curBlockPos lzbs + n < hdrEndOffset \<and> lz_curBlockCount lzbs + 1 < 255
     then writeToMem lzbs compressed hdrStartOffset
     else
       (let lzbs = lzbs\<lparr>lz_curBlockPos := 0, lz_curBlockCount := 0, lz_curBlockID := 0\<rparr>; hdrStartOffset = lz_blockSize lzbs - 3 in
        if lz_curBlockPos lzbs + n < hdrEndOffset then writeToMem lzbs compressed hdrStartOffset
        else
          (case fb_PutBlock (lz_fbs lzbs) buf of
             (dedupID, err, fbs) \<Rightarrow> Ret (and (push_bit 56 255) dedupID, err, lzbs\<lparr>lz_fbs := fbs\<rparr>))))"

definition lz_Flush :: "lz4BlockStore \<Rightarrow> goerr option \<times> lz4BlockStore" where
  "lz_Flush lzbs = (case fb_Flush (lz_fbs lzbs) of (err, fbs) \<Rightarrow> (err, lzbs\<lparr>lz_fbs := fbs\<rparr>))"

definition lz_Close :: "lz4BlockStore \<Rightarrow> goerr option \<times> lz4BlockStore" where
  "lz_Close lzbs = (case fb_Close (lz_fbs lzbs) of (err, fbs) \<Rightarrow> (err, lzbs\<lparr>lz_fbs := fbs\<rparr>))"

section \<open>Facts\<close>

text \<open>The masks are combined with the wrong operator: whatever is put, the answer is ID 0, so all blocks
  are read from the first entry of the first block.\<close>

lemma writeToMem_id:
  assumes "writeToMem lzbs compressed hdr = Ret (dedupID, err, lzbs')"
    and "lz_curBlockPos lzbs + word_of_int (int (length compressed)) > 0"
  shows "dedupID = 0"
  using assms
  by (auto simp: writeToMem_def Let_def fb_PutBlockAt_def go_bind_Ret_iff split: prod.splits if_splits)

lemma high_byte: "unat (k :: u64) < 2 ^ 56 \<Longrightarrow> and (push_bit 56 255) k = 0"
proof -
  assume "unat k < 2 ^ 56"
  then have "take_bit 56 k = k" by (simp add: word_unat_eq_iff unsigned_take_bit_eq take_bit_nat_eq_self)
  moreover have "and (push_bit 56 m) (take_bit 56 k) = 0" for m by (rule bit_eqI) (auto simp: bit_simps)
  ultimately show ?thesis by metis
qed

lemma lz_PutBlock_id:
  assumes put: "lz_PutBlock compress lzbs buf = Ret (dedupID, err, lzbs')"
    and small: "compress buf \<noteq> []" "unat (lz_curBlockPos lzbs) + length (compress buf) < 2 ^ 64" "unat (fb_nextID (lz_fbs lzbs)) < 2 ^ 56"
  shows "dedupID = 0"
proof -
  have n: "(p :: u64) + word_of_int (int (length (compress buf))) > 0" if "unat p + length (compress buf) < 2 ^ 64" for p
  proof -
    have "unat (p + of_nat (length (compress buf))) = unat p + length (compress buf)" using that by (simp add: unat_word_ariths unat_of_nat)
    then show ?thesis using small(1) by (simp add: word_less_nat_alt)
  qed
  have id: "and (push_bit 56 255) (fst (fb_PutBlock (lz_fbs lzbs) buf)) = 0"
    using high_byte [OF small(3)] high_byte [of 0] by (auto simp: fb_PutBlock_def fb_claim_def Let_def split: prod.splits)
  show ?thesis
    using put n [OF small(2)] n [of 0] small id
    by (auto simp: lz_PutBlock_def lz4Compress_def go_bind_Ret_iff Let_def split: if_splits prod.splits dest!: writeToMem_id)
qed

end
