(* ===== verification/Background.thy ===== *)
theory Background
  imports File_Blocks Objdev_Disk
begin

text \<open>
  The workers that write back in the background: \<open>fsyncWorker\<close> of
  \<^verbatim>\<open>src/pkg/devices/dedupdisk/impls/fileblkstore.go\<close>, which syncs the file of blocks after puts, and \<open>flushWorker\<close> of
  \<^verbatim>\<open>src/pkg/devices/objstore/device.go\<close>, which flushes the object store device on a timer.
\<close>

section \<open>Syncing the block store\<close>

text \<open>Where the worker is: waiting for a signal, about to sync after its delay, or discarding signals.\<close>

datatype syncer = SyncWait | SyncDelay | SyncDrain

text \<open>The channel holds one signal. \<open>ss_synced\<close> is the file as of the last sync that succeeded; \<open>ss_missed\<close> records
  that a sync or a put failed or that a block was put while signals were discarded. A put is one step.\<close>

record sync_state =
  ss_fbs :: fileBlockStore
  ss_syncCh :: bool
  ss_worker :: syncer
  ss_synced :: bytes
  ss_missed :: bool

definition sync_init :: "fileBlockStore \<Rightarrow> sync_state" where
  "sync_init fbs = \<lparr>ss_fbs = fbs, ss_syncCh = False, ss_worker = SyncWait, ss_synced = fdata (fb_file fbs), ss_missed = False\<rparr>"

inductive fsync_step :: "sync_state \<Rightarrow> sync_state \<Rightarrow> bool" where
  sync_put: "fb_PutBlock (ss_fbs s) buf = (dedupID, None, fbs) \<Longrightarrow>
    fsync_step s (s\<lparr>ss_fbs := fbs, ss_syncCh := True, ss_missed := (ss_missed s \<or> ss_worker s = SyncDrain)\<rparr>)"
| sync_put_fail: "fb_PutBlock (ss_fbs s) buf = (dedupID, Some e, fbs) \<Longrightarrow> fsync_step s (s\<lparr>ss_fbs := fbs, ss_missed := True\<rparr>)"
| sync_wake: "ss_worker s = SyncWait \<Longrightarrow> ss_syncCh s \<Longrightarrow> fsync_step s (s\<lparr>ss_syncCh := False, ss_worker := SyncDelay\<rparr>)"
| sync_flush: "ss_worker s = SyncDelay \<Longrightarrow> fb_Flush (ss_fbs s) = (err, fbs) \<Longrightarrow>
    fsync_step s (s\<lparr>ss_fbs := fbs, ss_worker := SyncDrain, ss_synced := (if err = None then fdata (fb_file fbs) else ss_synced s),
      ss_missed := (ss_missed s \<or> err \<noteq> None)\<rparr>)"
| sync_drain: "ss_worker s = SyncDrain \<Longrightarrow> ss_syncCh s \<Longrightarrow> fsync_step s (s\<lparr>ss_syncCh := False\<rparr>)"
| sync_drained: "ss_worker s = SyncDrain \<Longrightarrow> \<not> ss_syncCh s \<Longrightarrow> fsync_step s (s\<lparr>ss_worker := SyncWait\<rparr>)"

text \<open>As long as none was missed, a put block is in the synced file or the worker is on its way.\<close>

definition sync_ok :: "sync_state \<Rightarrow> bool" where
  "sync_ok s \<longleftrightarrow> ss_missed s \<or> fdata (fb_file (ss_fbs s)) = ss_synced s \<or> ss_syncCh s \<and> ss_worker s \<noteq> SyncDrain \<or> ss_worker s = SyncDelay"

lemma fsync_step_ok: "fsync_step s s' \<Longrightarrow> sync_ok s \<Longrightarrow> sync_ok s'"
  by (induction rule: fsync_step.cases) (auto simp: sync_ok_def fb_Flush_def)

lemma sync_init_ok: "sync_ok (sync_init fbs)"
  by (simp add: sync_ok_def sync_init_def)

lemma fsync_ok: "fsync_step\<^sup>*\<^sup>* (sync_init fbs) s \<Longrightarrow> sync_ok s"
  by (induction rule: rtranclp_induct) (auto simp: sync_init_ok intro: fsync_step_ok)

text \<open>A block put between the sync and the end of discarding loses its signal: the worker waits, no signal is
  left, and the block is not in the synced file.\<close>

lemma fsync_misses_block:
  assumes first: "fb_PutBlock fbs b1 = (i1, None, fbs1)" and flush: "fb_Flush fbs1 = (None, fbs1)"
    and second: "fb_PutBlock fbs1 b2 = (i2, None, fbs2)" and new: "fdata (fb_file fbs2) \<noteq> fdata (fb_file fbs1)"
  shows "\<exists>s. fsync_step\<^sup>*\<^sup>* (sync_init fbs) s \<and> ss_fbs s = fbs2 \<and> ss_worker s = SyncWait \<and> \<not> ss_syncCh s \<and> ss_synced s \<noteq> fdata (fb_file fbs2)"
proof -
  let ?s0 = "sync_init fbs"
  let ?s1 = "?s0\<lparr>ss_fbs := fbs1, ss_syncCh := True\<rparr>"
  let ?s2 = "?s1\<lparr>ss_syncCh := False, ss_worker := SyncDelay\<rparr>"
  let ?s3 = "?s2\<lparr>ss_worker := SyncDrain, ss_synced := fdata (fb_file fbs1)\<rparr>"
  let ?s4 = "?s3\<lparr>ss_fbs := fbs2, ss_syncCh := True, ss_missed := True\<rparr>"
  let ?s5 = "?s4\<lparr>ss_syncCh := False\<rparr>"
  let ?s6 = "?s5\<lparr>ss_worker := SyncWait\<rparr>"
  have "fsync_step ?s0 ?s1" using sync_put [of ?s0 b1 i1 fbs1] first by (simp add: sync_init_def)
  moreover have "fsync_step ?s1 ?s2" using sync_wake [of ?s1] by (simp add: sync_init_def)
  moreover have "fsync_step ?s2 ?s3" using sync_flush [of ?s2 None fbs1] flush by (simp add: sync_init_def)
  moreover have "fsync_step ?s3 ?s4" using sync_put [of ?s3 b2 i2 fbs2] second by (simp add: sync_init_def)
  moreover have "fsync_step ?s4 ?s5" using sync_drain [of ?s4] by (simp add: sync_init_def)
  moreover have "fsync_step ?s5 ?s6" using sync_drained [of ?s5] by (simp add: sync_init_def)
  ultimately have "fsync_step\<^sup>*\<^sup>* ?s0 ?s6" by (meson converse_rtranclp_into_rtranclp rtranclp.rtrancl_refl)
  then show ?thesis using new by (intro exI [of _ ?s6]) simp
qed

section \<open>Flushing the object store device\<close>

text \<open>What wakes the worker: its timer, or the end of the context.\<close>

datatype flush_event = Tick | CtxDone

text \<open>The worker over the events it sees; the error of a flush is ignored.\<close>

fun flushWorker :: "i64 \<Rightarrow> 'd dev_ops \<Rightarrow> flush_event list \<Rightarrow> 'd \<Rightarrow> 'd go" where
  "flushWorker autoflush ops evs dev =
     (if autoflush = 0 then Ret dev
      else
        (case evs of
           [] \<Rightarrow> Ret dev
         | CtxDone # _ \<Rightarrow> Ret dev
         | Tick # evs \<Rightarrow> go_bind (dev_Flush ops dev) (\<lambda>(_, dev). flushWorker autoflush ops evs dev)))"

declare flushWorker.simps [simp del]

context block_device
begin

text \<open>However often it runs, the worker changes nothing that requests can see.\<close>

lemma flushWorker_keeps:
  "inv d \<Longrightarrow> \<exists>d'. flushWorker autoflush ops evs d = Ret d' \<and> inv d' \<and> content d' = content d"
proof (induction evs arbitrary: d)
  case Nil
  then show ?case by (subst flushWorker.simps) simp
next
  case (Cons ev evs)
  obtain d1 where d1: "dev_Flush ops d = Ret (None, d1)" "inv d1" "content d1 = content d" using flush_law [OF Cons.prems] by blast
  obtain d2 where "flushWorker autoflush ops evs d1 = Ret d2" "inv d2" "content d2 = content d1" using Cons.IH [OF d1(2)] by blast
  then show ?case using d1 Cons.prems by (subst flushWorker.simps) (auto split: flush_event.splits)
qed

end

lemma objdev_flushWorker_keeps:
  "od_inv X fr N d \<Longrightarrow> \<exists>d'. flushWorker autoflush objdev_ops evs d = Ret d' \<and> od_inv X fr N d' \<and> od_content X d' = od_content X d"
  by (rule odk.flushWorker_keeps)

end
