(* ===== verification/Daemon.thy ===== *)
theory Daemon
  imports Ramdisk Filedisk Dedup_Disk Objdev_Disk Objdev_New Conf Nbd_Strm Pipeline_Lin
begin

text \<open>
  The daemon, \<^verbatim>\<open>src/cmd/usbdsrvd/main.go\<close>: the device that a configuration asks for, as a value of a sum
  type with a case per backing mode, and serving it. A call of a method of the device goes to the
  device of the case, as Go's interface calls do.
\<close>

section \<open>One of several devices\<close>

definition in_read :: "('d \<Rightarrow> 'e) \<Rightarrow> (int \<times> goerr option \<times> bytes \<times> 'd) go \<Rightarrow> (int \<times> goerr option \<times> bytes \<times> 'e) go" where
  "in_read c r = go_bind r (\<lambda>(n, err, buf, d). Ret (n, err, buf, c d))"

definition in_write :: "('d \<Rightarrow> 'e) \<Rightarrow> (int \<times> goerr option \<times> 'd) go \<Rightarrow> (int \<times> goerr option \<times> 'e) go" where
  "in_write c r = go_bind r (\<lambda>(n, err, d). Ret (n, err, c d))"

definition in_call :: "('d \<Rightarrow> 'e) \<Rightarrow> (goerr option \<times> 'd) go \<Rightarrow> (goerr option \<times> 'e) go" where
  "in_call c r = go_bind r (\<lambda>(err, d). Ret (err, c d))"

definition either_ops :: "'a dev_ops \<Rightarrow> 'b dev_ops \<Rightarrow> ('a + 'b) dev_ops" where
  "either_ops l r =
     \<lparr>dev_Size = case_sum (dev_Size l) (dev_Size r),
      dev_BlockSize = case_sum (dev_BlockSize l) (dev_BlockSize r),
      dev_ReadAt = (\<lambda>dev buf pos. case dev of Inl d \<Rightarrow> in_read Inl (dev_ReadAt l d buf pos) | Inr d \<Rightarrow> in_read Inr (dev_ReadAt r d buf pos)),
      dev_WriteAt = (\<lambda>dev buf pos. case dev of Inl d \<Rightarrow> in_write Inl (dev_WriteAt l d buf pos) | Inr d \<Rightarrow> in_write Inr (dev_WriteAt r d buf pos)),
      dev_Trim = (\<lambda>dev pos n. case dev of Inl d \<Rightarrow> in_call Inl (dev_Trim l d pos n) | Inr d \<Rightarrow> in_call Inr (dev_Trim r d pos n)),
      dev_Flush = (\<lambda>dev. case dev of Inl d \<Rightarrow> in_call Inl (dev_Flush l d) | Inr d \<Rightarrow> in_call Inr (dev_Flush r d)),
      dev_Close = (\<lambda>dev. case dev of Inl d \<Rightarrow> in_call Inl (dev_Close l d) | Inr d \<Rightarrow> in_call Inr (dev_Close r d))\<rparr>"

text \<open>The contract carries over to a choice of devices.\<close>

lemma either_device:
  assumes l: "block_device lops linv lcontent ltakes" and r: "block_device rops rinv rcontent rtakes"
  shows "block_device (either_ops lops rops) (case_sum linv rinv) (case_sum lcontent rcontent) (case_sum ltakes rtakes)"
proof (rule block_device.intro, goal_cases)
  case (1 d)
  then show ?case using block_device.block_size [OF l] block_device.block_size [OF r] by (cases d) (simp_all add: either_ops_def)
next
  case (2 d)
  then show ?case using block_device.size [OF l] block_device.size [OF r] by (cases d) (simp_all add: either_ops_def)
next
  case (3 d)
  then show ?case using block_device.content_bound [OF l] block_device.content_bound [OF r] by (cases d) simp_all
next
  case (4 d pos buf)
  then show ?case using block_device.read_law [OF l, of _ pos buf] block_device.read_law [OF r, of _ pos buf]
    by (cases d) (fastforce simp: either_ops_def in_read_def)+
next
  case (5 d pos buf)
  then show ?case using block_device.write_law [OF l, of _ pos buf] block_device.write_law [OF r, of _ pos buf]
    by (cases d) (fastforce simp: either_ops_def in_write_def)+
next
  case (6 d pos n)
  then show ?case using block_device.trim_law [OF l, of _ pos n] block_device.trim_law [OF r, of _ pos n]
    by (cases d) (fastforce simp: either_ops_def in_call_def)+
next
  case (7 d)
  then show ?case using block_device.flush_law [OF l] block_device.flush_law [OF r]
    by (cases d) (fastforce simp: either_ops_def in_call_def)+
qed

section \<open>Definitions\<close>

type_synonym ('k, 'c, 'i, 's) usbdev = "ramdisk + filedisk + 'k dedupdisk + ('c \<times> nat, 'i item, 's) objdev"

text \<open>What the operating system and the packages answer: opening files and asking for their status, mapping and
  syncing memory, the key-value store, the object store, and the semaphores.\<close>

record ('k, 'c, 'i, 's) daemon_env =
  de_openFile :: "string \<Rightarrow> goerr + osfile"
  de_statErr :: "string \<Rightarrow> goerr option"
  de_mmap :: "bytes \<Rightarrow> goerr + bytes"
  de_msync :: "bytes \<Rightarrow> goerr option"
  de_pebble :: "'k kv_ops"
  de_openDB :: "string \<Rightarrow> goerr + 'k"
  de_store :: "('c, 'i) cenv"
  de_sema :: "'s sema_pkg"
  de_KindLocalTest :: string
  de_KindSFTP :: string
  de_dial :: "goerr option"
  de_openContainer :: "goerr option"
  de_createContainer :: "goerr option"
  de_world :: "('c \<times> nat, 's) world"

definition storage_file :: "config \<Rightarrow> string \<Rightarrow> string" where
  "storage_file cfg ext = path_Join (cf_StorageDirectory cfg) (cf_StorageName cfg @ ext)"

text \<open>\<open>mustGetDevice\<close>; a fatal log message ends the daemon.\<close>

definition mustGetDevice :: "('k, 'c, 'i, 's) daemon_env \<Rightarrow> config \<Rightarrow> (string + ('k, 'c, 'i, 's) usbdev) go" where
  "mustGetDevice env cfg =
     (if cf_BackingMode cfg = DevMem then go_bind (NewRAMDisk (cf_StorageBytes cfg)) (\<lambda>d. Ret (Inr (Inl d)))
      else if cf_BackingMode cfg = DevFile then
        (case NewFileDisk (de_openFile env (storage_file cfg ''.bin'')) (de_statErr env (storage_file cfg ''.bin'')) (cf_StorageBytes cfg) of
           Inl e \<Rightarrow> Ret (Inl ''Could not create file backed virtual disk'')
         | Inr d \<Rightarrow> Ret (Inr (Inr (Inl d))))
      else if cf_BackingMode cfg = DevDedupFile then
        go_bind (dedupDiskFromCfg (de_msync env) (de_pebble env) (de_mmap env)
            (de_openFile env (storage_file cfg ''.map'')) (de_statErr env (storage_file cfg ''.map''))
            (de_openDB env (storage_file cfg ''.ids''))
            (de_openFile env (storage_file cfg ''.blks'')) (de_statErr env (storage_file cfg ''.blks''))
            (storage_file cfg ''.ids'') (cf_StorageBytes cfg))
          (\<lambda>r. case r of
             Inl e \<Rightarrow> Ret (Inl ''Could not create pebbleDB backed deduplicating virtual disk'')
           | Inr d \<Rightarrow> Ret (Inr (Inr (Inr (Inl d)))))
      else if cf_BackingMode cfg = DevObjStore then
        go_bind (osbdFromCfg (de_store env) (de_sema env) (de_KindLocalTest env) (de_KindSFTP env) (de_dial env)
            (de_openContainer env) (de_createContainer env) cfg (de_world env))
          (\<lambda>r. case r of
             Inl e \<Rightarrow> Ret (Inl ''Could not create object storage backed virtual disk'')
           | Inr d \<Rightarrow> Ret (Inr (Inr (Inr (Inr d)))))
      else Ret (Inl ''Bug: Could not create store: unknown backing device mode enum''))"

definition usbdev_ops :: "('k, 'c, 'i, 's) daemon_env \<Rightarrow> ('k, 'c, 'i, 's) usbdev dev_ops" where
  "usbdev_ops env = either_ops ramdisk_ops (either_ops filedisk_ops (either_ops (dedupdisk_ops (de_msync env) (de_pebble env)) objdev_ops))"

text \<open>\<open>main\<close> from the device to the start of the stream's workers: the device, the name of its block device and the
  sockets, or a fatal log message; and what happened to the block device and the kernel.\<close>

definition main_run :: "('k, 'c, 'i, 's) daemon_env \<Rightarrow> (u64 \<Rightarrow> u32 \<times> u32) \<Rightarrow> kmod_pkg \<Rightarrow> nbd_header \<Rightarrow> goerr + u64 \<times> u64 \<Rightarrow>
    (string \<Rightarrow> goerr option) \<Rightarrow> goerr option \<Rightarrow> (string \<Rightarrow> nbdIoctl \<Rightarrow> u64 \<Rightarrow> goerr option) \<Rightarrow> config \<Rightarrow> kern \<Rightarrow>
    (string + ('k, 'c, 'i, 's) usbdev \<times> string \<times> u64 \<times> u64) go \<times> sysev list \<times> kern" where
  "main_run env devno km hdr socks open' conn sysCall cfg k =
     (case mustGetDevice env cfg of
        Panic \<Rightarrow> (Panic, [], k)
      | Ret (Inl msg) \<Rightarrow> (Ret (Inl msg), [], k)
      | Ret (Inr device) \<Rightarrow>
        (case NewNbdHandler devno km hdr socks open' conn sysCall (usbdev_ops env) device
            (if cf_NBDDevName cfg \<noteq> '''' then [HString (cf_NBDDevName cfg)] else [HUint (cf_NBDDevCount cfg)]) k of
           (Panic, evs, k) \<Rightarrow> (Panic, evs, k)
         | (Ret (Inl e), evs, k) \<Rightarrow> (Ret (Inl ''Could not create NDB user-space device''), evs, k)
         | (Ret (Inr conn), evs, k) \<Rightarrow> (Ret (Inr (device, conn)), evs, k)))"

section \<open>The contract\<close>

definition usbdev_inv :: "('k, 'c, 'i, 's) daemon_env \<Rightarrow> ('k \<Rightarrow> bool) \<Rightarrow> ('k \<Rightarrow> bytes \<Rightarrow> bytes option) \<Rightarrow> bytes set \<Rightarrow>
    ('c \<times> nat, 'i item, 's) ospec \<Rightarrow> nat \<Rightarrow> ('k, 'c, 'i, 's) usbdev \<Rightarrow> bool" where
  "usbdev_inv env kinv kmap U X N =
     case_sum ramdisk_inv (case_sum filedisk_inv (case_sum (ddisk_inv (de_msync env) (de_pebble env) kinv kmap U) (od_inv X True N)))"

definition usbdev_content :: "('c \<times> nat, 'i item, 's) ospec \<Rightarrow> ('k, 'c, 'i, 's) usbdev \<Rightarrow> bytes" where
  "usbdev_content X = case_sum rd_disk (case_sum fd_content (case_sum (dd_content lm_ids fb_block) (od_content X)))"

definition usbdev_takes :: "bytes set \<Rightarrow> nat \<Rightarrow> ('k, 'c, 'i, 's) usbdev \<Rightarrow> bytes \<Rightarrow> i64 \<Rightarrow> bool" where
  "usbdev_takes U N = case_sum (\<lambda>_ _ _. True) (case_sum (\<lambda>_ _ _. True) (case_sum (dd_takes U) (od_takes True N)))"

interpretation ud: block_device "usbdev_ops env" "usbdev_inv env kinv kmap U X N" "usbdev_content X" "usbdev_takes U N"
  for env kinv kmap U X N
  unfolding usbdev_ops_def usbdev_inv_def usbdev_content_def usbdev_takes_def dedupdisk_ops_def
  by (intro either_device rd.block_device_axioms fd.block_device_axioms ddk.block_device_axioms odk.block_device_axioms)

end
