(* ===== verification/Daemon_Props.thy ===== *)
theory Daemon_Props
  imports Daemon Objdev_Props
begin

text \<open>
  The whole daemon on new storage: whatever the backing mode, it announces a device of the configured size and
  then answers the kernel as a byte array of zeros of that size would.
\<close>

section \<open>New storage\<close>

definition new_empty :: "('k, 'c, 'i, 's) daemon_env \<Rightarrow> string \<Rightarrow> bool" where
  "new_empty env name \<longleftrightarrow> (\<exists>f. de_openFile env name = Inr f \<and> de_statErr env name = None \<and> healthy f \<and> fdata f = [] \<and> fpos f = 0)"

text \<open>Dedup storage: new files, an empty database that keeps its contract, mapped memory that can be synced, and
  no SHA-1 collisions among the blocks \<open>U\<close>.\<close>

definition new_dedup :: "('k, 'c, 'i, 's) daemon_env \<Rightarrow> ('k \<Rightarrow> bool) \<Rightarrow> ('k \<Rightarrow> bytes \<Rightarrow> bytes option) \<Rightarrow> bytes set \<Rightarrow> config \<Rightarrow> bool" where
  "new_dedup env kinv kmap U cfg \<longleftrightarrow> new_empty env (storage_file cfg ''.map'') \<and> new_empty env (storage_file cfg ''.blks'') \<and>
     (\<exists>db. de_openDB env (storage_file cfg ''.ids'') = Inr db \<and> kinv db \<and> kmap db = Map.empty) \<and> kv_ok (de_pebble env) kinv kmap \<and>
     (\<forall>raw. de_mmap env raw = Inr raw) \<and> (\<forall>raw. de_msync env raw = None) \<and> inj_on sha1 U \<and> finite U \<and> card U \<le> 2 ^ 50"

text \<open>Object storage: the container can be opened or created and is empty, so is the cache directory, no quota is
  configured, and the size is a number of whole objects.\<close>

definition new_objects :: "('k, 'c, 'i, 's) daemon_env \<Rightarrow> ('c \<Rightarrow> bool) \<Rightarrow> ('c \<Rightarrow> string \<Rightarrow> bytes option) \<Rightarrow> ('c \<Rightarrow> string \<Rightarrow> metadata) \<Rightarrow>
    ('s \<Rightarrow> nat) \<Rightarrow> config \<Rightarrow> bool" where
  "new_objects env cinv cmap cmd free cfg \<longleftrightarrow>
     (let obj = oc_ObjectBytes (cf_ObjStoreConfig cfg); w = de_world env in
      de_dial env = None \<and> (de_openContainer env = None \<or> de_openContainer env = Some ErrNotFound \<and> de_createContainer env = None) \<and>
      0 < obj \<and> obj \<le> cf_StorageBytes cfg \<and> obj dvd cf_StorageBytes cfg \<and> cinv (fst (w_cont w)) \<and> cmap (fst (w_cont w)) = Map.empty \<and>
      \<not> fs_createErr (w_fs w) \<and> \<not> fs_removeErr (w_fs w) \<and> healthy (fs_new (w_fs w)) \<and> fs_files (w_fs w) = Map.empty \<and>
      (\<exists>dev cont. applyOpts (osbdOptions (de_KindLocalTest env) (de_KindSFTP env) (cf_ObjStoreConfig cfg)) BaseContainer
            (cf_StorageBytes cfg) obj = Ret (Inr (dev, cont, None)) \<and>
         constructible (de_store env) (de_sema env) cinv cmap cmd free dev cont None))"

lemma NewRAMDisk_fresh:
  "0 \<le> sz \<Longrightarrow> sz < 2 ^ 63 \<Longrightarrow> \<exists>d. NewRAMDisk sz = Ret d \<and> ramdisk_inv d \<and> rd_disk d = zeros (nat sz)"
  by (simp add: NewRAMDisk_def ramdisk_inv_def ramdisk_wf_def)

lemma mem_device:
  assumes "cf_BackingMode cfg = DevMem" "0 \<le> cf_StorageBytes cfg" "cf_StorageBytes cfg < 2 ^ 63"
  shows "\<exists>dev. mustGetDevice env cfg = Ret (Inr dev) \<and> usbdev_inv env kinv kmap U X N dev \<and>
    usbdev_content X dev = zeros (nat (cf_StorageBytes cfg))"
  using NewRAMDisk_fresh [OF assms(2,3)] assms(1) by (auto simp: mustGetDevice_def usbdev_inv_def usbdev_content_def)

lemma file_device:
  assumes "cf_BackingMode cfg = DevFile" "0 \<le> cf_StorageBytes cfg" "cf_StorageBytes cfg < 2 ^ 63" "new_empty env (storage_file cfg ''.bin'')"
  shows "\<exists>dev. mustGetDevice env cfg = Ret (Inr dev) \<and> usbdev_inv env kinv kmap U X N dev \<and>
    usbdev_content X dev = zeros (nat (cf_StorageBytes cfg))"
proof -
  obtain f where f: "de_openFile env (storage_file cfg ''.bin'') = Inr f" "de_statErr env (storage_file cfg ''.bin'') = None"
    "healthy f" "fdata f = []" "fpos f = 0" using assms(4) by (auto simp: new_empty_def)
  then obtain d where "NewFileDisk (Inr f) None (cf_StorageBytes cfg) = Inr d" "filedisk_inv d" "fd_content d = zeros (nat (cf_StorageBytes cfg))"
    using NewFileDisk_ok [of f "cf_StorageBytes cfg"] assms by auto
  then show ?thesis using f assms(1) by (auto simp: mustGetDevice_def usbdev_inv_def usbdev_content_def bakdevs)
qed

lemma dedup_storage_device:
  assumes "cf_BackingMode cfg = DevDedupFile" "0 \<le> cf_StorageBytes cfg" "cf_StorageBytes cfg < 2 ^ 63" "4096 dvd cf_StorageBytes cfg"
    and new: "new_dedup env kinv kmap U cfg"
  shows "\<exists>dev. mustGetDevice env cfg = Ret (Inr dev) \<and> usbdev_inv env kinv kmap U X N dev \<and>
    usbdev_content X dev = zeros (nat (cf_StorageBytes cfg))"
proof -
  note new = new [unfolded new_dedup_def]
  obtain f where f: "de_openFile env (storage_file cfg ''.map'') = Inr f" "de_statErr env (storage_file cfg ''.map'') = None"
    "healthy f" "fdata f = []" "fpos f = 0" using new by (auto simp: new_empty_def)
  obtain g where g: "de_openFile env (storage_file cfg ''.blks'') = Inr g" "de_statErr env (storage_file cfg ''.blks'') = None"
    "healthy g" "fdata g = []" using new by (auto simp: new_empty_def)
  obtain db where db: "de_openDB env (storage_file cfg ''.ids'') = Inr db" "kinv db" "kmap db = Map.empty" using new by auto
  have sz: "4096 * nat (cf_StorageBytes cfg div 4096) = nat (cf_StorageBytes cfg)" using assms(2,4) by (auto simp: nat_mult_distrib)
  obtain d where "dedupDiskFromCfg (de_msync env) (de_pebble env) (de_mmap env) (Inr f) None (Inr db) (Inr g) None
      (storage_file cfg ''.ids'') (cf_StorageBytes cfg) = Ret (Inr d)" "ddisk_inv (de_msync env) (de_pebble env) kinv kmap U d"
    "ddisk_content d = zeros (nat (cf_StorageBytes cfg))"
    using dedupDiskFromCfg_new [OF f(3-5) g(3,4) assms(2,3), of "de_mmap env" "de_msync env" "de_pebble env" kinv kmap db U
        "storage_file cfg ''.ids''"] new db sz by auto
  then show ?thesis using f g db assms(1)
    by (auto simp: mustGetDevice_def usbdev_inv_def usbdev_content_def ddisk_content_def bakdevs)
qed

lemma object_device:
  fixes env :: "('k, 'c, 'i, 's) daemon_env"
  assumes mode: "cf_BackingMode cfg = DevObjStore" and size: "cf_StorageBytes cfg < 2 ^ 63"
    and new: "new_objects env cinv cmap cmd free cfg"
  shows "\<exists>dev X. mustGetDevice env cfg = Ret (Inr dev) \<and> usbdev_inv env kinv kmap U X (nat (oc_ObjectBytes (cf_ObjStoreConfig cfg))) dev \<and>
    usbdev_content X dev = zeros (nat (cf_StorageBytes cfg))"
proof -
  define sz obj w where "sz = cf_StorageBytes cfg" and "obj = oc_ObjectBytes (cf_ObjStoreConfig cfg)" and "w = de_world env"
  note new = new [unfolded new_objects_def Let_def, folded sz_def obj_def w_def]
  obtain dev cont where opts: "applyOpts (osbdOptions (de_KindLocalTest env) (de_KindSFTP env) (cf_ObjStoreConfig cfg)) BaseContainer sz obj =
      Ret (Inr (dev, cont, None))" and con: "constructible (de_store env) (de_sema env) cinv cmap cmd free dev cont None"
    using new by blast
  have small: "sint (word_of_int sz :: u64) = sz" "sint (word_of_int obj :: u64) = obj"
    using new size by (simp_all add: sint_sbintrunc' signed_take_bit_int_eq_self sz_def)
  have le: "(word_of_int obj :: u64) \<le> word_of_int sz"
    using new size by (simp add: word_le_def uint_word_of_int sz_def)
  define n where "n = nat (sz div obj)"
  have n: "sz = obj * int n" using new by (simp add: n_def pos_imp_zdiv_nonneg_iff)
  let ?X = "new_spec (de_store env) cinv cmap cmd free cont None w"
  let ?sp = "new_params (de_store env) (de_sema env) (cf_StorageDirectory cfg) (word_of_int obj) dev cont None"
  have none: "x_cmap ?X (w_cont w) nm = None" for nm using new by (simp add: new_spec_def cont_spec_def wmap_def)
  have inv: "winv (de_store env) cont cinv cmap cmd (w_cont w)" using new by (simp add: winv_def)
  have cache: "cache_ok ?X ?sp n w" using new by (simp add: cache_ok_def)
  have objs: "objects_ok ?X (nat obj) n w" using none by (simp add: objects_ok_def only_objects_def)
  obtain d where d: "NewDevice (de_store env) (de_sema env) (Some ()) (Some BaseContainer) (cf_StorageDirectory cfg) (word_of_int sz)
      (word_of_int obj) (osbdOptions (de_KindLocalTest env) (de_KindSFTP env) (cf_ObjStoreConfig cfg)) w = Ret (Inr d)"
    "od_inv ?X True (nat obj) d" "od_content ?X d = Objdev_Disk.stored ?X (nat obj) n w"
    using constructed [where options = "osbdOptions (de_KindLocalTest env) (de_KindSFTP env) (cf_ObjStoreConfig cfg)" and
        totalBytes = "word_of_int sz" and objectBytes = "word_of_int obj" and w = w and fr = True and n = n and
        cacheDir = "cf_StorageDirectory cfg", unfolded small, OF opts con refl refl _ n le inv cache objs] new none by auto
  have "Objdev_Disk.stored ?X (nat obj) n w = zeros (nat sz)"
    using new n by (simp add: Objdev_Disk.stored_def none zeros_blocks nat_mult_distrib)
  moreover have "osbdFromCfg (de_store env) (de_sema env) (de_KindLocalTest env) (de_KindSFTP env) (de_dial env)
      (de_openContainer env) (de_createContainer env) cfg w = Ret (Inr d)"
    using new d(1) by (auto simp: osbdFromCfg_def sz_def obj_def split: option.splits)
  ultimately show ?thesis
    using d mode by (intro exI [of _ "Inr (Inr (Inr d))"] exI [of _ ?X])
      (simp add: mustGetDevice_def usbdev_inv_def usbdev_content_def bakdevs sz_def obj_def w_def)
qed

text \<open>Storage of the configured size, whatever the mode.\<close>

definition new_storage :: "('k, 'c, 'i, 's) daemon_env \<Rightarrow> ('k \<Rightarrow> bool) \<Rightarrow> ('k \<Rightarrow> bytes \<Rightarrow> bytes option) \<Rightarrow> bytes set \<Rightarrow>
    ('c \<Rightarrow> bool) \<Rightarrow> ('c \<Rightarrow> string \<Rightarrow> bytes option) \<Rightarrow> ('c \<Rightarrow> string \<Rightarrow> metadata) \<Rightarrow> ('s \<Rightarrow> nat) \<Rightarrow> config \<Rightarrow> bool" where
  "new_storage env kinv kmap U cinv cmap cmd free cfg \<longleftrightarrow>
     0 \<le> cf_StorageBytes cfg \<and> cf_StorageBytes cfg < 2 ^ 63 \<and> 4096 dvd cf_StorageBytes cfg \<and>
     (cf_BackingMode cfg = DevMem \<or> cf_BackingMode cfg = DevFile \<and> new_empty env (storage_file cfg ''.bin'') \<or>
      cf_BackingMode cfg = DevDedupFile \<and> new_dedup env kinv kmap U cfg \<or>
      cf_BackingMode cfg = DevObjStore \<and> new_objects env cinv cmap cmd free cfg)"

lemma new_device:
  assumes "new_storage env kinv kmap U cinv cmap cmd free cfg"
    and U': "U' = (if cf_BackingMode cfg = DevDedupFile then U else UNIV)"
  shows "\<exists>dev X N. mustGetDevice env cfg = Ret (Inr dev) \<and> usbdev_inv env kinv kmap U' X N dev \<and>
    usbdev_content X dev = zeros (nat (cf_StorageBytes cfg))"
proof -
  note sz = assms(1) [unfolded new_storage_def]
  then consider "cf_BackingMode cfg = DevMem" | "cf_BackingMode cfg = DevFile" "new_empty env (storage_file cfg ''.bin'')"
    | "cf_BackingMode cfg = DevDedupFile" "new_dedup env kinv kmap U cfg"
    | "cf_BackingMode cfg = DevObjStore" "new_objects env cinv cmap cmd free cfg" by blast
  then show ?thesis
  proof cases
    case 1
    then show ?thesis using mem_device [OF 1, of env kinv kmap U'] sz by blast
  next
    case 2
    then show ?thesis using file_device [OF 2(1) _ _ 2(2), of kinv kmap U'] sz by blast
  next
    case 3
    then have "U' = U" using U' by simp
    then show ?thesis using dedup_storage_device [OF 3(1) _ _ _ 3(2)] sz by blast
  next
    case 4
    then show ?thesis using object_device [OF 4(1) _ 4(2), of kinv kmap U'] sz by blast
  qed
qed

section \<open>Properties\<close>


text \<open>A daemon with the dedup mode on new files and an empty database.\<close>

definition ex_daemon :: "((bytes \<times> bytes) list, list_cont, string, nat) daemon_env" where
  "ex_daemon = \<lparr>de_openFile = (\<lambda>_. Inr (new_file [])), de_statErr = (\<lambda>_. None), de_mmap = Inr, de_msync = (\<lambda>_. None),
     de_pebble = list_kv, de_openDB = (\<lambda>_. Inr []), de_store = list_env, de_sema = nat_sema,
     de_KindLocalTest = ''local'', de_KindSFTP = ''sftp'', de_dial = None, de_openContainer = None, de_createContainer = None,
     de_world = new_store\<rparr>"

definition ex_config :: config where
  "ex_config = \<lparr>cf_NBDDevName = '''', cf_NBDDevCount = 32, cf_BackingMode = DevDedupFile, cf_StorageDirectory = ''/tmp'',
     cf_StorageName = ''lun'', cf_StorageBytes = 8192, cf_IDStoreMemoryCacheBytes = 0, cf_ObjStoreConfig = ex_objStoreConfig\<rparr>"

lemma ex_new_storage:
  "new_storage ex_daemon (\<lambda>_. True) map_of {replicate 4096 7} list_inv list_map list_md (\<lambda>n. n) ex_config"
  using list_kv_ok by (simp add: new_storage_def new_dedup_def new_empty_def ex_daemon_def ex_config_def bakdevs)

lemma ex_main_run:
  "\<exists>dev evs. main_run ex_daemon ex_devno ex_kmod \<lparr>ndbTrimSupported = False, nbdFlagSendTrim = 32\<rparr> (Inr (3, 4)) (\<lambda>_. None) None (\<lambda>_ _ _. None)
     ex_config ex_kern = (Ret (Inr (dev, ''/dev/nbd0'', 3, 4)), evs, ex_kern)"
proof -
  obtain dev X N where dev: "mustGetDevice ex_daemon ex_config = Ret (Inr dev)" "usbdev_inv ex_daemon (\<lambda>_. True) map_of {replicate 4096 7} X N dev"
    using new_device [OF ex_new_storage refl] by (auto simp: ex_config_def)
  have "dev_BlockSize (usbdev_ops ex_daemon) dev = 4096" using ud.block_size [OF dev(2)] by (simp add: DefaultBlockSizeBytes_def)
  moreover have "cf_NBDDevName ex_config = ''''" "cf_NBDDevCount ex_config = 32" by (simp_all add: ex_config_def)
  ultimately show ?thesis by (simp add: main_run_def dev(1) NewNbdHandler_def ex_device setupSycalls_def)
qed


end
