(* ===== verification/Daemon_Conc.thy ===== *)
theory Daemon_Conc
  imports Daemon_Props
begin

text \<open>
  The daemon with its concurrent workers: \<open>processRequests\<close> on the device of each backing mode, over every
  interleaving of reader, workers and writer.
\<close>

section \<open>Executed messages\<close>

lemma done_ids:
  assumes "reachable ops bs W strm out d s" "recv_ok ms tail s"
  shows "distinct (map e_id (p_done s))" "\<forall>x \<in> set (p_done s). e_id x < length ms"
    "flight s = [] \<Longrightarrow> mset (done_msgs ms s) = mset (take (length (p_recv s)) ms)"
proof -
  have inv: "tags_ok 0 0 (p_recv s)" "mset (p_recv s) = mset (flight s) + mset (p_done s)"
    using reachable_inv [OF assms(1)] by (simp_all add: pipe_inv_def tags_inv_def place_inv_def)
  have ids: "map e_id (p_recv s) = [0..<length (p_recv s)]" using tags_ok_nth [OF inv(1)] by (intro nth_equalityI) auto
  have len: "length (p_recv s) \<le> length ms" using assms(2) by (simp add: recv_ok_def)
  have "mset (map e_id (p_recv s)) = mset (map e_id (flight s @ p_done s))" using inv(2) by simp
  then have all: "mset (map e_id (flight s @ p_done s)) = mset [0..<length (p_recv s)]" using ids by simp
  then have "distinct (map e_id (flight s @ p_done s))" by (metis distinct_upt mset_eq_imp_distinct_iff)
  then show "distinct (map e_id (p_done s))" by simp
  have "set (map e_id (flight s @ p_done s)) = {0..<length (p_recv s)}" using mset_eq_setD [OF all] by simp
  then have "e_id ` set (p_done s) \<subseteq> {0..<length (p_recv s)}" by auto
  then show "\<forall>x \<in> set (p_done s). e_id x < length ms" using len by fastforce
  show "mset (done_msgs ms s) = mset (take (length (p_recv s)) ms)" if "flight s = []"
  proof -
    have "mset (done_msgs ms s) = image_mset ((!) ms) (mset (map e_id (p_done s)))" by (simp add: done_msgs_def image_mset.compositionality comp_def)
    also have "\<dots> = mset (map ((!) ms) [0..<length (p_recv s)])" using all that by simp
    also have "map ((!) ms) [0..<length (p_recv s)] = take (length (p_recv s)) ms" using len by (intro nth_equalityI) auto
    finally show ?thesis .
  qed
qed

section \<open>Properties\<close>



end
