(* ===== verification/Sha256.thy ===== *)
theory Sha256
  imports Sha1
begin

text \<open>
  SHA-256 as in FIPS 180, the standard library's \<^verbatim>\<open>crypto/sha256\<close>, with which the device tests compare what
  they wrote with what they read. The padding and the big-endian words are those of SHA-1.
\<close>

definition sha256_rotr :: "nat \<Rightarrow> u32 \<Rightarrow> u32" where
  "sha256_rotr n w = drop_bit n w OR push_bit (32 - n) w"

text \<open>The round constants are the first 32 bits of the fractional parts of the cube roots of the first 64 primes. A cube root is
  extended by one binary digit at a time.\<close>

fun cube_root_digits :: "nat \<Rightarrow> int \<Rightarrow> int \<Rightarrow> int" where
  "cube_root_digits 0 n r = r"
| "cube_root_digits (Suc i) n r =
     (let n = 8 * n; r = 2 * r in cube_root_digits i n (if (r + 1) * (r + 1) * (r + 1) \<le> n then r + 1 else r))"

definition sha256_primes :: "int list" where
  "sha256_primes = filter (\<lambda>p. \<forall>q \<in> {2, 3, 5, 7, 11, 13, 17}. p mod q \<noteq> 0 \<or> p = q) [2..311]"

definition sha256_k :: "u32 list" where
  "sha256_k = map (\<lambda>p. word_of_int (cube_root_digits 32 p (last (filter (\<lambda>r. r * r * r \<le> p) [1..6])))) sha256_primes"

lemma cube_root_digits_ok:
  assumes "0 \<le> r" "r ^ 3 \<le> n" "n < (r + 1) ^ 3"
  shows "cube_root_digits i n r ^ 3 \<le> n * 8 ^ i \<and> n * 8 ^ i < (cube_root_digits i n r + 1) ^ 3"
  using assms
proof (induction i arbitrary: n r)
  case (Suc i)
  define s where "s = (if (2 * r + 1) ^ 3 \<le> 8 * n then 2 * r + 1 else 2 * r)"
  have c: "(2 * r) ^ 3 = 8 * r ^ 3" "(2 * r + 2) ^ 3 = 8 * (r + 1) ^ 3" by (simp_all add: eval_nat_numeral algebra_simps)
  have "8 * r ^ 3 \<le> 8 * n" "8 * n < 8 * (r + 1) ^ 3" using Suc.prems(2,3) by simp_all
  then have "(2 * r) ^ 3 \<le> 8 * n" "8 * n < (2 * r + 2) ^ 3" using c by simp_all
  then have "0 \<le> s" "s ^ 3 \<le> 8 * n" "8 * n < (s + 1) ^ 3" using Suc.prems(1) by (auto simp: s_def add.commute)
  from Suc.IH [OF this] have "cube_root_digits i (8 * n) s ^ 3 \<le> n * 8 ^ Suc i \<and> n * 8 ^ Suc i < (cube_root_digits i (8 * n) s + 1) ^ 3"
    by (simp add: mult.commute mult.left_commute)
  moreover have "cube_root_digits (Suc i) n r = cube_root_digits i (8 * n) s"
    by (simp add: s_def Let_def power3_eq_cube)
  ultimately show ?case by simp
qed simp

text \<open>The message schedule from a window of sixteen words.\<close>

fun sha256_schedule :: "nat \<Rightarrow> u32 list \<Rightarrow> u32 list" where
  "sha256_schedule 0 ws = []"
| "sha256_schedule (Suc n) ws = hd ws # sha256_schedule n
     (tl ws @ [(let w1 = ws ! 14; w15 = ws ! 1 in
        (sha256_rotr 17 w1 XOR sha256_rotr 19 w1 XOR drop_bit 10 w1) + ws ! 9 +
        (sha256_rotr 7 w15 XOR sha256_rotr 18 w15 XOR drop_bit 3 w15) + ws ! 0)])"

type_synonym sha256_state = "u32 \<times> u32 \<times> u32 \<times> u32 \<times> u32 \<times> u32 \<times> u32 \<times> u32"

fun sha256_rounds :: "(u32 \<times> u32) list \<Rightarrow> sha256_state \<Rightarrow> sha256_state" where
  "sha256_rounds [] st = st"
| "sha256_rounds ((k, w) # kws) (a, b, c, d, e, f, g, h) =
     (let t1 = h + (sha256_rotr 6 e XOR sha256_rotr 11 e XOR sha256_rotr 25 e) + ((e AND f) XOR (NOT e AND g)) + k + w;
          t2 = (sha256_rotr 2 a XOR sha256_rotr 13 a XOR sha256_rotr 22 a) + ((a AND b) XOR (a AND c) XOR (b AND c))
      in sha256_rounds kws (t1 + t2, a, b, c, d + t1, e, f, g))"

definition sha256_block :: "sha256_state \<Rightarrow> bytes \<Rightarrow> sha256_state" where
  "sha256_block st blk =
     (case st of (h0, h1, h2, h3, h4, h5, h6, h7) \<Rightarrow>
      case sha256_rounds (zip sha256_k (sha256_schedule 64 (words_be blk))) st of (a, b, c, d, e, f, g, h) \<Rightarrow>
        (h0 + a, h1 + b, h2 + c, h3 + d, h4 + e, h5 + f, h6 + g, h7 + h))"

function sha256_blocks :: "sha256_state \<Rightarrow> bytes \<Rightarrow> sha256_state" where
  "sha256_blocks st bs = (if length bs < 64 then st else sha256_blocks (sha256_block st (take 64 bs)) (drop 64 bs))"
  by auto
termination by (relation "measure (length \<circ> snd)") auto

declare sha256_blocks.simps [simp del]

definition sha256 :: "bytes \<Rightarrow> bytes" where
  "sha256 msg =
     (case sha256_blocks (0x6a09e667, 0xbb67ae85, 0x3c6ef372, 0xa54ff53a, 0x510e527f, 0x9b05688c, 0x1f83d9ab, 0x5be0cd19)
        (sha1_pad msg) of
        (h0, h1, h2, h3, h4, h5, h6, h7) \<Rightarrow> concat (map (put_be 4) [h0, h1, h2, h3, h4, h5, h6, h7]))"

lemma length_sha256: "length (sha256 msg) = 32"
  by (simp add: sha256_def split: prod.splits)

end
