(* ===== verification/Testutil.thy ===== *)
theory Testutil
  imports Sha256 Strms Filedisk
begin

text \<open>
  The device test suites of \<^verbatim>\<open>src/pkg/devices/testutil\<close>: \<open>TestUserspace\<close>, which a package of devices runs on a
  device of its own, \<open>TestNBD\<close>, which runs the same checks on the kernel's device, and the checks themselves, over
  any device given by its operations. A test returns what it reports to the testing framework. \<^verbatim>\<open>t.Fatalf\<close> and
  \<^verbatim>\<open>t.Skipf\<close> end the function that \<^verbatim>\<open>t.Run\<close> was given, not the test that contains it. Two loops of the suites
  have no bound of their own: not returning is the value \<^const>\<open>None\<close>.
\<close>

section \<open>Tests\<close>

datatype report = Fatal string | Skip string

fun is_fatal :: "report \<Rightarrow> bool" where
  "is_fatal (Fatal _) = True"
| "is_fatal (Skip _) = False"

type_synonym 'd outcome = "(report list \<times> 'd) go option"

fun og_bind :: "'a go option \<Rightarrow> ('a \<Rightarrow> 'b go option) \<Rightarrow> 'b go option" where
  "og_bind None f = None"
| "og_bind (Some Panic) f = Some Panic"
| "og_bind (Some (Ret x)) f = f x"

text \<open>One subtest after the other: the second runs whatever the first reports.\<close>

definition t_then :: "'d outcome \<Rightarrow> ('d \<Rightarrow> 'd outcome) \<Rightarrow> 'd outcome" where
  "t_then m f = og_bind m (\<lambda>(r, d). og_bind (f d) (\<lambda>(r', d). Some (Ret (r @ r', d))))"

text \<open>Reading and writing through the position-keeping streams of \<^verbatim>\<open>src/pkg/util/strms\<close>, over a device.\<close>

definition dev_rar_Read :: "'d dev_ops \<Rightarrow> 'd \<Rightarrow> i64 \<Rightarrow> bytes \<Rightarrow> (int \<times> goerr option \<times> bytes \<times> i64 \<times> 'd) go" where
  "dev_rar_Read ops d cur buf =
     go_bind (dev_ReadAt ops d buf cur) (\<lambda>(n, err, buf, d). Ret (n, err, buf, wrap64 (cur + n), d))"

definition dev_waw_Write :: "'d dev_ops \<Rightarrow> 'd \<Rightarrow> i64 \<Rightarrow> bytes \<Rightarrow> (int \<times> goerr option \<times> i64 \<times> 'd) go" where
  "dev_waw_Write ops d cur buf =
     go_bind (dev_WriteAt ops d buf cur) (\<lambda>(n, err, d). Ret (n, err, wrap64 (cur + n), d))"

section \<open>Buffered readers and writers\<close>

text \<open>\<^verbatim>\<open>bufio.Reader\<close> over such a stream: the buffer, the part of it that is not yet consumed, a pending error, and the
  position of the stream.\<close>

record bufr =
  br_buf :: bytes
  br_r :: nat
  br_w :: nat
  br_err :: "goerr option"
  br_cur :: i64

definition br_new :: bufr where
  "br_new = \<lparr>br_buf = zeros bufioSize, br_r = 0, br_w = 0, br_err = None, br_cur = 0\<rparr>"

fun br_read :: "nat \<Rightarrow> 'd dev_ops \<Rightarrow> bufr \<Rightarrow> 'd \<Rightarrow> (bufr \<times> 'd) go" where
  "br_read 0 ops b d = Ret (b\<lparr>br_err := Some (Msg ''multiple Read calls return no data or error'')\<rparr>, d)"
| "br_read (Suc k) ops b d =
     go_bind (dev_rar_Read ops d (br_cur b) (drop (br_w b) (br_buf b))) (\<lambda>(n, err, got, cur, d).
       if n < 0 then Panic
       else let b = b\<lparr>br_buf := take (br_w b) (br_buf b) @ got, br_w := br_w b + nat n, br_cur := cur\<rparr> in
         if err \<noteq> None then Ret (b\<lparr>br_err := err\<rparr>, d)
         else if 0 < n then Ret (b, d)
         else br_read k ops b d)"

definition maxConsecutiveEmptyReads :: nat where
  "maxConsecutiveEmptyReads = 100"

text \<open>\<^verbatim>\<open>fill\<close> moves what is not consumed to the front and reads behind it.\<close>

definition br_fill :: "'d dev_ops \<Rightarrow> bufr \<Rightarrow> 'd \<Rightarrow> (bufr \<times> 'd) go" where
  "br_fill ops b d =
     (let b = b\<lparr>br_buf := go_copy (br_buf b) (chunk (br_buf b) (br_r b) (br_w b - br_r b)), br_w := br_w b - br_r b, br_r := 0\<rparr> in
      if length (br_buf b) \<le> br_w b then Panic
      else br_read maxConsecutiveEmptyReads ops b d)"

text \<open>\<^verbatim>\<open>ReadByte\<close> fills the buffer until there is a byte or an error; one filling gives one or the other.\<close>

definition br_take :: "bufr \<Rightarrow> (goerr + byte) \<times> bufr" where
  "br_take b =
     (if br_r b = br_w b then (Inl (the (br_err b)), b\<lparr>br_err := None\<rparr>)
      else (Inr (br_buf b ! br_r b), b\<lparr>br_r := br_r b + 1\<rparr>))"

definition br_ReadByte :: "'d dev_ops \<Rightarrow> bufr \<Rightarrow> 'd \<Rightarrow> ((goerr + byte) \<times> bufr \<times> 'd) go" where
  "br_ReadByte ops b d =
     (if br_r b = br_w b \<and> br_err b = None
      then go_bind (br_fill ops b d) (\<lambda>(b, d). case br_take b of (c, b) \<Rightarrow> Ret (c, b, d))
      else (case br_take b of (c, b) \<Rightarrow> Ret (c, b, d)))"

text \<open>\<^verbatim>\<open>WriteTo\<close>, which \<^verbatim>\<open>io.Copy\<close> calls, to a hash that takes all it is given: the bytes that were given to the hash.\<close>

partial_function (option) br_copy :: "'d dev_ops \<Rightarrow> bufr \<Rightarrow> 'd \<Rightarrow> bytes \<Rightarrow> (bytes \<times> goerr option \<times> 'd) go option" where
  "br_copy ops b d hashed =
     (if br_r b < br_w b
      then (case br_fill ops (b\<lparr>br_r := br_w b\<rparr>) d of
              Panic \<Rightarrow> Some Panic
            | Ret (b', d) \<Rightarrow> br_copy ops b' d (hashed @ chunk (br_buf b) (br_r b) (br_w b - br_r b)))
      else Some (Ret (hashed, if br_err b = Some EOF then None else br_err b, d)))"

definition io_Copy :: "'d dev_ops \<Rightarrow> 'd \<Rightarrow> (bytes \<times> goerr option \<times> 'd) go option" where
  "io_Copy ops d = og_bind (Some (br_fill ops br_new d)) (\<lambda>(b, d). br_copy ops b d [])"

text \<open>\<^verbatim>\<open>bufio.Writer\<close> over \<^verbatim>\<open>io.MultiWriter\<close> of a device and a hash.\<close>

record multw =
  mw_buf :: bytes
  mw_err :: "goerr option"
  mw_cur :: i64
  mw_hash :: bytes

definition mw_new :: multw where
  "mw_new = \<lparr>mw_buf = [], mw_err = None, mw_cur = 0, mw_hash = []\<rparr>"

definition errShortWrite :: goerr where
  "errShortWrite = Msg ''short write''"

definition mw_Write :: "'d dev_ops \<Rightarrow> multw \<Rightarrow> bytes \<Rightarrow> 'd \<Rightarrow> (int \<times> goerr option \<times> multw \<times> 'd) go" where
  "mw_Write ops w p d =
     go_bind (dev_waw_Write ops d (mw_cur w) p) (\<lambda>(n, err, cur, d).
       let w = w\<lparr>mw_cur := cur\<rparr> in
       if err \<noteq> None then Ret (n, err, w, d)
       else if n \<noteq> int (length p) then Ret (n, Some errShortWrite, w, d)
       else Ret (int (length p), None, w\<lparr>mw_hash := mw_hash w @ p\<rparr>, d))"

definition mw_Flush :: "'d dev_ops \<Rightarrow> multw \<Rightarrow> 'd \<Rightarrow> (goerr option \<times> multw \<times> 'd) go" where
  "mw_Flush ops w d =
     (if mw_err w \<noteq> None then Ret (mw_err w, w, d)
      else if mw_buf w = [] then Ret (None, w, d)
      else go_bind (mw_Write ops w (mw_buf w) d) (\<lambda>(n, err, w, d).
        let err = (if n < int (length (mw_buf w)) \<and> err = None then Some errShortWrite else err) in
        if err \<noteq> None then Ret (err, w\<lparr>mw_buf := drop (nat n) (mw_buf w), mw_err := err\<rparr>, d)
        else Ret (None, w\<lparr>mw_buf := []\<rparr>, d)))"

definition mw_WriteByte :: "'d dev_ops \<Rightarrow> multw \<Rightarrow> byte \<Rightarrow> 'd \<Rightarrow> (goerr option \<times> multw \<times> 'd) go" where
  "mw_WriteByte ops w c d =
     (if mw_err w \<noteq> None then Ret (mw_err w, w, d)
      else if bufioSize \<le> length (mw_buf w)
      then go_bind (mw_Flush ops w d) (\<lambda>(err, w, d).
        if err \<noteq> None then Ret (mw_err w, w, d) else Ret (None, w\<lparr>mw_buf := mw_buf w @ [c]\<rparr>, d))
      else Ret (None, w\<lparr>mw_buf := mw_buf w @ [c]\<rparr>, d))"

section \<open>The checks\<close>

definition TestDevSize :: "'d dev_ops \<Rightarrow> u64 \<Rightarrow> 'd \<Rightarrow> 'd outcome" where
  "TestDevSize ops expectedSize d =
     (if dev_Size ops d \<noteq> wrap64 (int (unat expectedSize))
      then Some (Ret ([Fatal ''Expected device size''], d)) else Some (Ret ([], d)))"

definition unbufCount :: "u64 \<Rightarrow> u64" where
  "unbufCount count = (if 3 * 1024 * 1024 < count div 3 then 3 * 1024 * 1024 else count div 3)"

text \<open>The loops that read zeros; the first argument counts the bytes still to be read.\<close>

fun readEmpty_unbuffered :: "nat \<Rightarrow> 'd dev_ops \<Rightarrow> i64 \<Rightarrow> bytes \<Rightarrow> 'd \<Rightarrow> (report list \<times> 'd) go" where
  "readEmpty_unbuffered 0 ops cur buf d = Ret ([], d)"
| "readEmpty_unbuffered (Suc k) ops cur buf d =
     go_bind (dev_rar_Read ops d cur buf) (\<lambda>(_, err, buf, cur, d).
       if err \<noteq> None then Ret ([Fatal ''Failed to read byte''], d)
       else if hd buf \<noteq> 0 then Ret ([Fatal ''Non-zero value found''], d)
       else readEmpty_unbuffered k ops cur buf d)"

fun readEmpty_buffered :: "nat \<Rightarrow> 'd dev_ops \<Rightarrow> bufr \<Rightarrow> 'd \<Rightarrow> (report list \<times> 'd) go" where
  "readEmpty_buffered 0 ops b d = Ret ([], d)"
| "readEmpty_buffered (Suc k) ops b d =
     go_bind (br_ReadByte ops b d) (\<lambda>(r, b, d).
       case r of
         Inl err \<Rightarrow> Ret ([Fatal ''Failed to read zero byte''], d)
       | Inr actual \<Rightarrow>
           if actual \<noteq> 0 then Ret ([Fatal ''Wrong value found''], d)
           else readEmpty_buffered k ops b d)"

text \<open>A slice of a given length, and a read that must fill one with zeros.\<close>

definition go_make :: "u64 \<Rightarrow> bytes go" where
  "go_make n = (if unat n < 2 ^ 63 then Ret (zeros (unat n)) else Panic)"

definition readSpan :: "'d dev_ops \<Rightarrow> u64 \<Rightarrow> i64 \<Rightarrow> 'd \<Rightarrow> (report list \<times> 'd) go" where
  "readSpan ops len pos d =
     go_bind (go_make len) (\<lambda>buf.
     go_bind (dev_ReadAt ops d buf pos) (\<lambda>(n, err, buf, d).
       if err \<noteq> None then Ret ([Fatal ''Failed two read two segments''], d)
       else if word_of_int n \<noteq> len then Ret ([Fatal ''Read returned fewer bytes''], d)
       else if \<exists>b \<in> set buf. b \<noteq> 0 then Ret ([Fatal ''Expected all zeros''], d)
       else Ret ([], d)))"

definition readEmpty_misaligned :: "'d dev_ops \<Rightarrow> u64 \<Rightarrow> u64 \<Rightarrow> 'd \<Rightarrow> 'd outcome" where
  "readEmpty_misaligned ops boundaryBytes count d =
     (if boundaryBytes < 1 then Some (Ret ([Skip ''No alignment boundary for test''], d))
      else if count < boundaryBytes * 2
      then Some (Ret ([Skip ''Two segments worth of total capacity required for test''], d))
      else t_then (Some (readSpan ops (boundaryBytes * 2) 0 d))
        (\<lambda>d. Some (readSpan ops boundaryBytes (wrap64 (int (unat (boundaryBytes div 2)))) d)))"

definition TestReadEmpty :: "'d dev_ops \<Rightarrow> u64 \<Rightarrow> 'd \<Rightarrow> 'd outcome" where
  "TestReadEmpty ops boundaryBytes d =
     (let count = word_of_int (dev_Size ops d) in
      t_then (Some (readEmpty_unbuffered (unat (unbufCount count)) ops 0 (zeros 1) d)) (\<lambda>d.
      t_then (Some (readEmpty_buffered (unat count) ops br_new d)) (\<lambda>d.
      readEmpty_misaligned ops boundaryBytes count d)))"

text \<open>Writing single bytes and reading each back; \<open>i\<close> is the index of the next byte.\<close>

fun writeRead_unbuffered :: "nat \<Rightarrow> nat \<Rightarrow> 'd dev_ops \<Rightarrow> i64 \<Rightarrow> bytes \<Rightarrow> 'd \<Rightarrow> (report list \<times> 'd) go" where
  "writeRead_unbuffered 0 i ops cur buf d =
     go_bind (dev_Flush ops d) (\<lambda>(err, d).
       if err \<noteq> None then Ret ([Fatal ''Failed to flush device''], d) else Ret ([], d))"
| "writeRead_unbuffered (Suc k) i ops cur buf d =
     (let writeVal = of_nat (i mod 256) in
      go_bind (dev_waw_Write ops d cur [writeVal]) (\<lambda>(_, err, cur, d).
        if err \<noteq> None then Ret ([Fatal ''Failed to write byte''], d)
        else go_bind (dev_ReadAt ops d buf (wrap64 (int i))) (\<lambda>(_, err, buf, d).
          if err \<noteq> None then Ret ([Fatal ''Failed to read byte just written''], d)
          else if hd buf \<noteq> writeVal then Ret ([Fatal ''Wrong value found''], d)
          else writeRead_unbuffered k (Suc i) ops cur buf d)))"

definition getVal :: "nat \<Rightarrow> byte" where
  "getVal idx = (if (idx div 4096) mod 2 = 0 then of_nat ((idx + 16) mod 256) else 0)"

fun pattern_write :: "nat \<Rightarrow> nat \<Rightarrow> 'd dev_ops \<Rightarrow> multw \<Rightarrow> 'd \<Rightarrow> (goerr option \<times> multw \<times> 'd) go" where
  "pattern_write 0 i ops w d = Ret (None, w, d)"
| "pattern_write (Suc k) i ops w d =
     go_bind (mw_WriteByte ops w (getVal i) d) (\<lambda>(err, w, d).
       if err \<noteq> None then Ret (err, w, d) else pattern_write k (Suc i) ops w d)"

text \<open>The subtest that writes: what it reports, and the hash it leaves in \<open>writtenHash\<close> (empty if it does not get there).\<close>

definition writePattern :: "'d dev_ops \<Rightarrow> u64 \<Rightarrow> 'd \<Rightarrow> (bytes \<times> report list \<times> 'd) go" where
  "writePattern ops count d =
     go_bind (pattern_write (unat count) 0 ops mw_new d) (\<lambda>(err, w, d).
       if err \<noteq> None then Ret ([], [Fatal ''Failed to write byte''], d)
       else go_bind (mw_Flush ops w d) (\<lambda>(err, w, d).
         let r = (if err \<noteq> None then [Fatal ''Failed to flush buffered writer''] else []) in
         go_bind (dev_Flush ops d) (\<lambda>(err, d).
           Ret (sha256 (mw_hash w), r @ (if err \<noteq> None then [Fatal ''Failed to flush device''] else []), d))))"

partial_function (option) readBytes :: "nat \<Rightarrow> u64 \<Rightarrow> 'd dev_ops \<Rightarrow> bufr \<Rightarrow> 'd \<Rightarrow> 'd outcome" where
  "readBytes i count ops b d =
     (case br_ReadByte ops b d of
        Panic \<Rightarrow> Some Panic
      | Ret (r, b, d) \<Rightarrow>
       (case r of
          Inl err \<Rightarrow>
            if err = EOF \<and> of_nat i = count then Some (Ret ([], d))
            else Some (Ret ([Fatal ''Failed to read byte index just written''], d))
        | Inr actual \<Rightarrow>
            if actual \<noteq> getVal i then Some (Ret ([Fatal ''Wrong value found''], d))
            else readBytes (Suc i) count ops b d))"

definition TestReadHash :: "'d dev_ops \<Rightarrow> bytes \<Rightarrow> 'd \<Rightarrow> 'd outcome" where
  "TestReadHash ops expectedHash d =
     og_bind (io_Copy ops d) (\<lambda>(hashed, err, d).
       if err \<noteq> None then Some (Ret ([Fatal ''Failed to calculate SHA256 of device''], d))
       else if int (length hashed) \<noteq> dev_Size ops d
       then Some (Ret ([Fatal ''While calculating SHA256 of device fewer bytes were found''], d))
       else if expectedHash \<noteq> sha256 hashed then Some (Ret ([Fatal ''SHA256 written to device''], d))
       else Some (Ret ([], d)))"

definition TestWriteReadPattern :: "'d dev_ops \<Rightarrow> 'd \<Rightarrow> (bytes \<times> report list \<times> 'd) go option" where
  "TestWriteReadPattern ops d =
     (let count = word_of_int (dev_Size ops d) in
      og_bind (Some (writeRead_unbuffered (unat (unbufCount count)) 0 ops 0 (zeros 1) d)) (\<lambda>(r1, d).
      og_bind (Some (writePattern ops count d)) (\<lambda>(writtenHash, r2, d).
      og_bind (t_then (readBytes 0 count ops br_new d) (TestReadHash ops writtenHash)) (\<lambda>(r3, d).
        Some (Ret (writtenHash, r1 @ r2 @ r3, d))))))"

definition TestClose :: "'d dev_ops \<Rightarrow> 'd \<Rightarrow> 'd outcome" where
  "TestClose ops d =
     Some (go_bind (dev_Close ops d) (\<lambda>(err, d).
       if err \<noteq> None then Ret ([Fatal ''Failed to close device''], d)
       else go_bind (dev_ReadAt ops d (zeros 1) 0) (\<lambda>(_, err, buf, d).
         if err = None then Ret ([Fatal ''Expected error during read on closed device''], d)
         else go_bind (dev_WriteAt ops d buf 0) (\<lambda>(_, err, d).
           if err = None then Ret ([Fatal ''Expected error during write on closed device''], d)
           else go_bind (dev_Flush ops d) (\<lambda>(err, d).
             if err = None then Ret ([Fatal ''Expected error during flush on closed device''], d)
             else Ret ([], d))))))"

section \<open>The suites\<close>

text \<open>The checks both suites make, from the first read on.\<close>

definition suiteChecks :: "'d dev_ops \<Rightarrow> u64 \<Rightarrow> ('d \<Rightarrow> 'd outcome) \<Rightarrow> 'd \<Rightarrow> 'd outcome" where
  "suiteChecks ops expectedSize rest d =
     og_bind (Some (dev_ReadAt ops d (zeros 1) 0)) (\<lambda>(_, err, _, d).
       if err \<noteq> None then Some (Ret ([Fatal ''1 byte test read failed''], d))
       else t_then (TestDevSize ops expectedSize d) (\<lambda>d.
         t_then (TestReadEmpty ops (word_of_int (dev_Size ops d)) d) (\<lambda>d.
           og_bind (Some (dev_WriteAt ops d (zeros 1) 0)) (\<lambda>(_, err, d).
             if err \<noteq> None then Some (Ret ([Fatal ''1 byte test write failed''], d))
             else og_bind (TestWriteReadPattern ops d) (\<lambda>(writtenHash, r, d).
               t_then (Some (Ret (r, d))) (\<lambda>d.
                 t_then (TestReadHash ops writtenHash d) rest))))))"

definition TestUserspace :: "'d dev_ops \<Rightarrow> u64 \<Rightarrow> 'd \<Rightarrow> 'd outcome" where
  "TestUserspace ops expectedSize d = suiteChecks ops expectedSize (TestClose ops) d"

text \<open>
  The suite through the kernel, given the effective user, the handler's error, what opening the kernel's device
  answers, the error of closing the stream and the error of processing its requests.
\<close>

definition TestNBD :: "int \<Rightarrow> goerr option \<Rightarrow> goerr + osfile \<Rightarrow> goerr option \<Rightarrow> goerr option \<Rightarrow> u64 \<Rightarrow>
    report list go option" where
  "TestNBD euid handlerErr opened closeErr processErr expectedSize =
     (if euid \<noteq> 0 then Some (Ret [Skip ''Must be root for this test''])
      else if handlerErr \<noteq> None then Some (Ret [Fatal ''Could not find a usable NBD''])
      else (case opened of
          Inl e \<Rightarrow> Some (Ret [Skip ''Could not open NBD file''])
        | Inr f \<Rightarrow>
          og_bind (suiteChecks filedisk_ops expectedSize
             (\<lambda>d. if closeErr \<noteq> None then Some (Ret ([Fatal ''Failed to close NBD stream''], d))
                  else if processErr \<noteq> None
                  then Some (Ret ([Fatal ''Errors occurred while processing NBD stream''], d))
                  else Some (Ret ([], d)))
             \<lparr>fd_File = f, fd_SizeBytes = wrap64 (int (unat expectedSize))\<rparr>)
           (\<lambda>(r, _). Some (Ret r))))"

text \<open>The name of a package, from the name of a type as \<^verbatim>\<open>%T\<close> prints it.\<close>

definition pkgName :: "string \<Rightarrow> string" where
  "pkgName typeName =
     (let varType = (case typeName of c # cs \<Rightarrow> if c = CHR ''*'' then cs else typeName | [] \<Rightarrow> [])
      in take (length varType - length (Ext varType)) varType)"

end
