(* ===== verification/Testutil_Laws.thy ===== *)
theory Testutil_Laws
  imports Testutil Ramdisk
begin

text \<open>
  The test suites pass on every new device of whole blocks that keeps its bytes as they are: the laws of the buffered
  readers and writers over such a device, the checks one by one, and the suites on memory, on a file and on
  the kernel's device.
\<close>

section \<open>Words and lists\<close>

lemma unat_of_size: "0 \<le> n \<Longrightarrow> n < 2 ^ 63 \<Longrightarrow> unat (word_of_int n :: u64) = nat n"
  by (simp add: unat_eq_nat_uint uint_word_of_int)

lemma unbufCount_le: "unat (unbufCount count) \<le> unat count"
proof -
  have "unbufCount count \<le> count div 3" by (auto simp: unbufCount_def)
  then have "unat (unbufCount count) \<le> unat count div 3" by (simp add: word_le_nat_alt unat_div)
  then show ?thesis by linarith
qed

lemma chunk_one: "p < length xs \<Longrightarrow> chunk xs p (Suc 0) = [xs ! p]"
  by (simp add: chunk_def take_Suc_conv_app_nth)

lemma take_chunk: "take p xs @ chunk xs p n = take (p + n) xs"
  by (simp add: chunk_def take_add)

definition pattern :: "nat \<Rightarrow> bytes" where
  "pattern n = map getVal [0..<n]"

lemma pattern_simps [simp]: "length (pattern n) = n" "i < n \<Longrightarrow> pattern n ! i = getVal i" "pattern 0 = []"
  "pattern (Suc n) = pattern n @ [getVal n]" "pattern n = [] \<longleftrightarrow> n = 0"
  by (simp_all add: pattern_def)

lemma t_then_Ret [simp]: "t_then (Some (Ret (r, d))) f = og_bind (f d) (\<lambda>(r', d). Some (Ret (r @ r', d)))"
  by (simp add: t_then_def)

lemma og_bind_assoc: "og_bind (og_bind m f) g = og_bind m (\<lambda>x. og_bind (f x) g)"
  by (cases "(m, f)" rule: og_bind.cases) simp_all

lemma chunk_Suc: "i < length xs \<Longrightarrow> chunk xs i (Suc k) = xs ! i # chunk xs (Suc i) k"
  by (simp add: chunk_def Cons_nth_drop_Suc [symmetric])

text \<open>What the testing framework makes of the reports.\<close>

definition passed :: "report list \<Rightarrow> bool" where
  "passed r \<longleftrightarrow> (\<forall>x \<in> set r. \<not> is_fatal x)"

lemma passed_simps [simp]: "passed []" "passed (Fatal m # r) = False" "passed (Skip m # r) = passed r"
  "passed (r @ r') \<longleftrightarrow> passed r \<and> passed r'"
  by (auto simp: passed_def)

lemma wrap64_nat:
  assumes "int n < 2 ^ 63" "u < 2 ^ 64"
  shows "wrap64 (int u) = int n \<longleftrightarrow> u = n"
proof (cases "int u < 2 ^ 63")
  case True
  then show ?thesis by (subst wrap64_id) (auto simp: in64_def)
next
  case False
  then have "wrap64 (int u) = int u - 2 ^ 64" using assms(2) by (intro wrap64_numeral_overflow) simp_all
  then show ?thesis using False assms by simp
qed

lemma wrap64_size:
  assumes "int n < 2 ^ 63"
  shows "wrap64 (int (unat (e :: u64))) = int n \<longleftrightarrow> unat e = n"
  by (rule wrap64_nat [OF assms]) (use unsigned_less [where 'b = 64 and w = e and 'a = nat] in simp)

section \<open>Buffered reading\<close>

text \<open>Filling the buffer gives at least a byte or an error, so that \<open>ReadByte\<close> needs it only once.\<close>

lemma br_read_progress:
  "br_read k ops b d = Ret (b', d') \<Longrightarrow> br_r b' = br_r b \<and> (br_w b < br_w b' \<or> br_w b \<le> br_w b' \<and> br_err b' \<noteq> None)"
proof (induction k arbitrary: b d)
  case (Suc k)
  then show ?case by (auto simp: go_bind_Ret_iff Let_def split: if_splits dest!: Suc.IH)
qed auto

lemma br_fill_progress: "br_fill ops b d = Ret (b', d') \<Longrightarrow> br_r b' = 0 \<and> (0 < br_w b' \<or> br_err b' \<noteq> None)"
  by (auto simp: br_fill_def Let_def split: if_splits dest!: br_read_progress)

text \<open>The reader stands at position \<open>p\<close> of the contents \<open>c\<close>, with the bytes up to the next block in its buffer.\<close>

definition br_at :: "bufr \<Rightarrow> bytes \<Rightarrow> nat \<Rightarrow> bool" where
  "br_at b c p \<longleftrightarrow> length (br_buf b) = 4096 \<and> br_r b \<le> br_w b \<and> br_w b \<le> 4096 \<and> br_err b = None \<and>
     chunk (br_buf b) (br_r b) (br_w b - br_r b) = chunk c p (br_w b - br_r b) \<and>
     br_cur b = int (p + (br_w b - br_r b)) \<and> p + (br_w b - br_r b) \<le> length c \<and> 4096 dvd p + (br_w b - br_r b)"

lemma br_at_new: "br_at br_new c 0" "br_r br_new = br_w br_new"
  by (simp_all add: br_at_def br_new_def bufioSize_def)

lemma br_at_byte:
  assumes "br_at b c p" "br_r b < br_w b"
  shows "br_buf b ! br_r b = c ! p" "br_at (b\<lparr>br_r := Suc (br_r b)\<rparr>) c (Suc p)"
proof -
  obtain m where m: "br_w b = Suc (br_r b + m)" using less_imp_Suc_add [OF assms(2)] by blast
  have eq: "chunk (br_buf b) (br_r b) (Suc m) = chunk c p (Suc m)" and b: "p + Suc m \<le> length c" "length (br_buf b) = 4096"
    "br_w b \<le> 4096" "br_err b = None" "br_cur b = int (p + Suc m)" "4096 dvd p + Suc m"
    using assms(1) by (simp_all add: br_at_def m)
  have "chunk (br_buf b) (br_r b) (Suc m) ! 0 = br_buf b ! br_r b" "chunk c p (Suc m) ! 0 = c ! p" using b(1-3) m by simp_all
  then show "br_buf b ! br_r b = c ! p" unfolding eq by (rule trans [OF sym])
  have "chunk (chunk (br_buf b) (br_r b) (Suc m)) 1 m = chunk (chunk c p (Suc m)) 1 m" by (simp only: eq)
  then have "chunk (br_buf b) (Suc (br_r b)) m = chunk c (Suc p) m" by (simp add: chunk_chunk)
  then show "br_at (b\<lparr>br_r := Suc (br_r b)\<rparr>) c (Suc p)" using b m by (simp add: br_at_def)
qed

lemma br_fill_empty:
  assumes "length (br_buf b) = 4096" "br_r b = br_w b"
  obtains k where "br_fill ops b d = br_read (Suc k) ops (b\<lparr>br_w := 0, br_r := 0\<rparr>) d"
proof -
  have "maxConsecutiveEmptyReads = Suc 99" by (simp add: maxConsecutiveEmptyReads_def)
  then show ?thesis using assms by (intro that [of 99]) (simp add: br_fill_def go_copy_def del: br_read.simps)
qed

context byte_device
begin

lemma fill_block:
  assumes "inv d" "br_at b (content d) p" "br_r b = br_w b" "p < length (content d)" "4096 dvd length (content d)"
  shows "\<exists>b' d'. br_fill ops b d = Ret (b', d') \<and> inv d' \<and> content d' = content d \<and>
    br_at b' (content d) p \<and> br_r b' = 0 \<and> br_w b' = 4096"
proof -
  have b: "length (br_buf b) = 4096" "br_err b = None" "br_cur b = int p" "4096 dvd p"
    using assms(2,3) by (auto simp: br_at_def)
  have "4096 dvd length (content d) - p" using assms(5) b(4) by (rule dvd_diff_nat)
  then have room: "p + 4096 \<le> length (content d)" using assms(4) by (auto dest: dvd_imp_le)
  then have "\<exists>d'. dev_ReadAt ops d (br_buf b) (int p) = Ret (4096, None, chunk (content d) p 4096, d')
      \<and> inv d' \<and> content d' = content d"
    using read_bytes [OF assms(1), of "int p" "br_buf b"] b(1) by fastforce
  then obtain d' where d': "dev_ReadAt ops d (br_buf b) (int p) = Ret (4096, None, chunk (content d) p 4096, d')"
    "inv d'" "content d' = content d" by blast
  have "wrap64 (int p + 4096) = int (p + 4096)"
    using room content_bound [OF assms(1)] by (subst wrap64_id) (auto simp: in64_def)
  moreover have "4096 dvd p + 4096" using b(4) by (rule dvd_add) simp
  moreover have "chunk (chunk (content d) p 4096) 0 4096 = chunk (content d) p 4096" by (simp add: chunk_chunk)
  moreover obtain k where "br_fill ops b d = br_read (Suc k) ops (b\<lparr>br_w := 0, br_r := 0\<rparr>) d"
    by (rule br_fill_empty [OF b(1) assms(3)])
  ultimately show ?thesis
    using d' b assms(3) room by (simp add: dev_rar_Read_def br_at_def)
qed

lemma fill_end:
  assumes "inv d" "br_at b (content d) (length (content d))" "br_r b = br_w b" "int (length (content d)) + 4096 < 2 ^ 63"
  shows "\<exists>b' d'. br_fill ops b d = Ret (b', d') \<and> inv d' \<and> content d' = content d \<and> br_err b' = Some EOF \<and> br_r b' = br_w b'"
proof -
  have b: "length (br_buf b) = 4096" "br_cur b = int (length (content d))" using assms(2,3) by (auto simp: br_at_def)
  have ne: "br_buf b \<noteq> []" using b(1) by auto
  obtain d' where "dev_ReadAt ops d (br_buf b) (int (length (content d))) = Ret (0, Some EOF, br_buf b, d')"
    "inv d'" "content d' = content d" using read_end [OF assms(1) ne] assms(4) b(1) by auto
  moreover obtain k where "br_fill ops b d = br_read (Suc k) ops (b\<lparr>br_w := 0, br_r := 0\<rparr>) d"
    by (rule br_fill_empty [OF b(1) assms(3)])
  ultimately show ?thesis using b by (simp add: dev_rar_Read_def)
qed

lemma ReadByte_next:
  assumes "inv d" "br_at b (content d) p" "p < length (content d)" "4096 dvd length (content d)"
  shows "\<exists>b' d'. br_ReadByte ops b d = Ret (Inr (content d ! p), b', d') \<and> inv d' \<and> content d' = content d \<and>
    br_at b' (content d) (Suc p)"
proof (cases "br_r b = br_w b")
  case True
  obtain b1 d' where f: "br_fill ops b d = Ret (b1, d')" "inv d'" "content d' = content d" "br_at b1 (content d) p"
    "br_r b1 = 0" "br_w b1 = 4096" using fill_block [OF assms(1,2) True assms(3,4)] by blast
  have "br_r b1 < br_w b1" using f(5,6) by simp
  from br_at_byte [OF f(4) this] show ?thesis
    using f True assms(2) by (simp add: br_ReadByte_def br_take_def br_at_def)
next
  case False
  then have "br_r b < br_w b" using assms(2) by (simp add: br_at_def)
  from br_at_byte [OF assms(2) this] show ?thesis
    using False assms(1) by (simp add: br_ReadByte_def br_take_def)
qed

lemma ReadByte_end:
  assumes "inv d" "br_at b (content d) (length (content d))" "int (length (content d)) + 4096 < 2 ^ 63"
  shows "\<exists>b' d'. br_ReadByte ops b d = Ret (Inl EOF, b', d') \<and> inv d' \<and> content d' = content d"
proof -
  have b: "br_r b = br_w b" "br_err b = None" using assms(2) by (auto simp: br_at_def)
  from fill_end [OF assms(1,2) b(1) assms(3)] b show ?thesis by (auto simp: br_ReadByte_def br_take_def)
qed

lemma copies_all:
  assumes "inv d" "br_at b (content d) p" "br_r b < br_w b" "hashed = take p (content d)"
    "4096 dvd length (content d)" "int (length (content d)) + 4096 < 2 ^ 63"
  shows "\<exists>d'. br_copy ops b d hashed = Some (Ret (content d, None, d')) \<and> inv d' \<and> content d' = content d"
  using assms
proof (induction "length (content d) - p" arbitrary: b d p hashed rule: less_induct)
  case less
  let ?k = "br_w b - br_r b"
  let ?b = "b\<lparr>br_r := br_w b\<rparr>"
  have b: "chunk (br_buf b) (br_r b) ?k = chunk (content d) p ?k" "p + ?k \<le> length (content d)" "br_at ?b (content d) (p + ?k)"
    using less.prems(2) by (auto simp: br_at_def)
  have acc: "hashed @ chunk (br_buf b) (br_r b) ?k = take (p + ?k) (content d)" using less.prems(4) b(1) by (simp add: take_chunk)
  have step: "br_copy ops b d hashed = (case br_fill ops ?b d of Panic \<Rightarrow> Some Panic
    | Ret (b', d) \<Rightarrow> br_copy ops b' d (hashed @ chunk (br_buf b) (br_r b) ?k))"
    using less.prems(3) by (subst br_copy.simps) simp
  show ?case
  proof (cases "p + ?k < length (content d)")
    case True
    obtain b' d' where f: "br_fill ops ?b d = Ret (b', d')" "inv d'" "content d' = content d" "br_at b' (content d) (p + ?k)"
      "br_r b' = 0" "br_w b' = 4096" using fill_block [OF less.prems(1) b(3) _ True less.prems(5)] by auto
    have "length (content d') - (p + ?k) < length (content d) - p" using f(3) True less.prems(3) by simp
    from less.hyps [OF this f(2) f(4) [folded f(3)] _ acc [folded f(3)]] show ?thesis
      using f step less.prems(5,6) by simp
  next
    case False
    then have last: "p + ?k = length (content d)" using b(2) by simp
    obtain b' d' where f: "br_fill ops ?b d = Ret (b', d')" "inv d'" "content d' = content d" "br_err b' = Some EOF"
      "br_r b' = br_w b'" using fill_end [OF less.prems(1) b(3) [unfolded last] _ less.prems(6)] by auto
    have "br_copy ops b' d' (content d) = Some (Ret (content d, None, d'))" using f(4,5) by (subst br_copy.simps) simp
    then show ?thesis using f step acc last by simp
  qed
qed

lemma hash_reads_all:
  assumes "inv d" "content d \<noteq> []" "4096 dvd length (content d)" "int (length (content d)) + 4096 < 2 ^ 63"
  shows "\<exists>d'. TestReadHash ops (sha256 (content d)) d = Some (Ret ([], d')) \<and> inv d' \<and> content d' = content d"
proof -
  obtain b d1 where f: "br_fill ops br_new d = Ret (b, d1)" "inv d1" "content d1 = content d" "br_at b (content d) 0"
    "br_r b = 0" "br_w b = 4096" using fill_block [OF assms(1) br_at_new _ assms(3)] assms(2) by auto
  obtain d' where "br_copy ops b d1 [] = Some (Ret (content d, None, d'))" "inv d'" "content d' = content d"
    using copies_all [OF f(2), of b 0 "[]"] f assms(3,4) by auto
  then show ?thesis using f(1) size [of d'] by (simp add: TestReadHash_def io_Copy_def)
qed

text \<open>The loops over single bytes.\<close>

lemma reads_empty_unbuffered:
  assumes "inv d" "i + k \<le> length (content d)" "length buf = 1"
  shows "\<exists>r d'. readEmpty_unbuffered k ops (int i) buf d = Ret (r, d') \<and> inv d' \<and> content d' = content d \<and>
    (passed r \<longleftrightarrow> chunk (content d) i k = zeros k)"
  using assms
proof (induction k arbitrary: i d buf)
  case (Suc k)
  have "buf \<noteq> []" and i: "i < length (content d)" using Suc.prems(2,3) by auto
  then obtain d1 where d1: "dev_ReadAt ops d buf (int i) = Ret (1, None, [content d ! i], d1)" "inv d1" "content d1 = content d"
    using read_bytes [OF Suc.prems(1), of "int i" buf] Suc.prems(2,3) by (auto simp: chunk_one)
  have "wrap64 (int i + 1) = int (Suc i)"
    using i content_bound [OF Suc.prems(1)] by (subst wrap64_id) (auto simp: in64_def)
  then show ?case
    using d1 Suc.IH [of d1 "Suc i" "[0]"] Suc.prems(2) by (auto simp: dev_rar_Read_def chunk_Suc [OF i])
qed simp

lemma reads_empty_buffered:
  assumes "inv d" "br_at b (content d) p" "p + k \<le> length (content d)" "4096 dvd length (content d)"
  shows "\<exists>r d'. readEmpty_buffered k ops b d = Ret (r, d') \<and> inv d' \<and> content d' = content d \<and>
    (passed r \<longleftrightarrow> chunk (content d) p k = zeros k)"
  using assms
proof (induction k arbitrary: p b d)
  case (Suc k)
  have p: "p < length (content d)" using Suc.prems(3) by simp
  obtain b' d' where "br_ReadByte ops b d = Ret (Inr (content d ! p), b', d')" "inv d'" "content d' = content d"
    "br_at b' (content d) (Suc p)" using ReadByte_next [OF Suc.prems(1,2) p Suc.prems(4)] by blast
  then show ?case using Suc.IH [of d' b' "Suc p"] Suc.prems(3,4) by (auto simp: chunk_Suc [OF p])
qed simp

lemma writes_reads_bytes:
  assumes "inv d" "i + k \<le> length (content d)" "length buf = 1"
  shows "\<exists>d'. writeRead_unbuffered k i ops (int i) buf d = Ret ([], d') \<and> inv d' \<and> length (content d') = length (content d)"
  using assms
proof (induction k arbitrary: i d buf)
  case 0
  then show ?case using flush_law [OF 0(1)] by auto
next
  case (Suc k)
  let ?v = "of_nat (i mod 256) :: byte"
  have in_range: "i < length (content d)" and ne: "buf \<noteq> []" using Suc.prems(2,3) by auto
  have wrap: "wrap64 (int i) = int i" "wrap64 (int i + 1) = int (Suc i)"
    using in_range content_bound [OF Suc.prems(1)] by (auto intro!: wrap64_id simp: in64_def)
  obtain d1 where d1: "dev_WriteAt ops d [?v] (int i) = Ret (1, None, d1)" "inv d1" "content d1 = blit (content d) i [?v]"
    using write_bytes [OF Suc.prems(1), of "int i" "[?v]"] in_range by auto
  have len: "length (content d1) = length (content d)" using d1(3) in_range by simp
  have "chunk (content d1) i 1 = [?v]" using chunk_blit_same [of i "[?v]" "content d"] d1(3) in_range by simp
  then obtain d2 where d2: "dev_ReadAt ops d1 buf (int i) = Ret (1, None, [?v], d2)" "inv d2" "content d2 = content d1"
    using read_bytes [OF d1(2) _ ne, of "int i"] Suc.prems(3) in_range len by auto
  show ?case
    using Suc.IH [of d2 "Suc i" "[?v]"] d1(1) d2 len Suc.prems(2) wrap by (simp add: dev_waw_Write_def)
qed

lemma reads_pattern:
  assumes "inv d" "content d = pattern n" "br_at b (pattern n) i" "i \<le> n" "4096 dvd n" "int n + 4096 < 2 ^ 63"
  shows "\<exists>d'. readBytes i (of_nat n) ops b d = Some (Ret ([], d')) \<and> inv d' \<and> content d' = content d"
  using assms
proof (induction "n - i" arbitrary: i b d)
  case 0
  then have "i = n" by simp
  then obtain b' d' where "br_ReadByte ops b d = Ret (Inl EOF, b', d')" "inv d'" "content d' = content d"
    using ReadByte_end [OF 0(2), of b] 0 by auto
  then show ?case using \<open>i = n\<close> by (subst readBytes.simps) simp
next
  case (Suc k)
  have "i < n" using Suc(2) by simp
  then obtain b' d' where r: "br_ReadByte ops b d = Ret (Inr (getVal i), b', d')" "inv d'" "content d' = content d"
    "br_at b' (pattern n) (Suc i)" using ReadByte_next [OF Suc(3), of b i] Suc.prems(2,3,5) by auto
  have "k = n - Suc i" "Suc i \<le> n" using Suc(2) by auto
  then show ?case using r Suc(1) [of "Suc i" d' b'] Suc.prems(2,5,6) by (subst readBytes.simps) simp
qed

text \<open>The buffered writer: the device holds what was flushed, over the bytes \<open>base\<close> it had before.\<close>

definition mw_ok :: "multw \<Rightarrow> 'd \<Rightarrow> bytes \<Rightarrow> bool" where
  "mw_ok w d base \<longleftrightarrow> inv d \<and> mw_err w = None \<and> mw_cur w = int (length (mw_hash w)) \<and>
     content d = blit base 0 (mw_hash w) \<and> length (mw_hash w @ mw_buf w) \<le> length base"

lemma mw_Flush_ok:
  assumes "mw_ok w d base"
  shows "\<exists>w' d'. mw_Flush ops w d = Ret (None, w', d') \<and> mw_ok w' d' base \<and> mw_hash w' = mw_hash w @ mw_buf w \<and> mw_buf w' = []"
proof (cases "mw_buf w = []")
  case True
  then show ?thesis using assms by (simp add: mw_Flush_def mw_ok_def)
next
  case False
  let ?h = "mw_hash w"
  have w: "inv d" "mw_cur w = int (length ?h)" "content d = blit base 0 ?h" "length ?h + length (mw_buf w) \<le> length base"
    "mw_err w = None" using assms by (auto simp: mw_ok_def)
  have len: "length (content d) = length base" using w(3,4) by simp
  obtain d' where d': "dev_WriteAt ops d (mw_buf w) (int (length ?h)) = Ret (int (length (mw_buf w)), None, d')" "inv d'"
    "content d' = blit (content d) (length ?h) (mw_buf w)"
    using write_bytes [OF w(1) _ False, of "int (length ?h)"] w(4) len by auto
  have "wrap64 (int (length ?h) + int (length (mw_buf w))) = int (length (?h @ mw_buf w))"
    using w(4) len content_bound [OF w(1)] by (subst wrap64_id) (auto simp: in64_def)
  moreover have "content d' = blit base 0 (?h @ mw_buf w)" using d'(3) w(3,4) by (simp add: blit_append)
  ultimately show ?thesis
    using False d' w by (simp add: mw_Flush_def mw_Write_def dev_waw_Write_def mw_ok_def Let_def)
qed

lemma mw_WriteByte_ok:
  assumes "mw_ok w d base" "length (mw_hash w @ mw_buf w) < length base"
  shows "\<exists>w' d'. mw_WriteByte ops w c d = Ret (None, w', d') \<and> mw_ok w' d' base \<and>
    mw_hash w' @ mw_buf w' = mw_hash w @ mw_buf w @ [c]"
proof (cases "bufioSize \<le> length (mw_buf w)")
  case True
  obtain w' d' where "mw_Flush ops w d = Ret (None, w', d')" "mw_ok w' d' base" "mw_hash w' = mw_hash w @ mw_buf w" "mw_buf w' = []"
    using mw_Flush_ok [OF assms(1)] by blast
  then show ?thesis using True assms by (simp add: mw_WriteByte_def mw_ok_def)
next
  case False
  then show ?thesis using assms by (simp add: mw_WriteByte_def mw_ok_def)
qed

lemma pattern_write_ok:
  assumes "mw_ok w d base" "mw_hash w @ mw_buf w = pattern i" "i + k \<le> length base"
  shows "\<exists>w' d'. pattern_write k i ops w d = Ret (None, w', d') \<and> mw_ok w' d' base \<and> mw_hash w' @ mw_buf w' = pattern (i + k)"
  using assms
proof (induction k arbitrary: i w d)
  case (Suc k)
  have "length (mw_hash w @ mw_buf w) < length base" using Suc.prems(2,3) by simp
  then obtain w' d' where w': "mw_WriteByte ops w (getVal i) d = Ret (None, w', d')" "mw_ok w' d' base"
    "mw_hash w' @ mw_buf w' = pattern i @ [getVal i]"
    using mw_WriteByte_ok [OF Suc.prems(1)] Suc.prems(2) by (metis append_assoc)
  then show ?case using Suc.IH [of w' d' "Suc i"] Suc.prems(3) by simp
qed simp

lemma writes_pattern:
  assumes "inv d" "length (content d) = n"
  shows "\<exists>d'. writePattern ops (of_nat n) d = Ret (sha256 (pattern n), [], d') \<and> inv d' \<and> content d' = pattern n"
proof -
  have "n < 2 ^ 64" using content_bound [OF assms(1)] assms(2) by simp
  then have n: "unat (of_nat n :: u64) = n" by (simp add: unat_of_nat)
  have "mw_ok mw_new d (content d)" using assms(1) by (simp add: mw_ok_def mw_new_def)
  then obtain w d1 where w: "pattern_write n 0 ops mw_new d = Ret (None, w, d1)" "mw_ok w d1 (content d)"
    "mw_hash w @ mw_buf w = pattern n"
    using pattern_write_ok [of mw_new d "content d" 0 n] assms(2) by (auto simp: mw_new_def)
  obtain w' d2 where w': "mw_Flush ops w d1 = Ret (None, w', d2)" "mw_ok w' d2 (content d)" "mw_hash w' = pattern n"
    using mw_Flush_ok [OF w(2)] w(3) by auto
  then have d2: "inv d2" "content d2 = pattern n" using assms(2) by (auto simp: mw_ok_def blit_def)
  show ?thesis using flush_law [OF d2(1)] w(1) w'(1,3) d2 n by (auto simp: writePattern_def)
qed

text \<open>The checks and the suite.\<close>

definition testable :: "'d \<Rightarrow> nat \<Rightarrow> bool" where
  "testable d n \<longleftrightarrow> inv d \<and> length (content d) = n \<and> 0 < n \<and> 4096 dvd n \<and> int n + 4096 < 2 ^ 63"

lemma testable_size:
  assumes "testable d n"
  shows "dev_Size ops d = int n" "unat (of_nat n :: u64) = n" "unat (unbufCount (of_nat n)) \<le> n"
proof -
  show "dev_Size ops d = int n" using assms size by (simp add: testable_def)
  have "n < 2 ^ 64" using assms by (simp add: testable_def)
  then show u: "unat (of_nat n :: u64) = n" by (simp add: unat_of_nat)
  show "unat (unbufCount (of_nat n)) \<le> n" using unbufCount_le [of "of_nat n"] u by simp
qed

lemma ReadEmpty_verdict:
  assumes "testable d n"
  shows "\<exists>r d'. TestReadEmpty ops (of_nat n) d = Some (Ret (r, d')) \<and> testable d' n \<and> (passed r \<longleftrightarrow> content d = zeros n)"
proof -
  note t = testable_size [OF assms]
  let ?k = "unat (unbufCount (of_nat n))"
  have d: "inv d" "length (content d) = n" "0 < n" "4096 dvd n" "int n + 4096 < 2 ^ 63" using assms by (auto simp: testable_def)
  obtain r1 d1 where d1: "readEmpty_unbuffered ?k ops 0 (zeros 1) d = Ret (r1, d1)" "inv d1" "content d1 = content d"
    "passed r1 \<longleftrightarrow> chunk (content d) 0 ?k = zeros ?k"
    using reads_empty_unbuffered [OF d(1), of 0 ?k "zeros 1"] t(3) d(2) by auto
  obtain r2 d2 where d2: "readEmpty_buffered n ops br_new d1 = Ret (r2, d2)" "inv d2" "content d2 = content d"
    "passed r2 \<longleftrightarrow> content d = zeros n"
    using reads_empty_buffered [OF d1(2) br_at_new(1), of n] d d1(3) chunk_all [of "content d"] by auto
  have "chunk (zeros n) 0 ?k = zeros ?k" using t(3) by (intro chunk_zeros) simp
  then have r: "passed r1 \<and> passed r2 \<longleftrightarrow> content d = zeros n" using d1(4) d2(4) by auto
  have "unat (of_nat n * 2 :: u64) = 2 * n" using d(5) by (simp add: unat_word_ariths(2) t(2))
  then have "\<not> (of_nat n :: u64) < 1" "(of_nat n :: u64) < of_nat n * 2" using d(3) t(2) by (simp_all add: word_less_nat_alt)
  then show ?thesis
    using d1(1) d2(1-3) d t r by (simp add: TestReadEmpty_def readEmpty_misaligned_def testable_def)
qed

lemma WriteReadPattern_passes:
  assumes "testable d n"
  shows "\<exists>d'. TestWriteReadPattern ops d = Some (Ret (sha256 (pattern n), [], d')) \<and> testable d' n \<and> content d' = pattern n"
proof -
  note t = testable_size [OF assms]
  have d: "inv d" "length (content d) = n" "0 < n" "4096 dvd n" "int n + 4096 < 2 ^ 63" using assms by (auto simp: testable_def)
  obtain d1 where d1: "writeRead_unbuffered (unat (unbufCount (of_nat n))) 0 ops 0 (zeros 1) d = Ret ([], d1)" "inv d1" "length (content d1) = n"
    using writes_reads_bytes [OF d(1), of 0 "unat (unbufCount (of_nat n))" "zeros 1"] t(3) d(2) by auto
  obtain d2 where d2: "writePattern ops (of_nat n) d1 = Ret (sha256 (pattern n), [], d2)" "inv d2" "content d2 = pattern n"
    using writes_pattern [OF d1(2,3)] by blast
  obtain d3 where d3: "readBytes 0 (of_nat n) ops br_new d2 = Some (Ret ([], d3))" "inv d3" "content d3 = pattern n"
    using reads_pattern [OF d2(2,3) br_at_new(1) _ d(4,5)] d2(3) by auto
  obtain d4 where d4: "TestReadHash ops (sha256 (pattern n)) d3 = Some (Ret ([], d4))" "inv d4" "content d4 = pattern n"
    using hash_reads_all [OF d3(2)] d3(3) d(3-5) by (metis length_0_conv less_numeral_extra(3) pattern_simps(1))
  show ?thesis
    using d1(1) d2(1) d3(1) d4 d t(1) by (simp add: TestWriteReadPattern_def testable_def)
qed

lemma checks_verdict:
  assumes "testable d n"
  shows "\<exists>r d'. suiteChecks ops e rest d = og_bind (rest d') (\<lambda>(r', d). Some (Ret (r @ r', d))) \<and> inv d' \<and>
    (passed r \<longleftrightarrow> unat e = n \<and> content d = zeros n)"
proof -
  have d: "inv d" "length (content d) = n" "0 < n" "4096 dvd n" "int n + 4096 < 2 ^ 63" using assms by (auto simp: testable_def)
  obtain bs d1 where d1: "dev_ReadAt ops d [0] 0 = Ret (1, None, bs, d1)" "inv d1" "content d1 = content d"
    using read_bytes [OF d(1), of 0 "[0]"] d(2,3) by auto
  then have t1: "testable d1 n" using d by (simp add: testable_def)
  obtain r1 where s: "TestDevSize ops e d1 = Some (Ret (r1, d1))" "passed r1 \<longleftrightarrow> unat e = n"
    using testable_size(1) [OF t1] wrap64_size [of n e] d(5) by (auto simp: TestDevSize_def)
  obtain r2 d2 where d2: "TestReadEmpty ops (of_nat n) d1 = Some (Ret (r2, d2))" "testable d2 n" "passed r2 \<longleftrightarrow> content d = zeros n"
    using ReadEmpty_verdict [OF t1] d1(3) by auto
  obtain d3 where d3: "dev_WriteAt ops d2 [0] 0 = Ret (1, None, d3)" "testable d3 n"
    using write_bytes [of d2 0 "[0]"] d2(2) length_blit [of 0 "[0]" "content d2"] by (auto simp: testable_def simp del: length_blit)
  obtain d4 where d4: "TestWriteReadPattern ops d3 = Some (Ret (sha256 (pattern n), [], d4))" "testable d4 n" "content d4 = pattern n"
    using WriteReadPattern_passes [OF d3(2)] by blast
  obtain d5 where d5: "TestReadHash ops (sha256 (pattern n)) d4 = Some (Ret ([], d5))" "inv d5"
    using hash_reads_all [of d4] d4(2,3) by (auto simp: testable_def)
  show ?thesis
    using d1(1) s d2(1,3) d3(1) d4(1) d5 testable_size(1) [OF t1]
    by (intro exI [of _ "r1 @ r2"] exI [of _ d5]) (simp add: suiteChecks_def t_then_def og_bind_assoc split_def)
qed

lemma suite_verdict:
  assumes "testable d n"
  shows "\<exists>r d'. TestUserspace ops e d = Some (Ret (r, d')) \<and> closed d' \<and> (passed r \<longleftrightarrow> unat e = n \<and> content d = zeros n)"
proof -
  obtain r d1 where d1: "TestUserspace ops e d = og_bind (TestClose ops d1) (\<lambda>(r', d). Some (Ret (r @ r', d)))" "inv d1"
    "passed r \<longleftrightarrow> unat e = n \<and> content d = zeros n"
    using checks_verdict [OF assms, of e "TestClose ops"] by (auto simp: TestUserspace_def)
  obtain d2 where d2: "dev_Close ops d1 = Ret (None, d2)" "closed d2" using close_law [OF d1(2)] by blast
  obtain e1 e2 e3 where "dev_ReadAt ops d2 [0] 0 = Ret (0, Some e1, [0], d2)" "dev_WriteAt ops d2 [0] 0 = Ret (0, Some e2, d2)"
    "dev_Flush ops d2 = Ret (Some e3, d2)"
    using closed_read [OF d2(2), of "[0]"] closed_write [OF d2(2), of "[0]"] closed_flush [OF d2(2)] by auto
  then show ?thesis using d1 d2 by (simp add: TestClose_def)
qed

end

section \<open>Properties\<close>

text \<open>
  C28: the test suites of the devices return on every memory disk, every file disk and every kernel device of whole blocks, and
  their verdict is right: the suite on a device passes exactly if the device has the expected size and reads as zeros, and leaves
  it closed; the suite through the kernel, run as root on a device that could be opened, passes exactly if the
  device reads as zeros and the stream ended without an error.
\<close>

theorem test_suites_verdict:
  assumes blocks: "0 < n" "4096 dvd n" "int n + 4096 < 2 ^ 63"
    and ram: "ramdisk_inv rd" "length (rd_disk rd) = n" and disk: "filedisk_inv fd" "length (fd_content fd) = n"
    and kern: "healthy f" "length (fdata f) = n"
  shows "(\<exists>r rd'. TestUserspace ramdisk_ops e rd = Some (Ret (r, rd')) \<and> rd_atomicOnline rd' \<noteq> 1 \<and>
      (passed r \<longleftrightarrow> unat e = n \<and> rd_disk rd = zeros n)) \<and>
    (\<exists>r fd'. TestUserspace filedisk_ops e fd = Some (Ret (r, fd')) \<and> fclosed (fd_File fd') \<and>
      (passed r \<longleftrightarrow> unat e = n \<and> fd_content fd = zeros n)) \<and>
    (\<exists>r. TestNBD 0 None (Inr f) closeErr processErr (of_nat n) = Some (Ret r) \<and>
      (passed r \<longleftrightarrow> fdata f = zeros n \<and> closeErr = None \<and> processErr = None))"
proof (intro conjI)
  show "\<exists>r rd'. TestUserspace ramdisk_ops e rd = Some (Ret (r, rd')) \<and> rd_atomicOnline rd' \<noteq> 1 \<and>
      (passed r \<longleftrightarrow> unat e = n \<and> rd_disk rd = zeros n)"
    using rdb.suite_verdict [of rd n e] blocks ram by (simp add: rdb.testable_def)
  show "\<exists>r fd'. TestUserspace filedisk_ops e fd = Some (Ret (r, fd')) \<and> fclosed (fd_File fd') \<and>
      (passed r \<longleftrightarrow> unat e = n \<and> fd_content fd = zeros n)"
    using fdb.suite_verdict [of fd n e] blocks disk by (simp add: fdb.testable_def)
  have e: "unat (of_nat n :: u64) = n" using blocks(3) by (simp add: unat_of_nat)
  let ?d = "\<lparr>fd_File = f, fd_SizeBytes = wrap64 (int (unat (of_nat n :: u64)))\<rparr>"
  let ?rest = "\<lambda>d. if closeErr \<noteq> None then Some (Ret ([Fatal ''Failed to close NBD stream''], d))
     else if processErr \<noteq> None then Some (Ret ([Fatal ''Errors occurred while processing NBD stream''], d))
     else Some (Ret ([], d))"
  have "fdb.testable ?d n" using blocks kern by (simp add: fdb.testable_def filedisk_inv_def fd_content_def e in64_def)
  from fdb.checks_verdict [OF this, of "of_nat n" ?rest]
  show "\<exists>r. TestNBD 0 None (Inr f) closeErr processErr (of_nat n) = Some (Ret r) \<and>
      (passed r \<longleftrightarrow> fdata f = zeros n \<and> closeErr = None \<and> processErr = None)"
    by (auto simp: TestNBD_def e fd_content_def og_bind_assoc)
qed

theorem test_suites_verdict_witness:
  "(\<exists>r rd'. TestUserspace ramdisk_ops 8192 \<lparr>rd_disk = zeros 8192, rd_size = 8192, rd_atomicOnline = 1\<rparr> = Some (Ret (r, rd')) \<and> passed r) \<and>
   (\<exists>r. TestNBD 0 None (Inr (new_file (zeros 8192))) None None 8192 = Some (Ret r) \<and> passed r)"
proof -
  note v = test_suites_verdict [of 8192 "\<lparr>rd_disk = zeros 8192, rd_size = 8192, rd_atomicOnline = 1\<rparr>"
      "\<lparr>fd_File = new_file (zeros 8192), fd_SizeBytes = 8192\<rparr>" "new_file (zeros 8192)" 8192 None None]
  have "ramdisk_inv \<lparr>rd_disk = zeros 8192, rd_size = 8192, rd_atomicOnline = 1\<rparr>"
    "filedisk_inv \<lparr>fd_File = new_file (zeros 8192), fd_SizeBytes = 8192\<rparr>"
    by (simp_all add: ramdisk_inv_def ramdisk_wf_def filedisk_inv_def fd_content_def)
  with v show ?thesis by (simp add: fd_content_def) blast
qed

end
