(* ===== verification/Spec2Isabelle.thy ===== *)
theory Spec2Isabelle
  imports Zeros OsFile Device Nbd_Wire Reqproc Ramdisk Filedisk Pipeline Pipeline_Props Pipeline_Lin
    Sha1 Dedup Dedup_Laws Mmap_Lun Pebble_Ids File_Blocks Dedup_Disk
    Strconv Stow Sparse Storeparams Segment Segment_Laws Segment_Ops Objdev Objdev_Laws Objdev_Disk
    Aes Encrypt Compress Containers Container_Laws Container_Props Objopts Objdev_New Objdev_Props Eviction Segment_Faults
    Strms Conf Conf_Show Nbd_Errs Nbd_Kern Nbd_Strm Lz4_Blocks Background Daemon Daemon_Props Daemon_Conc
    Sha256 Testutil Testutil_Laws
begin

text \<open>
  A verification development for usbd, a framework for block devices in user space and a daemon that serves
  them to the Linux kernel over its network block device driver (NBD).

  \<^bold>\<open>The program.\<close> A device implements the interface \<^verbatim>\<open>Device\<close> of \<^verbatim>\<open>src/pkg/usbdlib/dev.go\<close>. The library
  chooses and announces a kernel device (\<^verbatim>\<open>nbdkern_linux.go\<close>, \<^verbatim>\<open>nbdstrm.go\<close>), decodes the kernel's requests from a socket
  (\<^verbatim>\<open>req.go\<close>), executes them on the device in concurrent workers (\<^verbatim>\<open>reqproc.go\<close>) and writes the replies (\<^verbatim>\<open>resp.go\<close>).
  There are four devices under \<^verbatim>\<open>src/pkg/devices\<close>: memory, a file, a deduplicating store, and segments kept in an
  object store behind layers of encryption and compression, with a cache of local files. The daemon
  \<^verbatim>\<open>src/cmd/usbdsrvd\<close> reads a configuration, makes the device it asks for and serves it.

  \<^bold>\<open>How it is modelled.\<close> State is passed explicitly: a struct is a record, an operation a function to its results and
  the new state. A panic is the result \<^const>\<open>Panic\<close> of the type \<open>go\<close>, an error a value of \<open>goerr\<close>. A Go \<open>int\<close> or
  \<open>int64\<close> is an integer with \<open>wrap64\<close> written where it may overflow; unsigned numbers are words. Goroutines are steps of
  an inductive relation. Packages that are not part of the repository (pebble, stow, s2, the semaphores, humanize, the
  module loader, memory mapping) are records of operations or functions that the definitions
  take as arguments, and what their documentation promises is a predicate that theorems assume
  (\<open>kv_ok\<close>, \<open>stow_ok\<close>, \<open>base_ok\<close>, \<open>env_ok\<close>, \<open>sema_pkg_ok\<close>); lists and numbers that keep these promises are in the
  examples. What the sources use of Go's library is modelled: files and buffered writers, numbers and
  strings, the SHA hashes, AES with its stream modes.

  \<^bold>\<open>Theories.\<close>
  \<^item> \<open>Prelude\<close>: machine integers, slices, errors, panics, byte orders, ranges of byte lists. \<open>OsFile\<close>, \<open>Strconv\<close>, \<open>Sha1\<close>,
    \<open>Sha256\<close>, \<open>Aes\<close>: the library. \<open>Zeros\<close>, \<open>Strms\<close>: \<^verbatim>\<open>src/pkg/util\<close>.
  \<^item> \<open>Device\<close>: the interface as a record of operations \<open>dev_ops\<close>, and the locale \<open>block_device\<close>, the contract of a device: in
    its invariant states it is a flat byte array that whole-block requests read and overwrite. Its extension
    \<open>byte_device\<close> adds requests for any range of bytes, the end of the device and closing.
  \<^item> \<open>Nbd_Wire\<close>, \<open>Nbd_Errs\<close>: requests, replies and error codes. \<open>Reqproc\<close>: \<open>execute\<close>, and \<open>session\<close>, which passes one
    request after the other through decoding, execution and reply; for every device that keeps the
    contract a session gives the replies and the contents of a flat disk (\<open>session_refines\<close>).
  \<^item> \<open>Pipeline\<close>, \<open>Pipeline_Props\<close>: the reader, queues, workers and writer of \<open>processRequests\<close> under every
    interleaving: what a flush waits for, that requests are executed and answered once,
    that the queues drain and that the device is closed last. \<open>Pipeline_Lin\<close>: for every device that keeps the
    contract, the contents and the replies at any moment are those of the flat disk after the executed messages.
  \<^item> \<open>Nbd_Kern\<close>: loading the driver and choosing a device. \<open>Nbd_Strm\<close>: the announcement of a device, and the life of a
    stream as a step relation \<open>nstep\<close> with an invariant and a measure.
  \<^item> \<open>Ramdisk\<close>, \<open>Filedisk\<close>: the two simple devices, which interpret \<open>block_device\<close> and \<open>byte_device\<close>.
  \<^item> \<open>Dedup\<close>: the deduplicating device over its three interfaces. \<open>Dedup_Laws\<close>: their contracts \<open>lun_map\<close>, \<open>id_store\<close> and
    \<open>block_store\<close>, the locale \<open>dedup_device\<close> of a device over them, and the sublocale that makes it a \<open>block_device\<close>.
    \<open>Mmap_Lun\<close>, \<open>Pebble_Ids\<close>, \<open>File_Blocks\<close>: the implementations, with concurrent \<open>PutBlock\<close> calls. \<open>Dedup_Disk\<close>: the
    device the daemon builds. \<open>Lz4_Blocks\<close>: the compressing block store that its constructor refuses to make.
  \<^item> \<open>Stow\<close>: the container, cache directory, clock and semaphore of the object store device. \<open>Sparse\<close>, \<open>Storeparams\<close>: its
    local files (\<^verbatim>\<open>storeparams.go\<close>). \<open>Segment\<close>, \<open>Segment_Laws\<close>, \<open>Segment_Ops\<close>: segments (\<^verbatim>\<open>segment.go\<close>) and the bytes they
    stand for. \<open>Objdev\<close>, \<open>Objdev_Laws\<close>, \<open>Objdev_Disk\<close>: the device (\<^verbatim>\<open>device.go\<close>), the concatenation of its segments, as
    a \<open>block_device\<close>. \<open>Objopts\<close>, \<open>Objdev_New\<close>: options and constructor. \<open>Objdev_Props\<close>, \<open>Eviction\<close>,
    \<open>Segment_Faults\<close>: sessions, restart, quota, the choice of a victim, and where the code departs
    from what it promises.
  \<^item> \<open>Background\<close>: the worker that syncs the block store and the one that flushes the object store device: what is
    synced in the end and what is missed, and that flushing at any time changes nothing requests can see.
  \<^item> \<open>Encrypt\<close>, \<open>Compress\<close>, \<open>Containers\<close>: the layers of \<^verbatim>\<open>objstore/encrypt\<close> and \<^verbatim>\<open>objstore/compress\<close>, in any nesting.
    \<open>Container_Laws\<close>, \<open>Container_Props\<close>: what is put is what is listed, measured and read.
  \<^item> \<open>Conf\<close>, \<open>Conf_Show\<close>: flags, validation, keys, the options made of them, and the description for the log.
    \<open>Daemon\<close>: the device of each backing mode as a value of a sum type, for which the contract is
    derived from those of the four devices, and \<open>main\<close>. \<open>Daemon_Props\<close>: the daemon as a whole.
    \<open>Daemon_Conc\<close>: linearizability of the daemon with its concurrent workers.
  \<^item> \<open>Testutil\<close>: the test suites of \<^verbatim>\<open>src/pkg/devices/testutil\<close> over any device, with the buffered readers and writers they use.
    \<open>Testutil_Laws\<close>: on a \<open>byte_device\<close> the suites return and their verdict is right.

  \<^bold>\<open>Bounds.\<close> \<open>session\<close> takes fuel, one unit for each message and one for the disconnect; the theorems give it \<open>length ms + Suc fuel\<close>
  and conclude that it returns. The two loops of the test suites without a bound are partial functions, and the verdict
  theorem shows that they return. The loops over segments and streams are total functions with
  termination proofs. Sizes are below 2 to the power 63, as the program's own types require. The dedup
  store is verified for up to 2 to the power 50 blocks and relative to a set of blocks on which SHA-1
  has no collisions.

  \<^bold>\<open>Not modelled.\<close> Time: the delays and intervals of the workers are not modelled, only the order of events. The operations of a segment and of
  the object store device run one after the other; the locks that order them are left out, as is the recursive
  read locking of the dedup device. Signals, log output, the parsing of flags and of JSON and the
  dialling of object stores are outside, as are the deadlines of tests. The copy of the C library LZ4 in
  \<^verbatim>\<open>src/pkg/devices/dedupdisk/impls\<close> is not part of what the daemon runs: the constructor of its only caller refuses.
\<close>

end
